(* ===== verification/Prelude.thy ===== *)
theory Prelude
  imports Main "HOL-Library.List_Lexorder" "HOL-Library.Char_ord" "HOL-Library.Multiset"
begin

text \<open>
  Shared vocabulary of the development: the Python exceptions the modelled code can
  raise, Python's list indexing and \<open>list.index\<close> as error-returning functions
  (HOL's \<open>xs ! i\<close> is unspecified out of range, Python raises), object identities,
  and the generic lemmas on lists, options and sums that the component theories use.
\<close>

section \<open>Collections of lemmas\<close>

named_theorems pystr_simps \<open>characteristic equations of the Python string built-ins\<close>
named_theorems store_simps \<open>characteristic equations of the store operations\<close>

section \<open>Python exceptions and object identity\<close>

text \<open>
  Exceptions that escape \<open>TodoApp.handle_input\<close> or a dialog callback are not caught
  by the urwid main loop: they terminate the program. The model returns them as the
  left summand of a result.
\<close>

datatype py_error =
    IndexError
  | ValueError
  | ReadError string  \<comment> \<open>\<open>open\<close>/\<open>read\<close> of the named file failed (OSError, UnicodeDecodeError)\<close>
  | WriteError string \<comment> \<open>\<open>open(path, 'w')\<close> of the named file failed (OSError)\<close>
  | NameError string  \<comment> \<open>\<open>urwid.connect_signal\<close> of a signal the widget class does not declare\<close>

text \<open>
  Python objects are compared by identity in \<open>list.remove\<close>, \<open>in\<close> on lists of
  \<open>TodoItem\<close>s and as dictionary keys. Each object gets a fresh identity when it is
  created.
\<close>

type_synonym oid = nat

section \<open>Python list indexing\<close>

text \<open>\<open>xs[i]\<close>: a negative index counts from the end; out of range raises IndexError.\<close>

definition py_get :: "'a list \<Rightarrow> int \<Rightarrow> py_error + 'a" where
  "py_get xs i =
     (if - int (length xs) \<le> i \<and> i < int (length xs)
      then Inr (xs ! nat (i mod int (length xs)))
      else Inl IndexError)"

text \<open>\<open>xs.index(x)\<close>: the first position of \<open>x\<close>, ValueError when absent.\<close>

fun py_index_of :: "'a list \<Rightarrow> 'a \<Rightarrow> py_error + int" where
  "py_index_of [] x = Inl ValueError"
| "py_index_of (y # ys) x =
     (if y = x then Inr 0
      else (case py_index_of ys x of Inl e \<Rightarrow> Inl e | Inr i \<Rightarrow> Inr (i + 1)))"

lemma py_get_in_range [simp]:
  "0 \<le> i \<Longrightarrow> i < int (length xs) \<Longrightarrow> py_get xs i = Inr (xs ! nat i)"
  by (simp add: py_get_def)

lemma py_get_nonneg_error [simp]:
  "0 \<le> i \<Longrightarrow> int (length xs) \<le> i \<Longrightarrow> py_get xs i = Inl IndexError"
  by (simp add: py_get_def)

lemma py_index_of_found:
  "x \<in> set xs \<Longrightarrow> \<exists>i. py_index_of xs x = Inr i \<and> 0 \<le> i \<and> i < int (length xs)
     \<and> xs ! nat i = x"
proof (induction xs)
  case Nil
  then show ?case by simp
next
  case (Cons y ys)
  show ?case
  proof (cases "y = x")
    case True
    then show ?thesis by simp
  next
    case False
    with Cons obtain i where "py_index_of ys x = Inr i" "0 \<le> i" "i < int (length ys)"
      "ys ! nat i = x" by auto
    with False show ?thesis by (auto simp: nat_add_distrib)
  qed
qed

lemma py_index_of_absent [simp]: "x \<notin> set xs \<Longrightarrow> py_index_of xs x = Inl ValueError"
  by (induction xs) auto

lemma py_index_of_Inr_bound:
  "py_index_of xs x = Inr i \<Longrightarrow> 0 \<le> i \<and> i < int (length xs)"
  by (induction xs arbitrary: i) (auto split: if_splits sum.splits)

section \<open>Generic lemmas on lists\<close>

lemma filter_map_fst_subset [simp]:
  "set (map fst (filter P xs)) \<subseteq> set (map fst xs)"
  by auto

lemma distinct_map_fst_filter [intro]:
  "distinct (map fst xs) \<Longrightarrow> distinct (map fst (filter P xs))"
  by (induction xs) auto

end
