(* ===== verification/PyStr.thy ===== *)
theory PyStr
  imports Prelude
begin

text \<open>
  The Python \<open>str\<close> built-ins that \<open>src/mdtodo/mdtodo.py\<close> calls: the character
  classes \<open>\s\<close> and \<open>\w\<close> of the \<open>re\<close> module, \<open>str.strip\<close>,
  \<open>str.splitlines\<close>, the universal-newline translation of \<open>open(..., 'r')\<close>,
  \<open>str.replace('.md', '')\<close>, \<open>str.capitalize\<close> and the file-name filter of
  \<open>glob('*.md')\<close>. A HOL \<open>char\<close> is read as a code point of the Latin-1 range
  (0 to 255); the character classes are Python's for those code points.
\<close>

section \<open>Character classes\<close>

text \<open>\<open>\s\<close> and \<open>str.isspace\<close>: tab, LF, VT, FF, CR, the separators 0x1C to 0x1F,
  space, NEL (0x85) and NBSP (0xA0).\<close>

definition py_isspace :: "char \<Rightarrow> bool" where
  "py_isspace c = (of_char c \<in> {9, 10, 11, 12, 13, 28, 29, 30, 31, 32, 133, 160 :: nat})"

text \<open>\<open>\w\<close>: letters and digits (alphabetic or numeric code points) and underscore.\<close>

definition py_isword :: "char \<Rightarrow> bool" where
  "py_isword c =
     (let n = of_char c :: nat in
        (48 \<le> n \<and> n \<le> 57) \<or> (65 \<le> n \<and> n \<le> 90) \<or> (97 \<le> n \<and> n \<le> 122) \<or> n = 95
      \<or> n \<in> {170, 178, 179, 181, 185, 186, 188, 189, 190}
      \<or> (192 \<le> n \<and> n \<noteq> 215 \<and> n \<noteq> 247))"

text \<open>Line boundaries of \<open>str.splitlines\<close>: LF, VT, FF, CR, 0x1C, 0x1D, 0x1E, NEL.\<close>

definition is_linebreak :: "char \<Rightarrow> bool" where
  "is_linebreak c = (of_char c \<in> {10, 11, 12, 13, 28, 29, 30, 133 :: nat})"

abbreviation LF :: char where "LF \<equiv> CHR 0x0A"
abbreviation CR :: char where "CR \<equiv> CHR 0x0D"

lemma linebreak_isspace [simp]: "is_linebreak c \<Longrightarrow> py_isspace c"
  by (auto simp: is_linebreak_def py_isspace_def)

lemma word_not_space [simp]: "py_isword c \<Longrightarrow> \<not> py_isspace c"
  by (auto simp: py_isword_def py_isspace_def Let_def)

lemma LF_linebreak [simp]: "is_linebreak LF" and CR_linebreak [simp]: "is_linebreak CR"
  by (simp_all add: is_linebreak_def)

section \<open>str.strip\<close>

definition py_strip :: "string \<Rightarrow> string" where
  "py_strip s = rev (dropWhile py_isspace (rev (dropWhile py_isspace s)))"

lemma py_strip_no_trailing_space:
  "py_strip s \<noteq> [] \<Longrightarrow> \<not> py_isspace (last (py_strip s))"
proof -
  assume ne: "py_strip s \<noteq> []"
  let ?r = "rev (dropWhile py_isspace s)"
  have "dropWhile py_isspace ?r \<noteq> []" using ne by (simp add: py_strip_def)
  then have "\<not> py_isspace (hd (dropWhile py_isspace ?r))"
    by (metis hd_dropWhile)
  with ne show ?thesis by (simp add: py_strip_def last_rev)
qed

lemma py_strip_subset: "set (py_strip s) \<subseteq> set s"
  unfolding py_strip_def by (auto dest!: set_dropWhileD)

section \<open>str.splitlines\<close>

text \<open>
  The scanner keeps the current line reversed in \<open>cur\<close>. CR followed by LF is one
  boundary; a final boundary does not start an empty last line.
\<close>

function split_aux :: "string \<Rightarrow> string \<Rightarrow> string list" where
  "split_aux cur [] = (if cur = [] then [] else [rev cur])"
| "split_aux cur (c # cs) =
     (if is_linebreak c
      then rev cur # split_aux [] (if c = CR \<and> cs \<noteq> [] \<and> hd cs = LF then tl cs else cs)
      else split_aux (c # cur) cs)"
  by pat_completeness auto
termination
  by (relation "measure (\<lambda>(_, s). length s)") auto

definition py_splitlines :: "string \<Rightarrow> string list" where
  "py_splitlines s = split_aux [] s"

lemma split_aux_no_linebreak:
  "\<forall>x \<in> set cur. \<not> is_linebreak x \<Longrightarrow> l \<in> set (split_aux cur s) \<Longrightarrow> x \<in> set l \<Longrightarrow>
   \<not> is_linebreak x"
  by (induction cur s rule: split_aux.induct) (auto split: if_splits)

lemma py_splitlines_no_linebreak:
  "l \<in> set (py_splitlines s) \<Longrightarrow> x \<in> set l \<Longrightarrow> \<not> is_linebreak x"
  unfolding py_splitlines_def by (rule split_aux_no_linebreak) auto

lemma split_aux_append_plain:
  "\<forall>x \<in> set l. \<not> is_linebreak x \<Longrightarrow> split_aux cur (l @ s) = split_aux (rev l @ cur) s"
  by (induction l arbitrary: cur) auto

lemma py_splitlines_line:
  "\<forall>x \<in> set l. \<not> is_linebreak x \<Longrightarrow> py_splitlines (l @ LF # s) = l # py_splitlines s"
  by (simp add: py_splitlines_def split_aux_append_plain)

lemma py_splitlines_Nil [simp]: "py_splitlines [] = []"
  by (simp add: py_splitlines_def)

section \<open>Universal newlines\<close>

text \<open>\<open>open(path, 'r')\<close> reads in universal-newline mode: CR LF and a lone CR
  become LF.\<close>

function translate_newlines :: "string \<Rightarrow> string" where
  "translate_newlines [] = []"
| "translate_newlines (c # cs) =
     (if c = CR then LF # translate_newlines (if cs \<noteq> [] \<and> hd cs = LF then tl cs else cs)
      else c # translate_newlines cs)"
  by pat_completeness auto
termination
  by (relation "measure length") auto

section \<open>str.replace, str.capitalize, glob\<close>

text \<open>\<open>s.replace('.md', '')\<close>: every occurrence, scanned left to right.\<close>

function py_replace_md :: "string \<Rightarrow> string" where
  "py_replace_md [] = []"
| "py_replace_md (c # cs) =
     (if take 3 (c # cs) = ''.md'' then py_replace_md (drop 3 (c # cs))
      else c # py_replace_md cs)"
  by pat_completeness auto
termination
  by (relation "measure length") auto

definition ascii_upper :: "char \<Rightarrow> char" where
  "ascii_upper c = (if CHR ''a'' \<le> c \<and> c \<le> CHR ''z'' then char_of (of_char c - 32 :: nat) else c)"

definition ascii_lower :: "char \<Rightarrow> char" where
  "ascii_lower c = (if CHR ''A'' \<le> c \<and> c \<le> CHR ''Z'' then char_of (of_char c + 32 :: nat) else c)"

text \<open>\<open>str.capitalize\<close>: first character upper case, the rest lower case (the case
  mapping of ASCII letters; other code points are left as they are).\<close>

fun py_capitalize :: "string \<Rightarrow> string" where
  "py_capitalize [] = []"
| "py_capitalize (c # cs) = ascii_upper c # map ascii_lower cs"

text \<open>\<open>glob(join(d, '*.md'))\<close> lists the entries of \<open>d\<close> whose name ends in
  \<open>.md\<close> and does not start with a dot.\<close>

definition glob_md :: "string \<Rightarrow> bool" where
  "glob_md name = (3 \<le> length name \<and> drop (length name - 3) name = ''.md''
                   \<and> hd name \<noteq> CHR ''.'')"

end
