(* ===== verification/TodoItem.thy ===== *)
theory TodoItem
  imports PyStr
begin

text \<open>
  The class \<open>TodoItem\<close> of \<open>src/mdtodo/mdtodo.py\<close>: one task line with its text,
  done flag and category. The constructor replaces an empty category by
  \<open>"uncategorized"\<close>; \<open>toggle\<close> flips the flag; \<open>to_markdown\<close> prints the
  checkbox line, with a \<open>#category\<close> tag unless the category is empty or
  \<open>"uncategorized"\<close>. Identity of items (Python objects) is kept by the store
  (theory \<open>Store\<close>), not here.
\<close>

record todo_item =
  todo_text :: string
  todo_done :: bool
  category :: string

abbreviation uncategorized :: string where
  "uncategorized \<equiv> ''uncategorized''"

text \<open>\<open>TodoItem.__init__\<close>: \<open>self.category = category or "uncategorized"\<close>.\<close>

definition mk_todo_item :: "string \<Rightarrow> bool \<Rightarrow> string \<Rightarrow> todo_item" where
  "mk_todo_item t d c = \<lparr>todo_text = t, todo_done = d, category = (if c = [] then uncategorized else c)\<rparr>"

text \<open>The expression \<open>category or "uncategorized"\<close> on a regex group, which is
  \<open>None\<close> when the group did not take part: \<open>None\<close> and \<open>""\<close> are false.\<close>

definition or_uncategorized :: "string option \<Rightarrow> string" where
  "or_uncategorized c = (case c of Some s \<Rightarrow> if s \<noteq> [] then s else uncategorized | None \<Rightarrow> uncategorized)"

definition toggle :: "todo_item \<Rightarrow> todo_item" where
  "toggle it = it\<lparr>todo_done := \<not> todo_done it\<rparr>"

definition to_markdown :: "todo_item \<Rightarrow> string" where
  "to_markdown it =
     ''- ['' @ [if todo_done it then CHR ''x'' else CHR '' ''] @ ''] '' @ todo_text it
     @ (if category it \<noteq> [] \<and> category it \<noteq> uncategorized then '' #'' @ category it else [])"

lemma mk_todo_item_category_nonempty [simp]: "category (mk_todo_item t d c) \<noteq> []"
  by (simp add: mk_todo_item_def)

lemma mk_todo_item_fields [simp]:
  "todo_text (mk_todo_item t d c) = t" "todo_done (mk_todo_item t d c) = d"
  "c \<noteq> [] \<Longrightarrow> category (mk_todo_item t d c) = c"
  by (simp_all add: mk_todo_item_def)

lemma or_uncategorized_simps [simp]:
  "or_uncategorized None = uncategorized"
  "s \<noteq> [] \<Longrightarrow> or_uncategorized (Some s) = s"
  "or_uncategorized c \<noteq> []"
  by (simp_all add: or_uncategorized_def split: option.splits)

lemma toggle_fields [simp]:
  "todo_text (toggle it) = todo_text it" "todo_done (toggle it) = (\<not> todo_done it)"
  "category (toggle it) = category it"
  by (simp_all add: toggle_def)

lemma toggle_toggle [simp]: "toggle (toggle it) = it"
  by (simp add: toggle_def)

end
