(* ===== verification/Codec.thy ===== *)
theory Codec
  imports TodoItem
begin

text \<open>
  The markdown format of \<open>src/mdtodo/mdtodo.py\<close>: the regular expression
  \<open>TODO_PATTERN = r"- \[([ xX])\] (.+?)(?:\s+#(\w+))?\s*$"\<close> applied with
  \<open>re.match\<close> to each line of a file (\<open>TodoList.load_todos\<close>), and the text
  \<open>TodoList.save_todos\<close> writes into one file.
\<close>

section \<open>The line grammar\<close>

text \<open>
  \<open>(?:\s+#(\w+))?\s*$\<close> on the whole remainder \<open>s\<close> of a line. The group is tried
  first. \<open>\s+\<close> and \<open>\w+\<close> are greedy and backtracking never helps them: a
  shorter \<open>\s+\<close> leaves a space where \<open>#\<close> is needed, a shorter \<open>\w+\<close> leaves
  a word character where \<open>\s*$\<close> needs the end. \<open>$\<close> also matches before a final
  LF, which \<open>\s*\<close> consumes, so \<open>\s*$\<close> holds exactly of all-space remainders.
\<close>

definition tag_suffix :: "string \<Rightarrow> string option" where
  "tag_suffix s =
     (let ws = takeWhile py_isspace s; r = dropWhile py_isspace s in
      if ws \<noteq> [] \<and> r \<noteq> [] \<and> hd r = CHR ''#'' then
        (let w = takeWhile py_isword (tl r); rest = dropWhile py_isword (tl r) in
         if w \<noteq> [] \<and> list_all py_isspace rest then Some w else None)
      else None)"

text \<open>
  The lazy \<open>(.+?)\<close>: the text \<open>t\<close> read so far is extended one character at a
  time (never across LF, which \<open>.\<close> does not match) until the rest of the line
  matches the tail of the pattern. The result is the text group and the category group
  (\<open>None\<close> when the optional group did not take part).
\<close>

fun match_rest :: "string \<Rightarrow> string \<Rightarrow> (string \<times> string option) option" where
  "match_rest t [] = Some (t, None)"
| "match_rest t (c # cs) =
     (case tag_suffix (c # cs) of
        Some w \<Rightarrow> Some (t, Some w)
      | None \<Rightarrow>
          if list_all py_isspace (c # cs) then Some (t, None)
          else if c = LF then None
          else match_rest (t @ [c]) cs)"

definition match_body :: "string \<Rightarrow> (string \<times> string option) option" where
  "match_body r = (case r of [] \<Rightarrow> None | c # cs \<Rightarrow> if c = LF then None else match_rest [c] cs)"

text \<open>\<open>re.match(TODO_PATTERN, line)\<close>: \<open>Some (mark, text, category)\<close>, the three groups.\<close>

fun parse_line :: "string \<Rightarrow> (char \<times> string \<times> string option) option" where
  "parse_line (a # b # c # m # d # e # r) =
     (if a = CHR ''-'' \<and> b = CHR '' '' \<and> c = CHR ''['' \<and> m \<in> {CHR '' '', CHR ''x'', CHR ''X''}
         \<and> d = CHR '']'' \<and> e = CHR '' ''
      then map_option (\<lambda>(t, cat). (m, t, cat)) (match_body r)
      else None)"
| "parse_line _ = None"

text \<open>The loop body of \<open>load_todos\<close> on a match: \<open>done = mark.lower() == "x"\<close>,
  \<open>category = category or "uncategorized"\<close>, then \<open>TodoItem(text, done, category)\<close>.\<close>

fun item_of_groups :: "char \<times> string \<times> string option \<Rightarrow> todo_item" where
  "item_of_groups (m, t, cat) =
     mk_todo_item t (m = CHR ''x'' \<or> m = CHR ''X'') (or_uncategorized cat)"

text \<open>The items of one file, in line order: \<open>for line in content.splitlines()\<close>.\<close>

definition parse_content :: "string \<Rightarrow> todo_item list" where
  "parse_content content = map item_of_groups (List.map_filter parse_line (py_splitlines content))"

section \<open>The file writer of save_todos\<close>

text \<open>
  The body of the \<open>for file_name, todos in todos_by_file.items()\<close> loop: a heading
  from the file name, then the not-done items under \<open>## Active\<close> and the done items
  under \<open>## Completed\<close>, each section only when it is not empty.
\<close>

definition md_lines :: "todo_item list \<Rightarrow> string" where
  "md_lines its = concat (map (\<lambda>it. to_markdown it @ [LF]) its)"

definition file_text :: "string \<Rightarrow> todo_item list \<Rightarrow> string" where
  "file_text file_name todos =
     (let done_todos = filter todo_done todos;
          not_done_todos = filter (\<lambda>it. \<not> todo_done it) todos;
          category_name = py_replace_md file_name
      in ''# '' @ py_capitalize category_name @ '' Tasks'' @ [LF, LF]
         @ (if not_done_todos \<noteq> [] then ''## Active'' @ [LF, LF] @ md_lines not_done_todos @ [LF]
            else [])
         @ (if done_todos \<noteq> [] then ''## Completed'' @ [LF, LF] @ md_lines done_todos else []))"

section \<open>Which items survive a write and a read\<close>

text \<open>
  A text ends with a tag when some proper suffix of it, after the first character,
  has the shape \<open>\s+#\w+\s*\<close>: such a text, written without a category tag, is
  read back shorter and with that tag as its category.
\<close>

definition ends_with_tag :: "string \<Rightarrow> bool" where
  "ends_with_tag t = list_ex (\<lambda>n. tag_suffix (drop n t) \<noteq> None) [1..<length t]"

text \<open>
  An item whose line reads back as itself: a non-empty text without line breaks and
  without trailing white space, and a category that is either \<open>"uncategorized"\<close>
  (no tag is written, so the text must not end with one) or a word.
\<close>

definition line_safe :: "todo_item \<Rightarrow> bool" where
  "line_safe it \<longleftrightarrow>
     todo_text it \<noteq> [] \<and> list_all (\<lambda>c. \<not> is_linebreak c) (todo_text it)
     \<and> \<not> py_isspace (last (todo_text it)) \<and> category it \<noteq> []
     \<and> (if category it = uncategorized then \<not> ends_with_tag (todo_text it)
        else list_all py_isword (category it))"

section \<open>Lemmas on the line grammar\<close>

lemma char_classes [simp]:
  "\<not> py_isword CHR '' ''" "py_isspace CHR '' ''" "\<not> py_isspace CHR ''#''"
  "\<not> py_isword CHR ''#''" "\<not> is_linebreak CHR ''#''" "\<not> is_linebreak CHR ''-''"
  "\<not> is_linebreak CHR '' ''" "\<not> is_linebreak CHR ''[''" "\<not> is_linebreak CHR '']''"
  "\<not> is_linebreak CHR ''x''"
  by (simp_all add: py_isword_def py_isspace_def is_linebreak_def)

lemma word_not_linebreak [simp]: "py_isword c \<Longrightarrow> \<not> is_linebreak c"
  using linebreak_isspace word_not_space by blast

lemma tag_suffix_Some:
  "tag_suffix s = Some w \<Longrightarrow> w \<noteq> [] \<and> list_all py_isword w"
  by (auto simp: tag_suffix_def Let_def list_all_iff dest: set_takeWhileD split: if_splits)

lemma tag_suffix_tag:
  assumes "w \<noteq> []" and "list_all py_isword w"
  shows "tag_suffix (CHR '' '' # CHR ''#'' # w) = Some w"
proof -
  have t: "takeWhile py_isword w = w" and dr: "dropWhile py_isword w = []"
    using assms(2) by (simp_all add: list_all_iff)
  show ?thesis by (simp add: tag_suffix_def t dr assms(1))
qed

lemma tag_suffix_before_tag:
  assumes "u \<noteq> []" and "\<not> py_isspace (last u)"
  shows "tag_suffix (u @ CHR '' '' # CHR ''#'' # b) = None"
proof -
  have l: "last u \<in> set u" using assms(1) by (rule last_in_set)
  define d where "d = dropWhile py_isspace u"
  have d: "d \<noteq> []" unfolding d_def using l assms(2) by (auto simp: dropWhile_eq_Nil_conv)
  have dw: "dropWhile py_isspace (u @ CHR '' '' # CHR ''#'' # b) = d @ CHR '' '' # CHR ''#'' # b"
    unfolding d_def using l assms(2) by (rule dropWhile_append1)
  have rest: "dropWhile py_isword (tl d @ CHR '' '' # CHR ''#'' # b)
      = dropWhile py_isword (tl d) @ CHR '' '' # CHR ''#'' # b"
    by (rule dropWhile_append3) simp
  have nl: "\<not> list_all py_isspace (dropWhile py_isword (tl d) @ CHR '' '' # CHR ''#'' # b)"
    by simp
  have tl: "tl (d @ CHR '' '' # CHR ''#'' # b) = tl d @ CHR '' '' # CHR ''#'' # b"
    using d by simp
  show ?thesis unfolding tag_suffix_def Let_def dw tl rest using nl by auto
qed

lemma not_all_space_append:
  "xs \<noteq> [] \<Longrightarrow> \<not> py_isspace (last xs) \<Longrightarrow> \<not> list_all py_isspace (xs @ v)"
  by (auto simp: list_all_iff)

lemma match_rest_append:
  "\<forall>c \<in> set u. c \<noteq> LF \<Longrightarrow>
   \<forall>k < length u. tag_suffix (drop k u @ v) = None \<and> \<not> list_all py_isspace (drop k u @ v) \<Longrightarrow>
   match_rest t (u @ v) = match_rest (t @ u) v"
proof (induction u arbitrary: t)
  case Nil
  then show ?case by simp
next
  case (Cons c u)
  from Cons.prems(2) have hd: "tag_suffix (c # u @ v) = None" "\<not> list_all py_isspace (c # u @ v)"
    by (auto dest: spec [of _ 0])
  have "\<forall>k < length u. tag_suffix (drop k u @ v) = None \<and> \<not> list_all py_isspace (drop k u @ v)"
    using Cons.prems(2) by (auto dest: spec [of _ "Suc k" for k])
  then have "match_rest (t @ [c]) (u @ v) = match_rest (t @ [c] @ u) v"
    using Cons by simp
  with hd Cons.prems(1) show ?case by auto
qed



lemma match_body_safe:
  assumes t: "t = c # t'" and nolb: "list_all (\<lambda>x. \<not> is_linebreak x) t"
    and lst: "\<not> py_isspace (last t)"
    and tags: "\<And>k. k < length t' \<Longrightarrow> tag_suffix (drop k t' @ v) = None"
  shows "match_body (t @ v) = match_rest t v"
proof -
  have c: "c \<noteq> LF" and u: "\<forall>x \<in> set t'. x \<noteq> LF"
    using nolb t by (auto simp: list_all_iff)
  have "\<not> list_all py_isspace (drop k t' @ v)" if "k < length t'" for k
    using that lst t by (intro not_all_space_append) (auto simp: last_ConsR split: if_splits)
  then show ?thesis
    using match_rest_append [OF u, of v "[c]"] tags c t by (simp add: match_body_def)
qed

lemma tags_before_tag:
  assumes "t = c # t'" and "\<not> py_isspace (last t)"
  shows "k < length t' \<Longrightarrow> tag_suffix (drop k t' @ CHR '' '' # CHR ''#'' # w) = None"
  using assms by (intro tag_suffix_before_tag) (auto simp: last_ConsR split: if_splits)

lemma parse_line_tagged:
  assumes "t \<noteq> []" "list_all (\<lambda>x. \<not> is_linebreak x) t" "\<not> py_isspace (last t)"
    "w \<noteq> []" "list_all py_isword w"
  shows "match_body (t @ CHR '' '' # CHR ''#'' # w) = Some (t, Some w)"
proof -
  obtain c t' where t: "t = c # t'" using assms(1) by (cases t) auto
  have "match_body (t @ CHR '' '' # CHR ''#'' # w) = match_rest t (CHR '' '' # CHR ''#'' # w)"
    using match_body_safe [OF t assms(2,3)] tags_before_tag [OF t assms(3)] by blast
  with tag_suffix_tag [OF assms(4,5)] show ?thesis by simp
qed


lemma tag_suffix_space_Cons:
  "py_isspace c \<Longrightarrow> tag_suffix cs = Some w \<Longrightarrow> tag_suffix (c # cs) = Some w"
  by (auto simp: tag_suffix_def Let_def split: if_splits)

lemma match_rest_Some:
  "match_rest t s = Some (t', cat) \<Longrightarrow>
   \<exists>u. t' = t @ u \<and> LF \<notin> set u \<and> (u \<noteq> [] \<longrightarrow> \<not> py_isspace (last u))
      \<and> (u = [] \<longrightarrow> tag_suffix s \<noteq> None \<or> list_all py_isspace s)
      \<and> (\<forall>w. cat = Some w \<longrightarrow> w \<noteq> [] \<and> list_all py_isword w)"
proof (induction t s rule: match_rest.induct)
  case (1 t)
  then show ?case by simp
next
  case (2 t c cs)
  show ?case
  proof (cases "tag_suffix (c # cs)")
    case (Some w)
    with "2.prems" show ?thesis by (auto dest: tag_suffix_Some)
  next
    case None
    show ?thesis
    proof (cases "list_all py_isspace (c # cs)")
      case True
      with None "2.prems" show ?thesis by simp
    next
      case False
      with None "2.prems" have c: "c \<noteq> LF" and rec: "match_rest (t @ [c]) cs = Some (t', cat)"
        by (auto split: if_splits)
      from "2.IH" [OF None False c rec] obtain u where
        u: "t' = (t @ [c]) @ u" "LF \<notin> set u" "u \<noteq> [] \<longrightarrow> \<not> py_isspace (last u)"
           "u = [] \<longrightarrow> tag_suffix cs \<noteq> None \<or> list_all py_isspace cs"
           "\<forall>w. cat = Some w \<longrightarrow> w \<noteq> [] \<and> list_all py_isword w"
        by blast
      have "\<not> py_isspace c" if "u = []"
      proof
        assume sp: "py_isspace c"
        from u(4) that have "tag_suffix cs \<noteq> None \<or> list_all py_isspace cs" by blast
        then show False
          using sp None False tag_suffix_space_Cons by fastforce
      qed
      with u c show ?thesis by (intro exI [of _ "c # u"]) auto
    qed
  qed
qed

text \<open>
  C9. Shape of what the parser reads: the text group is never empty and never holds
  LF, it ends in a non-space character unless it is a single character, and the
  category group, when present, is a non-empty word.
\<close>

theorem parse_line_shape:
  assumes "parse_line l = Some (m, t, cat)"
  shows "t \<noteq> [] \<and> LF \<notin> set t \<and> (tl t \<noteq> [] \<longrightarrow> \<not> py_isspace (last t))
         \<and> m \<in> {CHR '' '', CHR ''x'', CHR ''X''}
         \<and> (\<forall>w. cat = Some w \<longrightarrow> w \<noteq> [] \<and> list_all py_isword w)"
proof -
  from assms obtain r where m: "m \<in> {CHR '' '', CHR ''x'', CHR ''X''}" and mb: "match_body r = Some (t, cat)"
    by (cases l rule: parse_line.cases) (auto split: if_splits)
  from mb obtain c cs where c: "c \<noteq> LF" and mr: "match_rest [c] cs = Some (t, cat)"
    by (auto simp: match_body_def split: list.splits if_splits)
  from match_rest_Some [OF mr] obtain u where
    "t = c # u" "LF \<notin> set u" "u \<noteq> [] \<longrightarrow> \<not> py_isspace (last u)"
    "\<forall>w. cat = Some w \<longrightarrow> w \<noteq> [] \<and> list_all py_isword w"
    by auto
  with c m show ?thesis by auto
qed

lemma split_aux_translate:
  "split_aux cur (translate_newlines s) = split_aux cur s"
proof (induction s arbitrary: cur rule: translate_newlines.induct)
  case 1
  then show ?case by simp
next
  case (2 c cs)
  show ?case
  proof (cases "c = CR")
    case True
    with "2.IH"(1) show ?thesis by simp
  next
    case False
    with "2.IH"(2) show ?thesis by (simp add: is_linebreak_def)
  qed
qed


lemma parse_content_translate:
  "parse_content (translate_newlines s) = parse_content s"
  by (simp add: parse_content_def py_splitlines_def split_aux_translate)

section \<open>Round trip of a line and of a file\<close>


lemma parse_line_to_markdown:
  assumes safe: "line_safe it"
  shows "map_option item_of_groups (parse_line (to_markdown it)) = Some it"
proof -
  let ?t = "todo_text it"
  let ?m = "if todo_done it then CHR ''x'' else CHR '' ''"
  from safe obtain c t' where t: "?t = c # t'"
    by (cases "?t") (auto simp: line_safe_def)
  have nolb: "list_all (\<lambda>x. \<not> is_linebreak x) ?t" and lst: "\<not> py_isspace (last ?t)"
    and cne: "category it \<noteq> []"
    using safe by (auto simp: line_safe_def)
  have line: "to_markdown it = CHR ''-'' # CHR '' '' # CHR ''['' # ?m # CHR '']'' # CHR '' '' # ?t
      @ (if category it \<noteq> [] \<and> category it \<noteq> uncategorized then CHR '' '' # CHR ''#'' # category it else [])"
    by (simp add: to_markdown_def)
  show ?thesis
  proof (cases "category it = uncategorized")
    case True
    with safe have notag: "\<not> ends_with_tag ?t" by (simp add: line_safe_def)
    have "tag_suffix (drop k t' @ []) = None" if k: "k < length t'" for k
    proof -
      have "Suc k \<in> set [1..<length ?t]" using k t by auto
      with notag have "tag_suffix (drop (Suc k) ?t) = None"
        by (auto simp: ends_with_tag_def list_ex_iff)
      with t show ?thesis by simp
    qed
    then have "match_body (?t @ []) = match_rest ?t []"
      by (rule match_body_safe [OF t nolb lst])
    with True line show ?thesis by (simp add: mk_todo_item_def)
  next
    case False
    have w: "category it \<noteq> []" "list_all py_isword (category it)"
      using safe False by (auto simp: line_safe_def)
    have mb: "match_body (?t @ CHR '' '' # CHR ''#'' # category it) = Some (?t, Some (category it))"
      using t nolb lst w by (intro parse_line_tagged) simp_all
    have "parse_line (to_markdown it) = Some (?m, ?t, Some (category it))"
      using line mb False w by simp
    then show ?thesis using w by (simp add: mk_todo_item_def)
  qed
qed

lemma parse_line_to_markdown_Some:
  "line_safe it \<Longrightarrow> \<exists>g. parse_line (to_markdown it) = Some g \<and> item_of_groups g = it"
  using parse_line_to_markdown by fastforce

lemma to_markdown_no_linebreak:
  "line_safe it \<Longrightarrow> \<forall>x \<in> set (to_markdown it). \<not> is_linebreak x"
  by (auto simp: line_safe_def to_markdown_def list_all_iff)

lemma parse_line_hash [simp]: "parse_line (CHR ''#'' # s) = None"
  by (cases "CHR ''#'' # s" rule: parse_line.cases) auto

lemma parse_content_skip:
  "\<forall>x \<in> set h. \<not> is_linebreak x \<Longrightarrow> parse_line h = None \<Longrightarrow>
   parse_content (h @ LF # s) = parse_content s"
  by (simp add: parse_content_def py_splitlines_line)

lemma parse_content_md_lines:
  "\<forall>it \<in> set its. line_safe it \<Longrightarrow> parse_content (md_lines its @ s) = its @ parse_content s"
proof (induction its)
  case Nil
  then show ?case by (simp add: md_lines_def)
next
  case (Cons it its)
  have "line_safe it" using Cons.prems by simp
  then obtain g where g: "parse_line (to_markdown it) = Some g" "item_of_groups g = it"
    using parse_line_to_markdown_Some by blast
  have "md_lines (it # its) @ s = to_markdown it @ LF # (md_lines its @ s)"
    by (simp add: md_lines_def)
  then show ?case using Cons to_markdown_no_linebreak [of it] g
    by (simp add: parse_content_def py_splitlines_line)
qed

lemma ascii_case_no_linebreak:
  "\<not> is_linebreak c \<Longrightarrow> \<not> is_linebreak (ascii_upper c)"
  "\<not> is_linebreak c \<Longrightarrow> \<not> is_linebreak (ascii_lower c)"
  by (auto simp: ascii_upper_def ascii_lower_def is_linebreak_def less_eq_char_def)

lemma py_replace_md_subset: "set (py_replace_md s) \<subseteq> set s"
  by (induction s rule: py_replace_md.induct) (auto dest: in_set_dropD)

lemma heading_no_linebreak:
  "\<forall>x \<in> set f. \<not> is_linebreak x \<Longrightarrow>
   \<forall>x \<in> set (py_capitalize (py_replace_md f)). \<not> is_linebreak x"
  using py_replace_md_subset [of f]
  by (cases "py_replace_md f") (auto simp: ascii_case_no_linebreak)

lemma parse_content_Nil [simp]: "parse_content [] = []"
  by (simp add: parse_content_def)

lemma match_rest_nonempty: "match_rest t cs = Some (t', c) \<Longrightarrow> t \<noteq> [] \<Longrightarrow> t' \<noteq> []"
  by (induction t cs rule: match_rest.induct) (auto split: option.splits if_splits)

lemma parse_content_text_nonempty: "it \<in> set (parse_content s) \<Longrightarrow> todo_text it \<noteq> []"
proof -
  have "parse_line l = Some (m, t, c) \<Longrightarrow> t \<noteq> []" for l m t c
    by (cases l rule: parse_line.cases)
       (auto simp: match_body_def split: list.splits if_splits dest: match_rest_nonempty)
  then show "it \<in> set (parse_content s) \<Longrightarrow> todo_text it \<noteq> []"
    by (fastforce simp: parse_content_def List.map_filter_def)
qed

lemma parse_content_section:
  "\<forall>it \<in> set its. line_safe it \<Longrightarrow>
   parse_content (CHR ''#'' # CHR ''#'' # CHR '' '' # name @ LF # LF # md_lines its @ s) = its @ parse_content s"
  if "\<forall>x \<in> set name. \<not> is_linebreak x"
  using that parse_content_skip [of "CHR ''#'' # CHR ''#'' # CHR '' '' # name"]
    parse_content_skip [of "[]"]
  by (simp add: parse_content_md_lines)

text \<open>
  C7. Round trip of one file written by \<open>save_todos\<close>: reading back the text
  written for a list of items whose lines are safe gives the not-done items and then
  the done items, each with its text, done flag and category.
\<close>

theorem parse_content_file_text:
  assumes safe: "\<forall>it \<in> set its. line_safe it"
    and name: "\<forall>x \<in> set file_name. \<not> is_linebreak x"
  shows "parse_content (file_text file_name its)
         = filter (\<lambda>it. \<not> todo_done it) its @ filter todo_done its"
proof -
  define nd where "nd = filter (\<lambda>it. \<not> todo_done it) its"
  define d where "d = filter todo_done its"
  define h where "h = CHR ''#'' # CHR '' '' # py_capitalize (py_replace_md file_name) @ '' Tasks''"
  define C where "C = (if d \<noteq> [] then ''## Completed'' @ [LF, LF] @ md_lines d else [])"
  define A where "A = (if nd \<noteq> [] then ''## Active'' @ [LF, LF] @ md_lines nd @ [LF] else [])"
  have safe_nd: "\<forall>it \<in> set nd. line_safe it" and safe_d: "\<forall>it \<in> set d. line_safe it"
    using safe by (auto simp: nd_def d_def)
  have hn: "\<forall>x \<in> set h. \<not> is_linebreak x"
    using heading_no_linebreak [OF name] by (simp add: h_def is_linebreak_def)
  have ft: "file_text file_name its = h @ LF # [] @ LF # A @ C"
    by (simp add: file_text_def h_def A_def C_def nd_def d_def Let_def)
  have pC: "parse_content C = d"
    using parse_content_section [OF _ safe_d, of "''Completed''" "[]"]
    by (simp add: C_def is_linebreak_def)
  have pAC: "parse_content (A @ C) = nd @ d"
    using parse_content_section [OF _ safe_nd, of "''Active''" "[] @ LF # C"]
      parse_content_skip [of "[]" C] pC
    by (simp add: A_def is_linebreak_def)
  have "parse_content (file_text file_name its) = parse_content (A @ C)"
    unfolding ft using parse_content_skip [OF hn] parse_content_skip [of "[]"]
    by (simp add: h_def)
  with pAC show ?thesis by (simp add: nd_def d_def)
qed


section \<open>What the format loses\<close>

text \<open>
  C30. A text that ends in a blank and a \<open>#word\<close> is written without a tag when its
  category is \<open>"uncategorized"\<close>, and read back cut before the blank, with the word
  as its category.
\<close>

theorem to_markdown_tag_split:
  assumes "t \<noteq> []" "list_all (\<lambda>x. \<not> is_linebreak x) t" "\<not> py_isspace (last t)"
    "w \<noteq> []" "list_all py_isword w"
  shows "map_option item_of_groups (parse_line (to_markdown (mk_todo_item (t @ '' #'' @ w) d uncategorized)))
         = Some (mk_todo_item t d w)"
proof -
  have "match_body (t @ CHR '' '' # CHR ''#'' # w) = Some (t, Some w)"
    using assms by (rule parse_line_tagged)
  then show ?thesis using assms(4) by (simp add: to_markdown_def mk_todo_item_def)
qed

theorem parse_line_shape_witness:
  "parse_line ''- [X]  a #b c  '' = Some (CHR ''X'', '' a #b c'', None)
   \<and> '' a #b c'' \<noteq> [] \<and> LF \<notin> set '' a #b c'' \<and> \<not> py_isspace (last '' a #b c'')"
proof -
  have p: "parse_line ''- [X]  a #b c  '' = Some (CHR ''X'', '' a #b c'', None)" by code_simp
  show ?thesis using parse_line_shape [OF p] p by simp
qed

theorem to_markdown_tag_split_witness:
  "map_option item_of_groups (parse_line (to_markdown (mk_todo_item ''buy #milk'' False uncategorized)))
   = Some \<lparr>todo_text = ''buy'', todo_done = False, category = ''milk''\<rparr>"
proof -
  have h: "''buy'' \<noteq> []" "list_all (\<lambda>x. \<not> is_linebreak x) ''buy''" "\<not> py_isspace (last ''buy'')"
    "''milk'' \<noteq> []" "list_all py_isword ''milk''"
    by (simp_all add: is_linebreak_def py_isspace_def py_isword_def)
  show ?thesis using to_markdown_tag_split [OF h, of False] by (simp add: mk_todo_item_def)
qed

theorem parse_content_file_text_witness:
  "line_safe \<lparr>todo_text = ''write report'', todo_done = False, category = ''work''\<rparr>
   \<and> line_safe \<lparr>todo_text = ''ship it'', todo_done = True, category = uncategorized\<rparr>
   \<and> list_all (\<lambda>x. \<not> is_linebreak x) ''work.md''
   \<and> parse_content (file_text ''work.md''
        [\<lparr>todo_text = ''write report'', todo_done = False, category = ''work''\<rparr>,
         \<lparr>todo_text = ''ship it'', todo_done = True, category = uncategorized\<rparr>])
      = [\<lparr>todo_text = ''write report'', todo_done = False, category = ''work''\<rparr>,
         \<lparr>todo_text = ''ship it'', todo_done = True, category = uncategorized\<rparr>]"
proof -
  have h1: "\<forall>it \<in> set [\<lparr>todo_text = ''write report'', todo_done = False, category = ''work''\<rparr>,
               \<lparr>todo_text = ''ship it'', todo_done = True, category = uncategorized\<rparr>]. line_safe it"
    by code_simp
  have h2: "\<forall>x \<in> set ''work.md''. \<not> is_linebreak x" by code_simp
  show ?thesis using parse_content_file_text [OF h1 h2] h1 h2 by (simp add: list_all_iff)
qed

end
