(* ===== verification/Store.thy ===== *)
theory Store
  imports Codec
begin

text \<open>
  The class \<open>TodoList\<close> of \<open>src/mdtodo/mdtodo.py\<close>. Its attributes become the
  record \<open>store\<close>: \<open>self.todos\<close> is a list of objects, here pairs of an identity
  and a value; \<open>self.todo_files\<close>, a dictionary keyed by object identity, is a map
  from identities to file names; \<open>self.categories\<close> is a set of strings. The
  directory \<open>todo/\<close> is a \<open>disk\<close>: its entries in listing order, each with the
  decoded text of the file or \<open>None\<close> when opening or decoding it fails.
  \<open>load_todos\<close> reads a disk, \<open>save_todos\<close> returns the list of files it writes,
  in the order it writes them; \<open>save_writes\<close> puts them on the disk, or raises
  the error of the first file it cannot open.
\<close>

record store =
  todos :: "(oid \<times> todo_item) list"
  todo_files :: "oid \<rightharpoonup> string"
  categories :: "string set"
  next_oid :: oid

type_synonym disk = "(string \<times> string option) list"

section \<open>Creating objects\<close>

text \<open>\<open>todo = TodoItem(...)\<close> followed by \<open>self.todos.append(todo)\<close>: a fresh
  identity for the new object.\<close>

definition append_new :: "todo_item \<Rightarrow> store \<Rightarrow> oid \<times> store" where
  "append_new it st =
     (next_oid st, st\<lparr>todos := todos st @ [(next_oid st, it)], next_oid := Suc (next_oid st)\<rparr>)"

section \<open>load_todos\<close>

text \<open>The body of the loop over the lines of one file (lines 83 to 95).\<close>

fun load_line :: "string \<Rightarrow> store \<Rightarrow> string \<Rightarrow> store" where
  "load_line file_name st line =
     (case parse_line line of
        None \<Rightarrow> st
      | Some (mark, txt, cat) \<Rightarrow>
          (let category = or_uncategorized cat;
               st1 = st\<lparr>categories := insert category (categories st)\<rparr>;
               (oid, st2) = append_new (mk_todo_item txt (mark = CHR ''x'' \<or> mark = CHR ''X'') category) st1
           in st2\<lparr>todo_files := (todo_files st2)(oid \<mapsto> file_name)\<rparr>))"

text \<open>
  The loop over the files that \<open>glob\<close> lists. There is no \<open>try\<close> around
  \<open>open\<close> and \<open>read\<close>: the first unreadable file ends the load with its exception.
\<close>

fun load_files :: "disk \<Rightarrow> store \<Rightarrow> py_error + store" where
  "load_files [] st = Inr st"
| "load_files ((name, content) # es) st =
     (if glob_md name then
        (case content of
           None \<Rightarrow> Inl (ReadError name)
         | Some raw \<Rightarrow> load_files es (foldl (load_line name) st (py_splitlines (translate_newlines raw))))
      else load_files es st)"

text \<open>\<open>load_todos\<close> empties \<open>todos\<close> and \<open>todo_files\<close> but keeps \<open>categories\<close>.\<close>

definition load_todos :: "store \<Rightarrow> disk \<Rightarrow> py_error + store" where
  "load_todos st d = load_files d (st\<lparr>todos := [], todo_files := Map.empty\<rparr>)"

text \<open>\<open>TodoList.__init__\<close>.\<close>

definition init_store :: "disk \<Rightarrow> py_error + store" where
  "init_store d =
     load_todos \<lparr>todos = [], todo_files = Map.empty, categories = {uncategorized}, next_oid = 0\<rparr> d"

section \<open>save_todos\<close>

text \<open>\<open>todos_by_file\<close> is a dictionary; Python keeps its keys in insertion order.\<close>

fun add_to_group :: "string \<Rightarrow> 'a \<Rightarrow> (string \<times> 'a list) list \<Rightarrow> (string \<times> 'a list) list" where
  "add_to_group k x [] = [(k, [x])]"
| "add_to_group k x ((k', xs) # gs) =
     (if k' = k then (k', xs @ [x]) # gs else (k', xs) # add_to_group k x gs)"

text \<open>The first loop of \<open>save_todos\<close>: an item without a file name (none, or the empty
  string) is given \<open>"<category>.md"\<close>, which is recorded in \<open>todo_files\<close>.\<close>

fun group_by_file ::
  "(oid \<times> todo_item) list \<Rightarrow> (oid \<rightharpoonup> string) \<Rightarrow> (string \<times> todo_item list) list
   \<Rightarrow> (oid \<rightharpoonup> string) \<times> (string \<times> todo_item list) list" where
  "group_by_file [] files groups = (files, groups)"
| "group_by_file ((oid, it) # ts) files groups =
     (let (file_name, files') =
        (case files oid of
           Some f \<Rightarrow> if f \<noteq> [] then (f, files) else (category it @ ''.md'', files(oid \<mapsto> category it @ ''.md''))
         | None \<Rightarrow> (category it @ ''.md'', files(oid \<mapsto> category it @ ''.md'')))
      in group_by_file ts files' (add_to_group file_name it groups))"

text \<open>The second loop: one write per file, overwriting it in full.\<close>

definition save_todos :: "store \<Rightarrow> (string \<times> string) list \<times> store" where
  "save_todos st =
     (let (files, groups) = group_by_file (todos st) (todo_files st) []
      in (map (\<lambda>(f, its). (f, file_text f its)) groups, st\<lparr>todo_files := files\<rparr>))"

text \<open>The grouping \<open>save_todos\<close> should compute, as a reference: the distinct file names
  in the order of their first item, each with its items in list order.\<close>

definition file_groups :: "('k \<times> 'a \<Rightarrow> string) \<Rightarrow> ('k \<times> 'a) list \<Rightarrow> (string \<times> 'a list) list" where
  "file_groups key ts =
     map (\<lambda>f. (f, map snd (filter (\<lambda>p. key p = f) ts))) (rev (remdups (rev (map key ts))))"

text \<open>Writing a file: an existing entry is overwritten in place, a new one is listed last.\<close>

fun write_file :: "disk \<Rightarrow> string \<times> string \<Rightarrow> disk" where
  "write_file [] (n, c) = [(n, Some c)]"
| "write_file ((n', c') # es) (n, c) =
     (if n' = n then (n, Some c) # es else (n', c') # write_file es (n, c))"

text \<open>The writes of a save when every name is a plain entry of \<open>todo/\<close>.\<close>

definition apply_writes :: "disk \<Rightarrow> (string \<times> string) list \<Rightarrow> disk" where
  "apply_writes d ws = foldl write_file d ws"

text \<open>
  Where \<open>open(os.path.join(todo_dir, file_name), 'w')\<close> writes. \<open>os.path.join\<close>
  returns an absolute \<open>file_name\<close> unchanged, so such a file is written outside
  \<open>todo/\<close>; so is a relative one whose path leaves \<open>todo/\<close> through \<open>..\<close>.
  The disk lists the files of \<open>todo/\<close>, which has no subdirectories: a name whose
  first component is a proper name (\<open>a/b.md\<close>) needs the missing directory
  \<open>todo/a\<close>, and \<open>open\<close> raises FileNotFoundError (or NotADirectoryError when
  \<open>todo/a\<close> is a file); the empty name, \<open>.\<close> and \<open>..\<close> name a directory
  (IsADirectoryError). Empty and \<open>.\<close> components are skipped.
\<close>

datatype write_place = In_todo string | Outside_todo | Open_fails

function rel_place :: "string \<Rightarrow> write_place" where
  "rel_place n =
     (if CHR ''/'' \<notin> set n then (if n = [] \<or> n = ''.'' \<or> n = ''..'' then Open_fails else In_todo n)
      else (let c = takeWhile (\<lambda>x. x \<noteq> CHR ''/'') n; r = tl (dropWhile (\<lambda>x. x \<noteq> CHR ''/'') n)
            in if c = ''..'' then Outside_todo
               else if c = [] \<or> c = ''.'' then rel_place r
               else Open_fails))"
  by pat_completeness auto
termination
proof (relation "measure length", simp_all)
  fix n :: string
  assume "CHR ''/'' \<in> set n"
  then have "dropWhile (\<lambda>x. x \<noteq> CHR ''/'') n \<noteq> []" by (simp add: dropWhile_eq_Nil_conv)
  then show "length (dropWhile (\<lambda>x. x \<noteq> CHR ''/'') n) - Suc 0 < length n"
    using length_dropWhile_le [of "\<lambda>x. x \<noteq> CHR ''/''" n] by (cases "dropWhile (\<lambda>x. x \<noteq> CHR ''/'') n") auto
qed

declare rel_place.simps [simp del]

definition write_place :: "string \<Rightarrow> write_place" where
  "write_place n = (if n \<noteq> [] \<and> hd n = CHR ''/'' then Outside_todo else rel_place n)"

text \<open>The loop \<open>for file_name, todos in todos_by_file.items()\<close>: the files are
  written in turn, and the first \<open>open\<close> that fails raises out of \<open>save_todos\<close>.\<close>

fun save_writes :: "disk \<Rightarrow> (string \<times> string) list \<Rightarrow> py_error + disk" where
  "save_writes d [] = Inr d"
| "save_writes d ((n, c) # ws) =
     (case write_place n of
        In_todo m \<Rightarrow> save_writes (write_file d (m, c)) ws
      | Outside_todo \<Rightarrow> save_writes d ws
      | Open_fails \<Rightarrow> Inl (WriteError n))"

text \<open>A name that \<open>open\<close> takes as an entry of \<open>todo/\<close>.\<close>

definition plain_name :: "string \<Rightarrow> bool" where
  "plain_name n \<longleftrightarrow> CHR ''/'' \<notin> set n \<and> n \<noteq> [] \<and> n \<noteq> ''.'' \<and> n \<noteq> ''..''"

section \<open>add_todo, delete_todo and the queries\<close>

definition add_todo :: "string \<Rightarrow> string \<Rightarrow> store \<Rightarrow> oid \<times> store" where
  "add_todo txt cat st =
     (let category = (if cat = [] then uncategorized else cat);
          st1 = st\<lparr>categories := insert category (categories st)\<rparr>
      in append_new (mk_todo_item txt False category) st1)"

text \<open>\<open>list.remove\<close>: the first element with that identity.\<close>

fun remove_oid :: "oid \<Rightarrow> (oid \<times> 'a) list \<Rightarrow> (oid \<times> 'a) list" where
  "remove_oid o' [] = []"
| "remove_oid o' (x # xs) = (if fst x = o' then xs else x # remove_oid o' xs)"

definition delete_todo :: "oid \<Rightarrow> store \<Rightarrow> store" where
  "delete_todo o' st =
     (if o' \<in> fst ` set (todos st)
      then st\<lparr>todos := remove_oid o' (todos st),
              todo_files := (if o' \<in> dom (todo_files st) then (todo_files st)(o' := None)
                             else todo_files st)\<rparr>
      else st)"

definition get_todos_by_category :: "string \<Rightarrow> store \<Rightarrow> (oid \<times> todo_item) list" where
  "get_todos_by_category cat st = filter (\<lambda>(_, it). category it = cat) (todos st)"

definition get_categories :: "store \<Rightarrow> string list" where
  "get_categories st = sorted_list_of_set (categories st)"

text \<open>In-place mutation of one object (\<open>todo.toggle()\<close>, the assignments of the edit
  dialog): every list position holding that identity sees the change.\<close>

definition update_item :: "oid \<Rightarrow> (todo_item \<Rightarrow> todo_item) \<Rightarrow> store \<Rightarrow> store" where
  "update_item o' f st =
     st\<lparr>todos := map (\<lambda>(i, it). if i = o' then (i, f it) else (i, it)) (todos st)\<rparr>"

section \<open>The abstract reader and the invariants\<close>

text \<open>
  \<open>disk_items\<close> is what a load promises: the items of every listed \<open>*.md\<close> file, file
  after file, or the read error of the first file that cannot be read.
\<close>

fun disk_items :: "disk \<Rightarrow> py_error + todo_item list" where
  "disk_items [] = Inr []"
| "disk_items ((name, content) # es) =
     (if glob_md name then
        (case content of
           None \<Rightarrow> Inl (ReadError name)
         | Some raw \<Rightarrow> map_sum id (\<lambda>its. parse_content (translate_newlines raw) @ its) (disk_items es))
      else disk_items es)"

text \<open>
  The well-formedness of a store: identities are distinct and below the next fresh one,
  only listed objects have a file name, \<open>"uncategorized"\<close> is a category, the category
  set is finite, and no item has an empty category. \<open>cats_ok\<close> is the spec's category
  invariant: every item's category is a member of \<open>categories\<close>.
\<close>

definition wf_store :: "store \<Rightarrow> bool" where
  "wf_store st \<longleftrightarrow>
     distinct (map fst (todos st)) \<and> (\<forall>i \<in> set (map fst (todos st)). i < next_oid st)
     \<and> dom (todo_files st) \<subseteq> set (map fst (todos st))
     \<and> uncategorized \<in> categories st \<and> finite (categories st)
     \<and> (\<forall>p \<in> set (todos st). category (snd p) \<noteq> [])"

definition cats_ok :: "store \<Rightarrow> bool" where
  "cats_ok st \<longleftrightarrow> (\<forall>p \<in> set (todos st). category (snd p) \<in> categories st)"

text \<open>A store with a new item and an item read from \<open>work.md\<close>, for the witnesses.\<close>

abbreviation example_store :: store where
  "example_store \<equiv>
     \<lparr>todos = [(0, \<lparr>todo_text = ''buy milk'', todo_done = False, category = ''home''\<rparr>),
               (1, \<lparr>todo_text = ''ship it'', todo_done = True, category = uncategorized\<rparr>)],
      todo_files = [1 \<mapsto> ''work.md''], categories = {uncategorized, ''home''}, next_oid = 2\<rparr>"

section \<open>Object creation and loading\<close>

lemma append_new_fields [simp]:
  "fst (append_new it st) = next_oid st"
  "todos (snd (append_new it st)) = todos st @ [(next_oid st, it)]"
  "todo_files (snd (append_new it st)) = todo_files st"
  "categories (snd (append_new it st)) = categories st"
  "next_oid (snd (append_new it st)) = Suc (next_oid st)"
  by (simp_all add: append_new_def)

lemma wf_append_new:
  "wf_store st \<Longrightarrow> category it \<noteq> [] \<Longrightarrow> wf_store (snd (append_new it st))"
  unfolding wf_store_def by (auto simp: append_new_def)

lemma load_line_eq:
  "load_line n st l =
     (case parse_line l of
        None \<Rightarrow> st
      | Some g \<Rightarrow> (snd (append_new (item_of_groups g)
                    (st\<lparr>categories := insert (category (item_of_groups g)) (categories st)\<rparr>)))
                  \<lparr>todo_files := (todo_files st)(next_oid st \<mapsto> n)\<rparr>)"
  by (auto simp: append_new_def mk_todo_item_def Let_def split: option.splits prod.splits)

lemma load_line_wf:
  assumes "wf_store st" "cats_ok st"
  shows "wf_store (load_line n st l) \<and> cats_ok (load_line n st l)"
  using assms unfolding load_line_eq wf_store_def cats_ok_def
  by (auto simp: append_new_def mk_todo_item_def split: option.splits)

lemma foldl_load_line_wf:
  "wf_store st \<Longrightarrow> cats_ok st \<Longrightarrow>
   wf_store (foldl (load_line n) st ls) \<and> cats_ok (foldl (load_line n) st ls)"
  by (induction ls arbitrary: st) (simp_all add: load_line_wf del: load_line.simps)

lemma load_files_wf:
  "load_files d st = Inr st' \<Longrightarrow> wf_store st \<Longrightarrow> cats_ok st \<Longrightarrow> wf_store st' \<and> cats_ok st'"
  by (induction d st rule: load_files.induct)
     (auto split: if_splits option.splits dest: foldl_load_line_wf simp del: load_line.simps)

lemma load_todos_wf:
  "wf_store st \<Longrightarrow> load_todos st d = Inr st' \<Longrightarrow> wf_store st' \<and> cats_ok st'"
  unfolding load_todos_def
  by (erule load_files_wf) (auto simp: wf_store_def cats_ok_def)

text \<open>Objects made by a load get identities from \<open>next_oid\<close> upwards: none of them is an
  object of the store before the load.\<close>

lemma load_line_fresh:
  "\<forall>j \<in> fst ` set (todos st). n \<le> j \<Longrightarrow> n \<le> next_oid st \<Longrightarrow>
   (\<forall>j \<in> fst ` set (todos (load_line f st l)). n \<le> j) \<and> n \<le> next_oid (load_line f st l)"
  by (auto simp: load_line_eq append_new_def split: option.splits simp del: load_line.simps)

lemma foldl_load_line_fresh:
  "\<forall>j \<in> fst ` set (todos st). n \<le> j \<Longrightarrow> n \<le> next_oid st \<Longrightarrow>
   (\<forall>j \<in> fst ` set (todos (foldl (load_line f) st ls)). n \<le> j) \<and> n \<le> next_oid (foldl (load_line f) st ls)"
proof (induction ls arbitrary: st)
  case (Cons l ls)
  from load_line_fresh [OF Cons.prems, of f l] show ?case
    unfolding foldl_Cons by (intro Cons.IH) blast+
qed simp

lemma load_files_fresh:
  "load_files d st = Inr st' \<Longrightarrow> \<forall>j \<in> fst ` set (todos st). n \<le> j \<Longrightarrow> n \<le> next_oid st \<Longrightarrow>
   \<forall>j \<in> fst ` set (todos st'). n \<le> j"
proof (induction d st rule: load_files.induct)
  case (2 name content es st)
  show ?case
  proof (cases "glob_md name")
    case True
    with "2.prems"(1) obtain raw where c: "content = Some raw"
      and l: "load_files es (foldl (load_line name) st (py_splitlines (translate_newlines raw))) = Inr st'"
      by (cases content) (simp_all del: load_line.simps)
    from foldl_load_line_fresh [OF "2.prems"(2,3)] show ?thesis
      by (intro "2.IH"(1) [OF True c l]) blast+
  next
    case False
    with "2.prems"(1) have "load_files es st = Inr st'" by simp
    from "2.IH"(2) [OF False this "2.prems"(2,3)] show ?thesis .
  qed
qed simp

lemma load_todos_fresh:
  "load_todos st d = Inr st' \<Longrightarrow> j \<in> fst ` set (todos st') \<Longrightarrow> next_oid st \<le> j"
  unfolding load_todos_def by (drule load_files_fresh [where n = "next_oid st"]) auto

lemma foldl_load_line:
  "map snd (todos (foldl (load_line n) st ls)) = map snd (todos st) @ map item_of_groups (List.map_filter parse_line ls)
   \<and> categories (foldl (load_line n) st ls)
       = categories st \<union> category ` set (map item_of_groups (List.map_filter parse_line ls))
   \<and> next_oid st \<le> next_oid (foldl (load_line n) st ls)"
proof (induction ls arbitrary: st)
  case Nil
  then show ?case by simp
next
  case (Cons l ls)
  from Cons.IH [of "load_line n st l"] show ?case
    by (auto simp: load_line_eq append_new_def split: option.splits simp del: load_line.simps)
qed

lemma load_files_items:
  "map_sum id (\<lambda>s. map snd (todos s)) (load_files d st)
   = map_sum id (\<lambda>its. map snd (todos st) @ its) (disk_items d)"
proof (induction d st rule: load_files.induct)
  case (1 st)
  then show ?case by simp
next
  case (2 name content es st)
  show ?case
  proof (cases "glob_md name")
    case False
    with "2.IH"(2) show ?thesis by simp
  next
    case True
    show ?thesis
    proof (cases content)
      case None
      with True show ?thesis by simp
    next
      case (Some raw)
      let ?st1 = "foldl (load_line name) st (py_splitlines (translate_newlines raw))"
      have st1: "map snd (todos ?st1) = map snd (todos st) @ parse_content (translate_newlines raw)"
        using foldl_load_line [of name st] by (simp add: parse_content_def)
      have "map_sum id (\<lambda>s. map snd (todos s)) (load_files es ?st1)
            = map_sum id (\<lambda>its. map snd (todos ?st1) @ its) (disk_items es)"
        using "2.IH"(1) True Some by (simp add: id_def)
      with True Some st1 show ?thesis
        by (cases "disk_items es") (simp_all add: id_def del: load_line.simps)
    qed
  qed
qed

lemma load_files_categories:
  "load_files d st = Inr st' \<Longrightarrow> categories st \<subseteq> categories st' \<and> next_oid st \<le> next_oid st'"
proof (induction d st rule: load_files.induct)
  case (2 name content es st)
  show ?case
  proof (cases "glob_md name")
    case False
    with "2.IH"(2) "2.prems" show ?thesis by simp
  next
    case True
    with "2.prems" obtain raw where c: "content = Some raw"
      and r: "load_files es (foldl (load_line name) st (py_splitlines (translate_newlines raw))) = Inr st'"
      by (auto split: option.splits simp del: load_line.simps)
    from "2.IH"(1) [OF True c r] foldl_load_line [of name st "py_splitlines (translate_newlines raw)"]
    show ?thesis by auto
  qed
qed simp

text \<open>
  C8. \<open>load_todos\<close> implements the abstract reader \<open>disk_items\<close>: the item values
  it loads, or the error it raises, are exactly those of the listed files.
\<close>

theorem load_todos_refines:
  "map_sum id (\<lambda>s. map snd (todos s)) (load_todos st d) = disk_items d"
  using load_files_items [of d "st\<lparr>todos := [], todo_files := Map.empty\<rparr>"]
  by (simp add: load_todos_def id_def sum.map_ident)

section \<open>Saving\<close>

lemma add_to_group_mset:
  "mset (concat (map snd (add_to_group k x g))) = mset (concat (map snd g)) + {#x#}"
  by (induction k x g rule: add_to_group.induct) auto

lemma add_to_group_keys:
  "fst ` set (add_to_group k x g) = insert k (fst ` set g)"
  by (induction k x g rule: add_to_group.induct) auto

lemma add_to_group_distinct:
  "distinct (map fst g) \<Longrightarrow> distinct (map fst (add_to_group k x g))"
  by (induction k x g rule: add_to_group.induct) (auto simp: add_to_group_keys)

lemma group_by_file_step:
  "group_by_file ((i, it) # ts) files g =
     (let f = (case files i of Some f \<Rightarrow> if f \<noteq> [] then f else category it @ ''.md''
                            | None \<Rightarrow> category it @ ''.md'')
      in group_by_file ts (files(i \<mapsto> f)) (add_to_group f it g))"
  by (auto split: option.splits simp: fun_upd_idem Let_def)

lemma group_by_file_keeps:
  "group_by_file ts files g = (F, G) \<Longrightarrow> files i = Some f \<Longrightarrow> f \<noteq> [] \<Longrightarrow> F i = Some f"
proof (induction ts arbitrary: files g)
  case (Cons p ts)
  obtain j it where p: "p = (j, it)" by (cases p)
  define fj where "fj = (case files j of Some f \<Rightarrow> if f \<noteq> [] then f else category it @ ''.md''
                                   | None \<Rightarrow> category it @ ''.md'')"
  have r: "group_by_file ts (files(j \<mapsto> fj)) (add_to_group fj it g) = (F, G)"
    using Cons.prems(1) by (simp only: p group_by_file_step Let_def fj_def)
  have "(files(j \<mapsto> fj)) i = Some f"
    using Cons.prems(2,3) by (auto simp: fj_def)
  then show ?case by (rule Cons.IH [OF r _ Cons.prems(3)])
qed simp

lemma group_by_file_groups:
  "group_by_file ts files g = (F, G) \<Longrightarrow>
   mset (concat (map snd G)) = mset (concat (map snd g)) + mset (map snd ts)
   \<and> (distinct (map fst g) \<longrightarrow> distinct (map fst G))
   \<and> dom F = dom files \<union> set (map fst ts)"
proof (induction ts arbitrary: files g)
  case (Cons p ts)
  obtain j it where p: "p = (j, it)" by (cases p)
  define fj where "fj = (case files j of Some f \<Rightarrow> if f \<noteq> [] then f else category it @ ''.md''
                                   | None \<Rightarrow> category it @ ''.md'')"
  have r: "group_by_file ts (files(j \<mapsto> fj)) (add_to_group fj it g) = (F, G)"
    using Cons.prems(1) by (simp only: p group_by_file_step Let_def fj_def)
  note IH = Cons.IH [OF r]
  have "mset (concat (map snd G)) = mset (concat (map snd g)) + mset (map snd (p # ts))"
    using IH by (simp add: p add_to_group_mset)
  moreover have "distinct (map fst g) \<longrightarrow> distinct (map fst G)"
    using IH add_to_group_distinct [of g fj it] by simp
  moreover have "dom F = dom files \<union> set (map fst (p # ts))"
    using IH [THEN conjunct2, THEN conjunct2] by (auto simp: p dom_def split: if_splits)
  ultimately show ?case by blast
qed simp

lemma write_file_mset:
  "distinct (map fst d) \<Longrightarrow>
   mset (write_file d (n, c)) = filter_mset (\<lambda>e. fst e \<noteq> n) (mset d) + {#(n, Some c)#}
   \<and> distinct (map fst (write_file d (n, c)))
   \<and> fst ` set (write_file d (n, c)) = insert n (fst ` set d)"
proof (induction d)
  case (Cons e d)
  obtain n' c' where e: "e = (n', c')" by fastforce
  show ?case
  proof (cases "n' = n")
    case True
    have "filter_mset (\<lambda>e. fst e \<noteq> n) (mset d) = mset d"
      using Cons.prems True e by (auto simp: filter_mset_eq_conv)
    with True e Cons.prems show ?thesis by auto
  next
    case False
    with Cons e show ?thesis by auto
  qed
qed simp

lemma apply_writes_mset:
  "distinct (map fst d) \<Longrightarrow> distinct (map fst ws) \<Longrightarrow>
   mset (apply_writes d ws)
   = filter_mset (\<lambda>e. fst e \<notin> fst ` set ws) (mset d) + mset (map (\<lambda>(n, c). (n, Some c)) ws)"
proof (induction ws arbitrary: d)
  case Nil
  then show ?case by (simp add: apply_writes_def)
next
  case (Cons w ws)
  obtain n c where w: "w = (n, c)" by fastforce
  note wf = write_file_mset [OF Cons.prems(1), of n c]
  have IH: "mset (apply_writes (write_file d (n, c)) ws)
      = filter_mset (\<lambda>e. fst e \<notin> fst ` set ws) (mset (write_file d (n, c)))
        + mset (map (\<lambda>(n, c). (n, Some c)) ws)"
    using Cons.IH wf Cons.prems(2) by simp
  have "n \<notin> fst ` set ws" using Cons.prems(2) w by simp
  then show ?case using IH wf w
    by (simp add: apply_writes_def filter_filter_mset conj_commute)
qed

section \<open>Saving then loading\<close>

lemma disk_items_readable:
  "\<forall>e \<in> set d. glob_md (fst e) \<longrightarrow> snd e \<noteq> None \<Longrightarrow>
   disk_items d = Inr (concat (map (\<lambda>e. parse_content (translate_newlines (the (snd e))))
                                  (filter (\<lambda>e. glob_md (fst e)) d)))"
  by (induction d rule: disk_items.induct) auto

lemma mset_concat_map: "mset (concat (map f xs)) = (\<Sum>x \<in># mset xs. mset (f x))"
  by (induction xs) auto

lemma mset_parse_file_text:
  "\<forall>it \<in> set its. line_safe it \<Longrightarrow> \<forall>x \<in> set f. \<not> is_linebreak x \<Longrightarrow>
   mset (parse_content (translate_newlines (file_text f its))) = mset its"
  by (simp add: parse_content_translate parse_content_file_text)

lemma save_written_files:
  assumes save: "save_todos st = (ws, st1)"
    and names: "\<forall>w \<in> set ws. glob_md (fst w) \<and> list_all (\<lambda>x. \<not> is_linebreak x) (fst w)"
    and stale: "\<forall>e \<in> set d. glob_md (fst e) \<longrightarrow> fst e \<in> fst ` set ws"
    and dist: "distinct (map fst d)"
  shows "mset (filter (\<lambda>e. glob_md (fst e)) (apply_writes d ws)) = mset (map (\<lambda>(n, c). (n, Some c)) ws)"
proof -
  obtain F G where g: "group_by_file (todos st) (todo_files st) [] = (F, G)" by fastforce
  have ws: "ws = map (\<lambda>(f, its). (f, file_text f its)) G"
    using save g by (simp add: save_todos_def)
  have dws: "distinct (map fst ws)" using group_by_file_groups [OF g] by (simp add: ws case_prod_beta o_def)
  define P where "P = (\<lambda>e :: string \<times> string option. glob_md (fst e))"
  have "filter_mset (\<lambda>e. P e \<and> fst e \<notin> fst ` set ws) (mset d) = {#}"
    using stale by (auto simp: P_def filter_mset_eq_conv)
  moreover have "filter_mset P (mset (map (\<lambda>(n, c). (n, Some c)) ws)) = mset (map (\<lambda>(n, c). (n, Some c)) ws)"
    using names by (auto simp: P_def filter_mset_eq_conv)
  ultimately have "mset (filter P (apply_writes d ws)) = mset (map (\<lambda>(n, c). (n, Some c)) ws)"
    using apply_writes_mset [OF dist dws] by (simp add: filter_filter_mset conj_commute)
  then show ?thesis by (simp add: P_def)
qed

lemma save_load_items:
  assumes save: "save_todos st = (ws, st1)"
    and safe: "\<forall>p \<in> set (todos st). line_safe (snd p)"
    and names: "\<forall>w \<in> set ws. glob_md (fst w) \<and> list_all (\<lambda>x. \<not> is_linebreak x) (fst w)"
    and stale: "\<forall>e \<in> set d. glob_md (fst e) \<longrightarrow> fst e \<in> fst ` set ws"
    and dist: "distinct (map fst d)"
  shows "\<exists>st2. load_todos st1 (apply_writes d ws) = Inr st2
               \<and> mset (map snd (todos st2)) = mset (map snd (todos st))"
proof -
  obtain F G where g: "group_by_file (todos st) (todo_files st) [] = (F, G)" by fastforce
  have ws: "ws = map (\<lambda>(f, its). (f, file_text f its)) G"
    using save g by (simp add: save_todos_def)
  have cG: "mset (concat (map snd G)) = mset (map snd (todos st))" using group_by_file_groups [OF g] by simp
  define P where "P = (\<lambda>e :: string \<times> string option. glob_md (fst e))"
  define d' where "d' = apply_writes d ws"
  have md: "mset (filter P d') = mset (map (\<lambda>(n, c). (n, Some c)) ws)"
    using save_written_files [OF save names stale dist] by (simp add: P_def d'_def)
  have readable: "\<forall>e \<in> set d'. glob_md (fst e) \<longrightarrow> snd e \<noteq> None"
  proof (intro ballI impI)
    fix e assume "e \<in> set d'" "glob_md (fst e)"
    then have "e \<in># mset (filter P d')" by (simp add: P_def)
    then show "snd e \<noteq> None" unfolding md by auto
  qed
  define h where "h = (\<lambda>e :: string \<times> string option. parse_content (translate_newlines (the (snd e))))"
  have items: "disk_items d' = Inr (concat (map h (filter P d')))"
    using disk_items_readable [OF readable] by (simp add: h_def P_def)
  have group_ok: "mset (h (f, Some (file_text f its))) = mset its" if "(f, its) \<in> set G" for f its
  proof -
    have "set its \<subseteq> set (concat (map snd G))" using that by force
    moreover have "set (concat (map snd G)) = set (map snd (todos st))"
      using cG by (metis set_mset_mset)
    ultimately have "set its \<subseteq> set (map snd (todos st))" by simp
    then have "\<forall>it \<in> set its. line_safe it" using safe by auto
    moreover have "\<forall>x \<in> set f. \<not> is_linebreak x"
      using names that by (auto simp: ws list_all_iff)
    ultimately show ?thesis by (simp add: h_def mset_parse_file_text)
  qed
  have "mset (concat (map h (filter P d'))) = (\<Sum>e \<in># mset (filter P d'). mset (h e))"
    by (rule mset_concat_map)
  also have "\<dots> = (\<Sum>x \<in># mset G. mset (h (fst x, Some (file_text (fst x) (snd x)))))"
    unfolding md ws by (simp add: image_mset.compositionality o_def case_prod_beta)
  also have "\<dots> = (\<Sum>x \<in># mset G. mset (snd x))"
    using group_ok by (intro arg_cong [where f = sum_mset] image_mset_cong) auto
  also have "\<dots> = mset (map snd (todos st))"
    using cG by (simp add: mset_concat_map)
  finally have perm: "mset (concat (map h (filter P d'))) = mset (map snd (todos st))" .
  have "map_sum id (\<lambda>s. map snd (todos s)) (load_todos st1 d') = Inr (concat (map h (filter P d')))"
    using load_files_items [of d' "st1\<lparr>todos := [], todo_files := Map.empty\<rparr>"] items
    by (simp add: load_todos_def)
  then obtain st2 where l: "load_todos st1 d' = Inr st2"
    and m: "map snd (todos st2) = concat (map h (filter P d'))"
    by (cases "load_todos st1 d'") auto
  have "mset (map snd (todos st2)) = mset (map snd (todos st))" by (simp only: m perm)
  with l show ?thesis unfolding d'_def by blast
qed

lemma write_place_plain: "plain_name n \<Longrightarrow> write_place n = In_todo n"
  by (cases n) (auto simp: plain_name_def write_place_def rel_place.simps)

lemma save_writes_plain:
  "\<forall>w \<in> set ws. plain_name (fst w) \<Longrightarrow> save_writes d ws = Inr (apply_writes d ws)"
  by (induction ws arbitrary: d) (auto simp: apply_writes_def write_place_plain)

lemma save_writes_error:
  "save_writes d ws = Inl e \<Longrightarrow> \<exists>n. e = WriteError n \<and> \<not> plain_name n"
proof (induction ws arbitrary: d)
  case (Cons w ws)
  obtain n c where w: "w = (n, c)" by fastforce
  show ?case
  proof (cases "write_place n")
    case Open_fails
    then have "\<not> plain_name n" using write_place_plain [of n] by auto
    with Cons.prems w Open_fails show ?thesis by auto
  qed (use Cons w in auto)
qed simp

lemma glob_md_plain: "glob_md n \<Longrightarrow> CHR ''/'' \<notin> set n \<Longrightarrow> plain_name n"
  by (auto simp: glob_md_def plain_name_def)

text \<open>
  C5. Saving and then loading gives back the same items (as a multiset of text, done
  flag and category) when every item line is safe, every written file is one \<open>glob\<close>
  lists in \<open>todo/\<close> (a \<open>*.md\<close> name without \<open>/\<close> or line break), and
  every \<open>*.md\<close> file on the disk is one the save rewrites: the writes succeed and the
  reload reads the items back.
\<close>

theorem save_load_roundtrip:
  assumes save: "save_todos st = (ws, st1)"
    and safe: "\<forall>p \<in> set (todos st). line_safe (snd p)"
    and names: "\<forall>w \<in> set ws. glob_md (fst w) \<and> CHR ''/'' \<notin> set (fst w) \<and> list_all (\<lambda>x. \<not> is_linebreak x) (fst w)"
    and stale: "\<forall>e \<in> set d. glob_md (fst e) \<longrightarrow> fst e \<in> fst ` set ws"
    and dist: "distinct (map fst d)"
  shows "\<exists>d' st2. save_writes d ws = Inr d' \<and> load_todos st1 d' = Inr st2
               \<and> mset (map snd (todos st2)) = mset (map snd (todos st))"
proof -
  have "save_writes d ws = Inr (apply_writes d ws)"
    using names by (intro save_writes_plain) (auto intro: glob_md_plain)
  moreover have "\<forall>w \<in> set ws. glob_md (fst w) \<and> list_all (\<lambda>x. \<not> is_linebreak x) (fst w)"
    using names by blast
  ultimately show ?thesis using save_load_items [OF save safe _ stale dist] by blast
qed

section \<open>The other operations keep the invariants\<close>

lemma add_todo_eq:
  "add_todo txt cat st =
     (next_oid st, st\<lparr>categories := insert (if cat = [] then uncategorized else cat) (categories st),
                      todos := todos st @ [(next_oid st, mk_todo_item txt False cat)],
                      next_oid := Suc (next_oid st)\<rparr>)"
  by (simp add: add_todo_def append_new_def mk_todo_item_def Let_def)

lemma add_todo_wf:
  "wf_store st \<Longrightarrow> wf_store (snd (add_todo txt cat st))"
  "cats_ok st \<Longrightarrow> cats_ok (snd (add_todo txt cat st))"
  by (auto simp: add_todo_eq wf_store_def cats_ok_def mk_todo_item_def)

lemma remove_oid_set: "set (remove_oid i xs) \<subseteq> set xs"
  by (induction xs) auto

lemma remove_oid_distinct:
  "distinct (map fst xs) \<Longrightarrow> set (map fst (remove_oid i xs)) = set (map fst xs) - {i}
   \<and> distinct (map fst (remove_oid i xs))"
  by (induction xs) (auto dest: subsetD [OF remove_oid_set] simp: image_iff)

lemma delete_todo_wf:
  "wf_store st \<Longrightarrow> wf_store (delete_todo i st)"
  "cats_ok st \<Longrightarrow> cats_ok (delete_todo i st)"
  "categories (delete_todo i st) = categories st"
  unfolding wf_store_def cats_ok_def delete_todo_def
  using remove_oid_distinct [of "todos st" i] remove_oid_set [of i "todos st"]
  by (auto simp: dom_def)

lemma save_todos_wf:
  "wf_store st \<Longrightarrow>
   wf_store (snd (save_todos st))
   \<and> todos (snd (save_todos st)) = todos st \<and> categories (snd (save_todos st)) = categories st"
proof -
  assume w: "wf_store st"
  obtain F G where g: "group_by_file (todos st) (todo_files st) [] = (F, G)" by fastforce
  from group_by_file_groups [OF g] w have "dom F \<subseteq> set (map fst (todos st))"
    by (auto simp: wf_store_def)
  with w g show ?thesis by (auto simp: save_todos_def wf_store_def)
qed

lemma update_item_todos_fst [simp]:
  "map fst (todos (update_item i f st)) = map fst (todos st)"
proof -
  have "map fst (map (\<lambda>(j, it). if j = i then (j, f it) else (j, it)) xs) = map fst xs" for xs :: "(oid \<times> todo_item) list"
    by (induction xs) auto
  then show ?thesis by (simp add: update_item_def)
qed

lemma update_item_wf:
  "wf_store st \<Longrightarrow> (\<And>it. category it \<noteq> [] \<Longrightarrow> category (f it) \<noteq> []) \<Longrightarrow> wf_store (update_item i f st)"
proof -
  assume w: "wf_store st" and f: "\<And>it. category it \<noteq> [] \<Longrightarrow> category (f it) \<noteq> []"
  have "set (map fst (todos (update_item i f st))) = set (map fst (todos st))"
    "distinct (map fst (todos (update_item i f st))) = distinct (map fst (todos st))"
    by (simp_all only: update_item_todos_fst)
  moreover have "\<forall>p \<in> set (todos (update_item i f st)). category (snd p) \<noteq> []"
    using w f by (fastforce simp: wf_store_def update_item_def split: if_splits)
  ultimately show ?thesis using w
    by (simp add: wf_store_def) (simp add: update_item_def)
qed

lemma update_item_cats_ok:
  "cats_ok st \<Longrightarrow> (\<And>it. category (f it) = category it) \<Longrightarrow> cats_ok (update_item i f st)"
  by (auto simp: cats_ok_def update_item_def)

lemma update_item_categories [simp]: "categories (update_item i f st) = categories st"
  by (simp add: update_item_def)

lemma update_item_by_category:
  "(\<And>it. category (f it) = category it) \<Longrightarrow>
   map fst (get_todos_by_category c (update_item i f st)) = map fst (get_todos_by_category c st)"
proof -
  assume f: "\<And>it. category (f it) = category it"
  have "map fst (filter (\<lambda>(_, it). category it = c) (map (\<lambda>(j, it). if j = i then (j, f it) else (j, it)) xs))
        = map fst (filter (\<lambda>(_, it). category it = c) xs)" for xs :: "(oid \<times> todo_item) list"
    by (induction xs) (auto simp: f split: if_splits)
  then show ?thesis by (simp add: get_todos_by_category_def update_item_def)
qed

lemma load_files_error_read: "load_files d st = Inl e \<Longrightarrow> \<exists>n. e = ReadError n"
  by (induction d st rule: load_files.induct) (auto split: if_splits option.splits simp del: load_line.simps)

lemma load_todos_categories:
  "load_todos st d = Inr st' \<Longrightarrow> categories st \<subseteq> categories st'"
  unfolding load_todos_def by (drule load_files_categories) simp

lemma update_item_twice:
  "update_item i f (update_item i g st) = update_item i (f \<circ> g) st"
proof -
  have "(\<lambda>(j, it). if j = i then (j, f it) else (j, it)) \<circ> (\<lambda>(j, it). if j = i then (j, g it) else (j, it))
        = (\<lambda>(j, it). if j = i then (j, (f \<circ> g) it) else (j, it))"
    by (auto simp: fun_eq_iff)
  then show ?thesis by (simp add: update_item_def)
qed

lemma update_item_id: "update_item i id st = st"
proof -
  have "map (\<lambda>(j, it). if j = i then (j, id it) else (j, it)) xs = xs" for xs :: "(oid \<times> todo_item) list"
    by (induction xs) auto
  then show ?thesis by (simp add: update_item_def)
qed

lemma update_item_member:
  "(j, x) \<in> set (todos (update_item i f st)) \<Longrightarrow> j = i \<Longrightarrow> \<exists>y. x = f y"
  by (auto simp: update_item_def split: if_splits)

lemma update_item_member_of:
  "(i, y) \<in> set (todos st) \<Longrightarrow> (i, f y) \<in> set (todos (update_item i f st))"
  by (force simp: update_item_def)

lemma save_todos_categories: "categories (snd (save_todos st)) = categories st"
  by (simp add: save_todos_def split: prod.splits)

lemma remove_oid_absent: "i \<notin> fst ` set xs \<Longrightarrow> remove_oid i xs = xs"
  by (induction xs) auto

lemma group_by_file_new:
  "distinct (map fst ts) \<Longrightarrow> group_by_file ts files g = (F, G) \<Longrightarrow> (i, it) \<in> set ts \<Longrightarrow>
   files i = None \<or> files i = Some [] \<Longrightarrow> F i = Some (category it @ ''.md'')"
proof (induction ts arbitrary: files g)
  case (Cons p ts)
  obtain j it' where p: "p = (j, it')" by (cases p)
  define fj where "fj = (case files j of Some f \<Rightarrow> if f \<noteq> [] then f else category it' @ ''.md''
                                   | None \<Rightarrow> category it' @ ''.md'')"
  have r: "group_by_file ts (files(j \<mapsto> fj)) (add_to_group fj it' g) = (F, G)"
    using Cons.prems(2) by (simp only: p group_by_file_step Let_def fj_def)
  show ?case
  proof (cases "j = i")
    case True
    with Cons.prems(1,3) p have "it' = it" by (auto simp: image_iff)
    with True Cons.prems(4) have "fj = category it @ ''.md''" by (auto simp: fj_def)
    with group_by_file_keeps [OF r, of i] True show ?thesis by simp
  next
    case False
    with Cons.prems(3) p have "(i, it) \<in> set ts" by auto
    with Cons.IH [OF _ r] Cons.prems(1,4) False p show ?thesis by simp
  qed
qed simp

lemma load_files_error_prefix:
  "\<forall>e \<in> set d1. glob_md (fst e) \<longrightarrow> snd e \<noteq> None \<Longrightarrow> glob_md n \<Longrightarrow>
   load_files (d1 @ (n, None) # d2) st = Inl (ReadError n)"
proof (induction d1 arbitrary: st)
  case (Cons e d1)
  obtain m c where e: "e = (m, c)" by fastforce
  with Cons show ?case by (auto split: option.splits simp del: load_line.simps)
qed simp

section \<open>Which files a save writes, and read errors\<close>

lemma add_to_group_map:
  "distinct L \<Longrightarrow> add_to_group k x (map (\<lambda>f. (f, h f)) L) =
     (if k \<in> set L then map (\<lambda>f. (f, if f = k then h f @ [x] else h f)) L
      else map (\<lambda>f. (f, h f)) L @ [(k, [x])])"
  by (induction L) auto

lemma fold_add_to_group:
  "fold (\<lambda>p g. add_to_group (key p) (snd p) g) ts [] = file_groups key ts"
proof (induction ts rule: rev_induct)
  case (snoc x ts)
  have d: "distinct (rev (remdups (rev (map key ts))))" by simp
  show ?case
    using add_to_group_map [OF d, of "key x" "snd x" "\<lambda>f. map snd (filter (\<lambda>p. key p = f) ts)"]
    by (auto simp: snoc file_groups_def filter_empty_conv) (metis image_eqI)
qed (simp add: file_groups_def)

lemma group_by_file_fold:
  "group_by_file ts files g = (F, G) \<Longrightarrow>
   G = fold (\<lambda>p g. add_to_group (the (F (fst p))) (snd p) g) ts g"
proof (induction ts arbitrary: files g)
  case (Cons p ts)
  obtain j it where p: "p = (j, it)" by (cases p)
  define fj where "fj = (case files j of Some f \<Rightarrow> if f \<noteq> [] then f else category it @ ''.md''
                                   | None \<Rightarrow> category it @ ''.md'')"
  have r: "group_by_file ts (files(j \<mapsto> fj)) (add_to_group fj it g) = (F, G)"
    using Cons.prems by (simp only: p group_by_file_step Let_def fj_def)
  have "fj \<noteq> []" by (simp add: fj_def split: option.splits)
  then have "F j = Some fj" using group_by_file_keeps [OF r] by simp
  then show ?case using Cons.IH [OF r] by (simp add: p)
qed simp


lemma group_by_file_keys:
  "group_by_file ts files g = (F, G) \<Longrightarrow> fst ` set G = fst ` set g \<union> (\<lambda>p. the (F (fst p))) ` set ts"
proof (induction ts arbitrary: files g)
  case (Cons p ts)
  obtain j it where p: "p = (j, it)" by (cases p)
  define fj where "fj = (case files j of Some f \<Rightarrow> if f \<noteq> [] then f else category it @ ''.md''
                                   | None \<Rightarrow> category it @ ''.md'')"
  have r: "group_by_file ts (files(j \<mapsto> fj)) (add_to_group fj it g) = (F, G)"
    using Cons.prems(1) by (simp only: p group_by_file_step Let_def fj_def)
  have "fj \<noteq> []" by (auto simp: fj_def split: option.splits)
  then have "F j = Some fj" using group_by_file_keeps [OF r] by simp
  with Cons.IH [OF r] show ?case by (auto simp: p add_to_group_keys)
qed simp

text \<open>
  C22. What a save writes: exactly one file per file name of a remaining item (its
  recorded name, or \<open>"<category>.md"\<close> for a new item), and no other file. A file whose
  items were all deleted is left as it is on disk.
\<close>

theorem save_todos_writes:
  assumes "save_todos st = (ws, st')"
  shows "fst ` set ws = (\<lambda>p. the (todo_files st' (fst p))) ` set (todos st)
         \<and> (\<forall>p \<in> set (todos st). todo_files st' (fst p) \<noteq> None)"
proof -
  obtain F G where g: "group_by_file (todos st) (todo_files st) [] = (F, G)" by fastforce
  have ws: "ws = map (\<lambda>(f, its). (f, file_text f its)) G" and st': "todo_files st' = F"
    using assms g by (auto simp: save_todos_def)
  have "fst ` set ws = fst ` set G" by (force simp: ws)
  moreover have "dom F = dom (todo_files st) \<union> set (map fst (todos st))"
    using group_by_file_groups [OF g] by blast
  ultimately show ?thesis using group_by_file_keys [OF g] st' by auto
qed

text \<open>
  C23. There is no \<open>try\<close> around reading a file: the first unreadable \<open>*.md\<close> file
  aborts the whole load with its error, whatever files follow it.
\<close>

theorem load_todos_read_error:
  "\<forall>e \<in> set d1. glob_md (fst e) \<longrightarrow> snd e \<noteq> None \<Longrightarrow> glob_md n \<Longrightarrow>
   load_todos st (d1 @ (n, None) # d2) = Inl (ReadError n)"
  unfolding load_todos_def by (rule load_files_error_prefix)

lemma disk_items_rename:
  "\<forall>e \<in> set d. glob_md (g (fst e)) = glob_md (fst e) \<Longrightarrow>
   map_sum (\<lambda>_. ()) id (disk_items (map (\<lambda>(n, c). (g n, c)) d)) = map_sum (\<lambda>_. ()) id (disk_items d)"
proof (induction d rule: disk_items.induct)
  case (2 name content es)
  then show ?case
    by (cases content; cases "disk_items (map (\<lambda>(n, c). (g n, c)) es)"; cases "disk_items es") auto
qed simp

text \<open>
  C31. The items a load gives do not depend on the names of the files: renaming the
  \<open>*.md\<close> files of \<open>todo/\<close> gives the same items, in the same order, with the same
  categories (or the same kind of failure). The category of a loaded item comes from its
  \<open>#tag\<close> alone, never from the file it is in: \<open>work.md\<close> holding
  \<open>- [ ] write report\<close> loads what any other file holding that line loads.
\<close>

theorem load_ignores_file_names:
  "\<forall>e \<in> set d. glob_md (g (fst e)) = glob_md (fst e) \<Longrightarrow>
   map_sum (\<lambda>_. ()) (\<lambda>s. map snd (todos s)) (load_todos st (map (\<lambda>(n, c). (g n, c)) d))
   = map_sum (\<lambda>_. ()) (\<lambda>s. map snd (todos s)) (load_todos st d)"
proof -
  assume h: "\<forall>e \<in> set d. glob_md (g (fst e)) = glob_md (fst e)"
  have m: "map_sum (\<lambda>_. ()) (\<lambda>s. map snd (todos s)) (load_todos st d') = map_sum (\<lambda>_. ()) id (disk_items d')" for d'
    using arg_cong [OF load_files_items [of d' "st\<lparr>todos := [], todo_files := Map.empty\<rparr>"], of "map_sum (\<lambda>_. ()) id"]
    by (simp add: load_todos_def sum.map_comp o_def id_def)
  show ?thesis unfolding m using disk_items_rename [OF h] .
qed

text \<open>
  C19. The file names after a save: every item has one; a non-empty recorded name is
  kept; an item without one (or with the empty name) is given \<open>"<category>.md"\<close>,
  the spec's origin of a new item after its first save.
\<close>

theorem save_todos_origin:
  "wf_store st \<Longrightarrow> save_todos st = (ws, st') \<Longrightarrow>
   dom (todo_files st') = fst ` set (todos st)
   \<and> (\<forall>i f. todo_files st i = Some f \<longrightarrow> f \<noteq> [] \<longrightarrow> todo_files st' i = Some f)
   \<and> (\<forall>i it. (i, it) \<in> set (todos st) \<longrightarrow> todo_files st i \<in> {None, Some []}
          \<longrightarrow> todo_files st' i = Some (category it @ ''.md''))"
proof -
  assume w: "wf_store st" and s: "save_todos st = (ws, st')"
  obtain F G where g: "group_by_file (todos st) (todo_files st) [] = (F, G)" by fastforce
  with s have F: "todo_files st' = F" by (auto simp: save_todos_def)
  have d: "distinct (map fst (todos st))" and dom: "dom (todo_files st) \<subseteq> set (map fst (todos st))"
    using w by (simp_all add: wf_store_def)
  have "dom F = fst ` set (todos st)"
    using group_by_file_groups [OF g] dom by auto
  moreover have "\<forall>i f. todo_files st i = Some f \<longrightarrow> f \<noteq> [] \<longrightarrow> F i = Some f"
    using group_by_file_keeps [OF g] by blast
  moreover have "\<forall>i it. (i, it) \<in> set (todos st) \<longrightarrow> todo_files st i \<in> {None, Some []}
          \<longrightarrow> F i = Some (category it @ ''.md'')"
    using group_by_file_new [OF d g] by blast
  ultimately show ?thesis by (simp add: F)
qed

text \<open>
  C20. The grouping of \<open>save_todos\<close> (a dictionary filled by appending) equals the
  reference grouping: one write per distinct file name, in the order in which the names
  first occur in \<open>todos\<close>, each file holding its items in list order.
\<close>

theorem save_todos_grouping:
  "fst (save_todos st) =
   map (\<lambda>(f, its). (f, file_text f its))
     (file_groups (\<lambda>p. the (todo_files (snd (save_todos st)) (fst p))) (todos st))"
proof -
  obtain F G where g: "group_by_file (todos st) (todo_files st) [] = (F, G)" by fastforce
  have "G = file_groups (\<lambda>p. the (F (fst p))) (todos st)"
    using group_by_file_fold [OF g] by (simp add: fold_add_to_group)
  then show ?thesis by (simp add: save_todos_def g)
qed

theorem load_todos_read_error_witness:
  "load_todos example_store [(''a.md'', Some ''- [ ] x''), (''b.md'', None), (''c.md'', Some [])]
   = Inl (ReadError ''b.md'')"
proof -
  have h: "\<forall>e \<in> set [(''a.md'', Some ''- [ ] x'')]. glob_md (fst e) \<longrightarrow> snd e \<noteq> None"
    "glob_md ''b.md''" by (simp_all add: glob_md_def)
  show ?thesis using load_todos_read_error [OF h, of example_store "[(''c.md'', Some [])]"] by simp
qed

theorem save_todos_writes_witness:
  "fst ` set (fst (save_todos example_store)) = {''home.md'', ''work.md''}"
proof -
  have "fst ` set (fst (save_todos example_store))
        = (\<lambda>p. the (todo_files (snd (save_todos example_store)) (fst p))) ` set (todos example_store)"
    using save_todos_writes [of example_store "fst (save_todos example_store)" "snd (save_todos example_store)"]
    by simp
  also have "\<dots> = {''home.md'', ''work.md''}" by code_simp
  finally show ?thesis .
qed

theorem save_load_roundtrip_witness:
  "\<exists>d' st2. save_writes [] (fst (save_todos example_store)) = Inr d'
         \<and> load_todos (snd (save_todos example_store)) d' = Inr st2
         \<and> mset (map snd (todos st2)) = mset (map snd (todos example_store))"
proof (rule save_load_roundtrip)
  show "save_todos example_store = (fst (save_todos example_store), snd (save_todos example_store))" by simp
  show "\<forall>p \<in> set (todos example_store). line_safe (snd p)" by code_simp
  show "\<forall>w \<in> set (fst (save_todos example_store)).
          glob_md (fst w) \<and> CHR ''/'' \<notin> set (fst w) \<and> list_all (\<lambda>x. \<not> is_linebreak x) (fst w)"
    by code_simp
qed simp_all

theorem save_todos_origin_witness:
  "todo_files (snd (save_todos example_store)) 0 = Some ''home.md''"
proof -
  have w: "wf_store example_store" by (simp add: wf_store_def)
  obtain ws st' where s: "save_todos example_store = (ws, st')" by fastforce
  from save_todos_origin [OF w s] s show ?thesis by auto
qed

theorem load_ignores_file_names_witness:
  "map_sum (\<lambda>_. ()) (\<lambda>s. map snd (todos s)) (init_store [(''notes.md'', Some ''- [ ] write report'')])
   = map_sum (\<lambda>_. ()) (\<lambda>s. map snd (todos s)) (init_store [(''work.md'', Some ''- [ ] write report'')])"
proof -
  have h: "\<forall>e \<in> set [(''work.md'', Some ''- [ ] write report'')]. glob_md ((\<lambda>_. ''notes.md'') (fst e)) = glob_md (fst e)"
    by (simp add: glob_md_def)
  from load_ignores_file_names [OF h, of "\<lparr>todos = [], todo_files = Map.empty, categories = {uncategorized}, next_oid = 0\<rparr>"]
  show ?thesis by (simp add: init_store_def)
qed

end
