(* ===== verification/Widgets.thy ===== *)
theory Widgets
  imports Store
begin

text \<open>
  The markup that \<open>update_category_tabs\<close> and \<open>update_todo_list\<close>
  (\<open>src/mdtodo/mdtodo.py\<close>) put into the urwid widgets: the text of the category tabs
  (\<open>self.category_tabs.set_text(tabs)\<close>) and the rows of the todo list
  (\<open>self.todo_walker[:] = widgets\<close>). A piece of markup is a pair of a palette entry
  and a text; a row is the \<open>AttrMap\<close> style of the row with its markup. The check boxes
  U+2612 and U+2610 are outside the Latin-1 characters of \<open>string\<close> and are segments
  of their own. The lemmas count the highlighted tabs and rows.
\<close>

text \<open>The palette entries of \<open>init_ui\<close>; \<open>Plain\<close> is the empty attribute \<open>''\<close>
  and text without attribute.\<close>

datatype style =
    Header | Footer | Selected | Todo_style | Done_style | Category_style
  | Selected_category | Help_style | Plain

datatype segment = Text string | Checked_box | Unchecked_box

type_synonym row = "style \<times> (style \<times> segment) list"

definition tab_markup :: "string list \<Rightarrow> int \<Rightarrow> (style \<times> string) list" where
  "tab_markup cats cur =
     map (\<lambda>(i, c). (if int i = cur then Selected_category else Category_style, '' '' @ c @ '' ''))
       (enumerate 0 cats)"

definition todo_row :: "int \<Rightarrow> nat \<Rightarrow> todo_item \<Rightarrow> row" where
  "todo_row sel i it =
     (let style = (if todo_done it then Done_style else Todo_style);
          checkbox = (if todo_done it then Checked_box else Unchecked_box)
      in (if int i = sel then Selected else style,
          [(Plain, Text '' ''), (Plain, checkbox), (Plain, Text '' ''), (style, Text (todo_text it))]))"

text \<open>A key binding that is not a string is printed by Python as its JSON value, which
  the keymap model does not keep; it is shown here as the empty text.\<close>

definition key_text :: "string option \<Rightarrow> string" where
  "key_text k = (case k of Some s \<Rightarrow> s | None \<Rightarrow> [])"

definition no_categories_rows :: "row list" where
  "no_categories_rows = [(Plain, [(Plain, Text ''No categories found'')])]"

text \<open>The rows for the items of category \<open>c\<close>, or the message of an empty category.\<close>

definition todo_widgets :: "int \<Rightarrow> string \<Rightarrow> string option \<Rightarrow> (oid \<times> todo_item) list \<Rightarrow> row list" where
  "todo_widgets sel c add_key ts =
     (let widgets = map (\<lambda>(i, p). todo_row sel i (snd p)) (enumerate 0 ts)
      in if widgets = []
         then [(Plain, [(Plain, Text (''No todos in category '' @ [CHR 0x27] @ c @ [CHR 0x27]
                  @ ''. Press '' @ [CHR 0x27] @ key_text add_key @ [CHR 0x27] @ '' to add one.''))])]
         else widgets)"

lemma enumerate_snoc: "enumerate n (xs @ [x]) = enumerate n xs @ [(n + length xs, x)]"
  by (simp add: enumerate_append_eq)

lemma count_position:
  "length (filter (\<lambda>(i, x). int i = s) (enumerate 0 xs)) = (if 0 \<le> s \<and> s < int (length xs) then 1 else 0)"
  by (induction xs rule: rev_induct) (auto simp: enumerate_snoc)

lemma todo_row_selected: "(fst (todo_row sel i it) = Selected) = (int i = sel)"
  by (simp add: todo_row_def Let_def)

lemma rows_selected_count:
  "length (filter (\<lambda>r. fst r = Selected) (map (\<lambda>(i, p). todo_row sel i (snd p)) (enumerate 0 ts)))
   = (if 0 \<le> sel \<and> sel < int (length ts) then 1 else 0)"
proof -
  have "filter (\<lambda>r. fst r = Selected) (map (\<lambda>(i, p). todo_row sel i (snd p)) (enumerate 0 ts))
        = map (\<lambda>(i, p). todo_row sel i (snd p)) (filter (\<lambda>(i, p). int i = sel) (enumerate 0 ts))"
    by (simp add: filter_map comp_def case_prod_unfold todo_row_selected)
  then show ?thesis by (simp add: count_position)
qed

lemma tabs_selected_count:
  "length (filter (\<lambda>t. fst t = Selected_category) (tab_markup cats cur))
   = (if 0 \<le> cur \<and> cur < int (length cats) then 1 else 0)"
proof -
  have "filter (\<lambda>t. fst t = Selected_category) (tab_markup cats cur)
        = map (\<lambda>(i, c). (Selected_category, '' '' @ c @ '' '')) (filter (\<lambda>(i, c). int i = cur) (enumerate 0 cats))"
    by (simp add: tab_markup_def filter_map comp_def case_prod_unfold)
  then show ?thesis by (simp add: count_position)
qed

text \<open>The rows of a non-empty category: one highlighted row when the selection is in
  range, and it is the row at the selection.\<close>

lemma todo_widgets_selected:
  assumes "ts \<noteq> []" "0 \<le> sel" "sel < int (length ts)"
  shows "length (filter (\<lambda>r. fst r = Selected) (todo_widgets sel c k ts)) = 1
         \<and> fst (todo_widgets sel c k ts ! nat sel) = Selected"
proof -
  have ne: "map (\<lambda>(i, p). todo_row sel i (snd p)) (enumerate 0 ts) \<noteq> []"
    using assms(1) by (simp add: enumerate_eq_zip)
  have "length (filter (\<lambda>r. fst r = Selected) (todo_widgets sel c k ts)) = 1"
    using ne assms rows_selected_count [of sel ts] by (simp add: todo_widgets_def Let_def)
  moreover have "fst (todo_widgets sel c k ts ! nat sel) = Selected"
    using ne assms by (simp add: todo_widgets_def Let_def nth_enumerate_eq todo_row_selected)
  ultimately show ?thesis ..
qed

lemma todo_widgets_empty:
  "length (filter (\<lambda>r. fst r = Selected) (todo_widgets sel c k [])) = 0"
  by (simp add: todo_widgets_def)

end
