(* ===== verification/Keymap.thy ===== *)
theory Keymap
  imports Prelude
begin

text \<open>
  The keymap of \<open>TodoApp\<close> (\<open>src/mdtodo/mdtodo.py\<close>): the twelve actions, the
  built-in \<open>DEFAULT_KEYMAP\<close>, \<open>TodoApp.load_keymap\<close> over the state of the
  configuration file, and the order in which \<open>handle_input\<close> compares a key with the
  bindings (its \<open>if\<close>/\<open>elif\<close> chain). A binding is \<open>None\<close> when the
  configuration gives the action a JSON value that is not a string: no key token equals
  it.
\<close>

datatype action =
    Quit | Save | Reload | Add | Category_prev | Category_next
  | Move_up | Move_down | Toggle | Delete | Edit | Help

type_synonym keymap = "action \<Rightarrow> string option"

fun action_name :: "action \<Rightarrow> string" where
  "action_name Quit = ''quit''"
| "action_name Save = ''save''"
| "action_name Reload = ''reload''"
| "action_name Add = ''add''"
| "action_name Category_prev = ''category_prev''"
| "action_name Category_next = ''category_next''"
| "action_name Move_up = ''move_up''"
| "action_name Move_down = ''move_down''"
| "action_name Toggle = ''toggle''"
| "action_name Delete = ''delete''"
| "action_name Edit = ''edit''"
| "action_name Help = ''help''"

fun default_key :: "action \<Rightarrow> string" where
  "default_key Quit = ''q''"
| "default_key Add = ''a''"
| "default_key Edit = ''e''"
| "default_key Delete = ''d''"
| "default_key Toggle = ''space''"
| "default_key Save = ''w''"
| "default_key Move_up = ''k''"
| "default_key Move_down = ''j''"
| "default_key Category_prev = ''h''"
| "default_key Category_next = ''l''"
| "default_key Help = ''?''"
| "default_key Reload = ''r''"

definition default_keymap :: keymap where
  "default_keymap a = Some (default_key a)"

section \<open>load_keymap\<close>

datatype json = JStr string | JOther

text \<open>
  The configuration file: absent, not valid JSON, valid JSON that is not an object (the
  merge \<open>{**DEFAULT_KEYMAP, **custom}\<close> raises TypeError), or an object, as its
  key/value pairs in file order (\<open>json.load\<close> keeps the last of repeated keys).
\<close>

datatype config = NoConfig | Malformed | NotAnObject | ConfigObject "(string \<times> json) list"

text \<open>
  The result: the keymap, whether the \<open>except\<close> branch ran (it stores its message in
  \<open>self.footer_text\<close>), and whether the defaults are written to a new config file.
\<close>

fun load_keymap :: "config \<Rightarrow> keymap \<times> bool \<times> bool" where
  "load_keymap NoConfig = (default_keymap, False, True)"
| "load_keymap Malformed = (default_keymap, True, False)"
| "load_keymap NotAnObject = (default_keymap, True, False)"
| "load_keymap (ConfigObject kvs) =
     ((\<lambda>a. case map_of (rev kvs) (action_name a) of
             None \<Rightarrow> Some (default_key a)
           | Some (JStr k) \<Rightarrow> Some k
           | Some JOther \<Rightarrow> None), False, False)"

section \<open>Dispatch\<close>

text \<open>The order of the comparisons in \<open>handle_input\<close>; the first equal binding wins.\<close>

definition dispatch_order :: "action list" where
  "dispatch_order = [Quit, Save, Reload, Add, Category_prev, Category_next,
                     Move_up, Move_down, Toggle, Delete, Edit, Help]"

definition dispatch :: "keymap \<Rightarrow> string \<Rightarrow> action option" where
  "dispatch km k = find (\<lambda>a. km a = Some k) dispatch_order"

section \<open>Properties of dispatch\<close>

lemma find_Some_first:
  "find P xs = Some a \<Longrightarrow> P a \<and> a \<in> set xs \<and> (\<forall>b \<in> set (takeWhile (\<lambda>b. b \<noteq> a) xs). \<not> P b)"
  by (induction xs) (auto split: if_splits)

lemma dispatch_bound: "dispatch km k = Some a \<Longrightarrow> km a = Some k"
  using find_Some_first [of "\<lambda>a. km a = Some k" dispatch_order a] by (auto simp: dispatch_def)

text \<open>
  C34. urwid reports the space bar as the key \<open>" "\<close>, but \<open>DEFAULT_KEYMAP\<close> binds
  toggle to the token \<open>"space"\<close>: whatever the configuration file holds, the space
  bar toggles an item only when the file is a JSON object that binds \<open>toggle\<close> to
  \<open>" "\<close> itself. With no file, a malformed one, or one that leaves \<open>toggle\<close>
  out, no key toggles.
\<close>

theorem space_bar_needs_config:
  "dispatch (fst (load_keymap cfg)) '' '' = Some Toggle \<Longrightarrow>
   \<exists>kvs. cfg = ConfigObject kvs \<and> map_of (rev kvs) ''toggle'' = Some (JStr '' '')"
proof -
  assume "dispatch (fst (load_keymap cfg)) '' '' = Some Toggle"
  then have b: "fst (load_keymap cfg) Toggle = Some '' ''" by (rule dispatch_bound)
  show ?thesis
  proof (cases cfg)
    case (ConfigObject kvs)
    with b show ?thesis by (auto split: option.splits json.splits)
  qed (use b in \<open>auto simp: default_keymap_def\<close>)
qed

theorem space_bar_needs_config_witness:
  "dispatch (fst (load_keymap (ConfigObject [(''toggle'', JStr '' '')]))) '' '' = Some Toggle
   \<and> (\<exists>kvs. ConfigObject [(''toggle'', JStr '' '')] = ConfigObject kvs \<and> map_of (rev kvs) ''toggle'' = Some (JStr '' ''))"
proof -
  have d: "dispatch (fst (load_keymap (ConfigObject [(''toggle'', JStr '' '')]))) '' '' = Some Toggle"
    by (simp add: dispatch_def dispatch_order_def)
  from space_bar_needs_config [OF d] d show ?thesis by blast
qed

end
