(* ===== verification/App.thy ===== *)
theory App
  imports Widgets Keymap
begin

text \<open>
  The class \<open>TodoApp\<close> of \<open>src/mdtodo/mdtodo.py\<close> as a state machine. The record
  \<open>app\<close> holds the attributes \<open>todo_list\<close>, \<open>keymap\<close>,
  \<open>current_category_idx\<close>, \<open>selected_idx\<close>, the footer text, the dialog on
  screen (\<open>loop.widget\<close>: the layout or one overlay, whose callbacks capture the
  edit fields and the target object), the pending footer alarms with the clock, whether
  the main loop still runs, and the \<open>todo/\<close> directory on disk. Events are what
  urwid delivers: a key that no widget consumed (\<open>unhandled_input\<close>), edits of
  the dialog fields, button clicks, a mouse event, a clock tick, and an external
  change of the directory. A step returns the new state, or the exception that ends
  the program. Widget construction and drawing are not modelled; the index clamping
  they perform is. The invariant and the claims are in \<open>AppInv\<close> and
  \<open>AppBehaviour\<close>.
\<close>

datatype modal =
    NoDialog
  | AddDialog string string        \<comment> \<open>task field, category field\<close>
  | EditDialog oid string string   \<comment> \<open>target object, task field, category field\<close>
  | DeleteDialog oid string        \<comment> \<open>target object, its text when the dialog opened\<close>

record app =
  todo_list :: store
  disk :: disk
  keys :: keymap
  current_category_idx :: int
  selected_idx :: int
  footer :: string
  category_tabs :: "(style \<times> string) list"
  todo_walker :: "row list"
  alarms :: "nat list"
  clock :: nat
  modal :: modal
  running :: bool

datatype event =
    Key string | MouseEvent
  | TypeTask string | TypeCategory string
  | ClickSave | ClickCancel | ClickYes | ClickNo
  | Tick | DiskChange disk

abbreviation default_footer :: string where
  "default_footer \<equiv> '' Press ? for help ''"

section \<open>Display updates\<close>

text \<open>\<open>update_category_tabs\<close>: an index past the end goes back to 0, and the tab
  text is set.\<close>

definition update_category_tabs :: "app \<Rightarrow> app" where
  "update_category_tabs a =
     (let cats = get_categories (todo_list a);
          a1 = (if current_category_idx a \<ge> int (length cats) then a\<lparr>current_category_idx := 0\<rparr> else a)
      in a1\<lparr>category_tabs := tab_markup cats (current_category_idx a1)\<rparr>)"

text \<open>\<open>update_todo_list\<close>: a selection past the end goes to the last item (or 0), and
  the rows of the list are replaced.\<close>

definition update_todo_list :: "app \<Rightarrow> py_error + app" where
  "update_todo_list a =
     (let cats = get_categories (todo_list a) in
      if cats = [] then Inr (a\<lparr>todo_walker := no_categories_rows\<rparr>)
      else (case py_get cats (current_category_idx a) of
              Inl e \<Rightarrow> Inl e
            | Inr c \<Rightarrow>
                (let ts = get_todos_by_category c (todo_list a);
                     n = int (length ts);
                     a1 = (if selected_idx a \<ge> n then a\<lparr>selected_idx := max 0 (n - 1)\<rparr> else a)
                 in Inr (a1\<lparr>todo_walker := todo_widgets (selected_idx a1) c (keys a Add) ts\<rparr>))))"

text \<open>\<open>set_footer_text\<close>: the message, and a new alarm three time units later that
  restores the default text. Earlier alarms stay pending.\<close>

definition set_footer_text :: "string \<Rightarrow> app \<Rightarrow> app" where
  "set_footer_text t a = a\<lparr>footer := '' '' @ t @ '' '', alarms := alarms a @ [clock a + 3]\<rparr>"

definition tick :: "app \<Rightarrow> app" where
  "tick a =
     (let t = Suc (clock a) in
      a\<lparr>clock := t, alarms := filter (\<lambda>d. t < d) (alarms a),
        footer := (if list_ex (\<lambda>d. d \<le> t) (alarms a) then default_footer else footer a)\<rparr>)"

text \<open>The items of the category on the active tab: \<open>categories[current_category_idx]\<close>
  then \<open>get_todos_by_category\<close>.\<close>

definition current_todos :: "app \<Rightarrow> py_error + (oid \<times> todo_item) list" where
  "current_todos a =
     (case py_get (get_categories (todo_list a)) (current_category_idx a) of
        Inl e \<Rightarrow> Inl e
      | Inr c \<Rightarrow> Inr (get_todos_by_category c (todo_list a)))"

text \<open>The item a key acts on: \<open>if todos and 0 <= self.selected_idx < len(todos)\<close>.\<close>

definition selected_item :: "app \<Rightarrow> py_error + (oid \<times> todo_item) option" where
  "selected_item a =
     (if get_categories (todo_list a) = [] then Inr None
      else (case current_todos a of
              Inl e \<Rightarrow> Inl e
            | Inr ts \<Rightarrow> Inr (if ts \<noteq> [] \<and> 0 \<le> selected_idx a \<and> selected_idx a < int (length ts)
                             then Some (ts ! nat (selected_idx a)) else None)))"

section \<open>handle_input\<close>

definition show_add_dialog :: "app \<Rightarrow> py_error + app" where
  "show_add_dialog a =
     (case py_get (get_categories (todo_list a)) (current_category_idx a) of
        Inl e \<Rightarrow> Inl e
      | Inr c \<Rightarrow> Inr (a\<lparr>modal := AddDialog [] c\<rparr>))"

text \<open>\<open>category_prev\<close> and \<open>category_next\<close>, with Python's \<open>%\<close>.\<close>

definition switch_category :: "int \<Rightarrow> app \<Rightarrow> py_error + app" where
  "switch_category delta a =
     (let cats = get_categories (todo_list a) in
      if cats = [] then Inr a
      else update_todo_list (update_category_tabs
             (a\<lparr>current_category_idx := (current_category_idx a + delta) mod int (length cats),
                selected_idx := 0\<rparr>)))"

definition move_down :: "app \<Rightarrow> py_error + app" where
  "move_down a =
     (if get_categories (todo_list a) = [] then Inr a
      else (case current_todos a of
              Inl e \<Rightarrow> Inl e
            | Inr ts \<Rightarrow> if selected_idx a < int (length ts) - 1
                        then update_todo_list (a\<lparr>selected_idx := selected_idx a + 1\<rparr>) else Inr a))"

text \<open>\<open>toggle\<close>: the object is mutated in place, the list redrawn, and the footer names
  \<open>todos[self.selected_idx].text\<close> of the list read before the redraw.\<close>

definition toggle_selected :: "app \<Rightarrow> py_error + app" where
  "toggle_selected a =
     (if get_categories (todo_list a) = [] then Inr a
      else (case current_todos a of
              Inl e \<Rightarrow> Inl e
            | Inr ts \<Rightarrow>
                if ts \<noteq> [] \<and> 0 \<le> selected_idx a \<and> selected_idx a < int (length ts) then
                  (case update_todo_list (a\<lparr>todo_list := update_item (fst (ts ! nat (selected_idx a))) toggle (todo_list a)\<rparr>) of
                     Inl e \<Rightarrow> Inl e
                   | Inr a2 \<Rightarrow> (case py_get ts (selected_idx a2) of
                                 Inl e \<Rightarrow> Inl e
                               | Inr p \<Rightarrow> Inr (set_footer_text (''Toggled: '' @ todo_text (snd p)) a2)))
                else Inr a))"

definition target_dialog :: "(oid \<times> todo_item \<Rightarrow> modal) \<Rightarrow> app \<Rightarrow> py_error + app" where
  "target_dialog mk a =
     (case selected_item a of
        Inl e \<Rightarrow> Inl e
      | Inr None \<Rightarrow> Inr a
      | Inr (Some p) \<Rightarrow> Inr (a\<lparr>modal := mk p\<rparr>))"

definition reload :: "app \<Rightarrow> py_error + app" where
  "reload a =
     (case load_todos (todo_list a) (disk a) of
        Inl e \<Rightarrow> Inl e
      | Inr st \<Rightarrow>
          (case update_todo_list (update_category_tabs (a\<lparr>todo_list := st\<rparr>)) of
             Inl e \<Rightarrow> Inl e
           | Inr a2 \<Rightarrow> Inr (set_footer_text ''Reloaded todos from files'' a2)))"

text \<open>\<open>save_todos\<close> records the file names before it writes; a failed \<open>open\<close>
  raises out of \<open>handle_input\<close>.\<close>

definition save :: "app \<Rightarrow> py_error + app" where
  "save a =
     (let (ws, st) = save_todos (todo_list a)
      in case save_writes (disk a) ws of
           Inl e \<Rightarrow> Inl e
         | Inr d \<Rightarrow> Inr (set_footer_text ''Todos saved successfully!'' (a\<lparr>todo_list := st, disk := d\<rparr>)))"

text \<open>
  \<open>show_help_dialog\<close> builds the help text and its frame, wraps it in a
  \<open>urwid.Filler\<close> and calls \<open>urwid.connect_signal(help_dialog, 'key_press',
  close_help)\<close>. \<open>Filler\<close> declares no signals, and urwid raises NameError for
  a signal the class does not declare, before \<open>show_dialog\<close>: the help key ends
  the program and the help overlay is never shown.
\<close>

definition show_help_dialog :: "app \<Rightarrow> py_error + app" where
  "show_help_dialog a = Inl (NameError ''key_press'')"

fun do_action :: "action \<Rightarrow> app \<Rightarrow> py_error + app" where
  "do_action Quit a = Inr (a\<lparr>running := False\<rparr>)"
| "do_action Save a = save a"
| "do_action Reload a = reload a"
| "do_action Add a = show_add_dialog a"
| "do_action Category_prev a = switch_category (-1) a"
| "do_action Category_next a = switch_category 1 a"
| "do_action Move_up a =
     (if selected_idx a > 0 then update_todo_list (a\<lparr>selected_idx := selected_idx a - 1\<rparr>) else Inr a)"
| "do_action Move_down a = move_down a"
| "do_action Toggle a = toggle_selected a"
| "do_action Delete a = target_dialog (\<lambda>p. DeleteDialog (fst p) (todo_text (snd p))) a"
| "do_action Edit a = target_dialog (\<lambda>p. EditDialog (fst p) (todo_text (snd p)) (category (snd p))) a"
| "do_action Help a = show_help_dialog a"

definition handle_input :: "string \<Rightarrow> app \<Rightarrow> py_error + app" where
  "handle_input k a = (case dispatch (keys a) k of None \<Rightarrow> Inr a | Some act \<Rightarrow> do_action act a)"

section \<open>Dialog callbacks\<close>

text \<open>\<open>category_edit.edit_text.strip() or "uncategorized"\<close>.\<close>

definition field_category :: "string \<Rightarrow> string" where
  "field_category c = (if py_strip c = [] then uncategorized else py_strip c)"

text \<open>After an add or an edit: move the tab to the category if it is listed.\<close>

definition select_category :: "string \<Rightarrow> app \<Rightarrow> py_error + app" where
  "select_category c a =
     (let cats = get_categories (todo_list a) in
      if c \<in> set cats then
        (case py_index_of cats c of Inl e \<Rightarrow> Inl e | Inr i \<Rightarrow> Inr (a\<lparr>current_category_idx := i\<rparr>))
      else Inr a)"

definition finish_dialog :: "string \<Rightarrow> app \<Rightarrow> py_error + app" where
  "finish_dialog msg a =
     (case update_todo_list (update_category_tabs a) of
        Inl e \<Rightarrow> Inl e
      | Inr a2 \<Rightarrow> Inr ((set_footer_text msg a2)\<lparr>modal := NoDialog\<rparr>))"

definition add_on_save :: "string \<Rightarrow> string \<Rightarrow> app \<Rightarrow> py_error + app" where
  "add_on_save t c a =
     (let txt = py_strip t; cat = field_category c in
      if txt \<noteq> [] then
        (case select_category cat (a\<lparr>todo_list := snd (add_todo txt cat (todo_list a))\<rparr>) of
           Inl e \<Rightarrow> Inl e
         | Inr a1 \<Rightarrow> finish_dialog (''Added: '' @ txt) a1)
      else Inr (a\<lparr>modal := NoDialog\<rparr>))"

text \<open>The edit dialog assigns \<open>todo.text\<close> and \<open>todo.category\<close> of the captured
  object; it never adds the category to \<open>self.categories\<close>.\<close>

definition edit_on_save :: "oid \<Rightarrow> string \<Rightarrow> string \<Rightarrow> app \<Rightarrow> py_error + app" where
  "edit_on_save i t c a =
     (let txt = py_strip t; cat = field_category c in
      case select_category cat (a\<lparr>todo_list := update_item i (\<lambda>it. it\<lparr>todo_text := txt, category := cat\<rparr>) (todo_list a)\<rparr>) of
        Inl e \<Rightarrow> Inl e
      | Inr a1 \<Rightarrow> finish_dialog (''Updated: '' @ txt) a1)"

text \<open>\<open>on_yes\<close> of the delete dialog redraws the list but not the tabs.\<close>

definition delete_on_yes :: "oid \<Rightarrow> app \<Rightarrow> py_error + app" where
  "delete_on_yes i a =
     (case update_todo_list (a\<lparr>todo_list := delete_todo i (todo_list a)\<rparr>) of
        Inl e \<Rightarrow> Inl e
      | Inr a2 \<Rightarrow> Inr ((set_footer_text ''Deleted todo'' a2)\<lparr>modal := NoDialog\<rparr>))"

section \<open>The step function\<close>

fun dialog_event :: "modal \<Rightarrow> event \<Rightarrow> app \<Rightarrow> py_error + app" where
  "dialog_event (AddDialog t c) (TypeTask s) a = Inr (a\<lparr>modal := AddDialog s c\<rparr>)"
| "dialog_event (AddDialog t c) (TypeCategory s) a = Inr (a\<lparr>modal := AddDialog t s\<rparr>)"
| "dialog_event (AddDialog t c) ClickSave a = add_on_save t c a"
| "dialog_event (AddDialog t c) ClickCancel a = Inr (a\<lparr>modal := NoDialog\<rparr>)"
| "dialog_event (EditDialog i t c) (TypeTask s) a = Inr (a\<lparr>modal := EditDialog i s c\<rparr>)"
| "dialog_event (EditDialog i t c) (TypeCategory s) a = Inr (a\<lparr>modal := EditDialog i t s\<rparr>)"
| "dialog_event (EditDialog i t c) ClickSave a = edit_on_save i t c a"
| "dialog_event (EditDialog i t c) ClickCancel a = Inr (a\<lparr>modal := NoDialog\<rparr>)"
| "dialog_event (DeleteDialog i s) ClickYes a = delete_on_yes i a"
| "dialog_event (DeleteDialog i s) ClickNo a = Inr (a\<lparr>modal := NoDialog\<rparr>)"
| "dialog_event _ _ a = Inr a"

text \<open>
  A key that the widget in focus does not consume reaches \<open>handle_input\<close> whatever
  dialog is on screen (the code never looks at the dialog); a mouse event is a tuple and
  is ignored. Once the main loop has exited nothing more happens.
\<close>

fun step :: "app \<Rightarrow> event \<Rightarrow> py_error + app" where
  "step a e =
     (if \<not> running a then Inr a
      else (case e of
              Key k \<Rightarrow> handle_input k a
            | MouseEvent \<Rightarrow> Inr a
            | Tick \<Rightarrow> Inr (tick a)
            | DiskChange d \<Rightarrow> Inr (a\<lparr>disk := d\<rparr>)
            | _ \<Rightarrow> dialog_event (modal a) e a))"

fun run :: "app \<Rightarrow> event list \<Rightarrow> py_error + app" where
  "run a [] = Inr a"
| "run a (e # es) = (case step a e of Inl err \<Rightarrow> Inl err | Inr a' \<Rightarrow> run a' es)"

text \<open>
  \<open>TodoApp.__init__\<close>: the store is loaded, the keymap read (its error message goes
  to \<open>self.footer_text\<close>, which \<open>init_ui\<close> then replaces by the footer widget),
  and the tabs and the list are drawn.
\<close>

definition init_app :: "disk \<Rightarrow> config \<Rightarrow> py_error + app" where
  "init_app d cfg =
     (case init_store d of
        Inl e \<Rightarrow> Inl e
      | Inr st \<Rightarrow>
          (let (km, failed, _) = load_keymap cfg;
               a0 = \<lparr>todo_list = st, disk = d, keys = km, current_category_idx = 0,
                     selected_idx = 0, footer = (if failed then ''Error loading keymap'' else []),
                     category_tabs = [], todo_walker = [],
                     alarms = [], clock = 0, modal = NoDialog, running = True\<rparr>;
               a1 = a0\<lparr>current_category_idx := 0, selected_idx := 0, footer := []\<rparr>
           in update_todo_list (update_category_tabs (a1\<lparr>footer := default_footer\<rparr>))))"

inductive reachable :: "app \<Rightarrow> bool" where
  init: "init_app d cfg = Inr a \<Longrightarrow> reachable a"
| step: "reachable a \<Longrightarrow> step a e = Inr a' \<Longrightarrow> reachable a'"


text \<open>\<open>main()\<close>: the application is built, then the main loop delivers the events.\<close>

definition run_app :: "disk \<Rightarrow> config \<Rightarrow> event list \<Rightarrow> py_error + app" where
  "run_app d cfg es = (case init_app d cfg of Inl e \<Rightarrow> Inl e | Inr a \<Rightarrow> run a es)"

text \<open>The application started on a directory holding \<open>work.md\<close> with one open task
  and no configuration file, for the witnesses.\<close>

abbreviation example_disk :: disk where
  "example_disk \<equiv> [(''work.md'', Some ''- [ ] a'')]"

abbreviation example_app :: app where
  "example_app \<equiv>
     \<lparr>todo_list = \<lparr>todos = [(0, \<lparr>todo_text = ''a'', todo_done = False, category = uncategorized\<rparr>)],
                   todo_files = [0 \<mapsto> ''work.md''], categories = {uncategorized}, next_oid = 1\<rparr>,
      disk = example_disk, keys = default_keymap, current_category_idx = 0, selected_idx = 0,
      footer = default_footer, category_tabs = [(Selected_category, '' uncategorized '')],
      todo_walker = [(Selected, [(Plain, Text '' ''), (Plain, Unchecked_box), (Plain, Text '' ''), (Todo_style, Text ''a'')])],
      alarms = [], clock = 0, modal = NoDialog, running = True\<rparr>"

end
