(* ===== verification/AppInv.thy ===== *)
theory AppInv
  imports App
begin

text \<open>
  The invariant of \<open>TodoApp\<close> (\<open>src/mdtodo/mdtodo.py\<close>): the store is well formed and
  the indices the handlers use are in range. Each operation of \<open>App\<close> is shown to keep
  it or to end in one of the exceptions the code can raise there (\<open>ok_result\<close>: a
  read error, the open error of a name outside \<open>todo/\<close>, the help key's NameError);
  the claims lift this to the
  reachable states and to whole runs. The equations of the helper operations shared by
  the behavioural claims of \<open>AppBehaviour\<close> are proved here too.
\<close>

section \<open>The invariant of the application\<close>

text \<open>
  The indices the handlers use stay in range: the store is well formed, the active tab
  is a position of \<open>get_categories()\<close>, and the selection is 0 or a position of
  the list shown on that tab.
\<close>

definition cur_ok :: "app \<Rightarrow> bool" where
  "cur_ok a \<longleftrightarrow> wf_store (todo_list a) \<and> 0 \<le> current_category_idx a
     \<and> current_category_idx a < int (length (get_categories (todo_list a))) \<and> 0 \<le> selected_idx a"

definition shown_todos :: "app \<Rightarrow> (oid \<times> todo_item) list" where
  "shown_todos a =
     get_todos_by_category (get_categories (todo_list a) ! nat (current_category_idx a)) (todo_list a)"

text \<open>What the widgets should show in a state: the tabs and the rows computed from the
  store and the indices, as \<open>update_category_tabs\<close> and \<open>update_todo_list\<close> draw
  them.\<close>

definition tabs_view :: "app \<Rightarrow> (style \<times> string) list" where
  "tabs_view a = tab_markup (get_categories (todo_list a)) (current_category_idx a)"

definition walker_view :: "app \<Rightarrow> row list" where
  "walker_view a =
     todo_widgets (selected_idx a) (get_categories (todo_list a) ! nat (current_category_idx a)) (keys a Add)
       (shown_todos a)"

text \<open>A state with its list redrawn, and with both widgets redrawn.\<close>

definition redraw_list :: "app \<Rightarrow> app" where
  "redraw_list a = a\<lparr>todo_walker := walker_view a\<rparr>"

definition redraw :: "app \<Rightarrow> app" where
  "redraw a = a\<lparr>category_tabs := tabs_view a, todo_walker := walker_view a\<rparr>"

definition app_inv :: "app \<Rightarrow> bool" where
  "app_inv a \<longleftrightarrow> cur_ok a \<and> (selected_idx a = 0 \<or> selected_idx a < int (length (shown_todos a)))"

text \<open>The outcome of a step from a state satisfying the invariant: a read error of
  \<open>load_todos\<close>, the write error of a file name that is not a plain entry of
  \<open>todo/\<close>, the NameError of the help key, or a state satisfying the invariant
  again.\<close>

fun ok_result :: "py_error + app \<Rightarrow> bool" where
  "ok_result (Inl (ReadError n)) = True"
| "ok_result (Inl (WriteError n)) = (\<not> plain_name n)"
| "ok_result (Inl (NameError s)) = (s = ''key_press'')"
| "ok_result (Inl _) = False"
| "ok_result (Inr a) = app_inv a"



lemma show_help_dialog_raises [simp]: "show_help_dialog a = Inl (NameError ''key_press'')"
  by (simp add: show_help_dialog_def)

lemma get_categories_set:
  "finite (categories st) \<Longrightarrow> set (get_categories st) = categories st"
  by (simp add: get_categories_def)

lemma wf_categories_nonempty: "wf_store st \<Longrightarrow> get_categories st \<noteq> []"
  by (auto simp: wf_store_def get_categories_def)

lemma categories_length_mono:
  "categories st \<subseteq> categories st' \<Longrightarrow> finite (categories st') \<Longrightarrow>
   length (get_categories st) \<le> length (get_categories st')"
  by (simp add: get_categories_def card_mono)

lemma app_inv_view [simp]:
  "app_inv (set_footer_text t a) = app_inv a"
  "app_inv (a\<lparr>modal := m\<rparr>) = app_inv a"
  "app_inv (tick a) = app_inv a"
  "app_inv (a\<lparr>disk := d\<rparr>) = app_inv a"
  "app_inv (a\<lparr>running := b\<rparr>) = app_inv a"
  "app_inv (a\<lparr>category_tabs := tb\<rparr>) = app_inv a"
  "app_inv (a\<lparr>todo_walker := w\<rparr>) = app_inv a"
  by (simp_all add: app_inv_def cur_ok_def shown_todos_def set_footer_text_def tick_def Let_def)

lemma widgets_frame [simp]:
  "cur_ok (a\<lparr>category_tabs := tb\<rparr>) = cur_ok a" "cur_ok (a\<lparr>todo_walker := w\<rparr>) = cur_ok a"
  "shown_todos (a\<lparr>category_tabs := tb\<rparr>) = shown_todos a" "shown_todos (a\<lparr>todo_walker := w\<rparr>) = shown_todos a"
  "walker_view (a\<lparr>category_tabs := tb\<rparr>) = walker_view a" "walker_view (a\<lparr>todo_walker := w\<rparr>) = walker_view a"
  "tabs_view (a\<lparr>category_tabs := tb\<rparr>) = tabs_view a" "tabs_view (a\<lparr>todo_walker := w\<rparr>) = tabs_view a"
  by (simp_all add: cur_ok_def shown_todos_def walker_view_def tabs_view_def)

lemma current_todos_eq: "cur_ok a \<Longrightarrow> current_todos a = Inr (shown_todos a)"
  by (simp add: cur_ok_def current_todos_def shown_todos_def)

lemma update_todo_list_eq:
  "cur_ok a \<Longrightarrow> update_todo_list a =
     Inr (let a1 = a\<lparr>selected_idx := (if selected_idx a \<ge> int (length (shown_todos a))
                             then max 0 (int (length (shown_todos a)) - 1) else selected_idx a)\<rparr>
          in a1\<lparr>todo_walker := walker_view a1\<rparr>)"
  using wf_categories_nonempty [of "todo_list a"]
  by (auto simp: cur_ok_def update_todo_list_def shown_todos_def walker_view_def Let_def)

lemma update_todo_list_keep:
  "cur_ok a \<Longrightarrow> selected_idx a < int (length (shown_todos a)) \<Longrightarrow>
   update_todo_list a = Inr (a\<lparr>todo_walker := walker_view a\<rparr>)"
  by (simp add: update_todo_list_eq)

lemma update_todo_list_ok: "cur_ok a \<Longrightarrow> ok_result (update_todo_list a)"
  by (auto simp: update_todo_list_eq app_inv_def cur_ok_def shown_todos_def Let_def)

lemma update_category_tabs_ok:
  "wf_store (todo_list a) \<Longrightarrow> 0 \<le> current_category_idx a \<Longrightarrow> 0 \<le> selected_idx a \<Longrightarrow>
   cur_ok (update_category_tabs a)"
  using wf_categories_nonempty [of "todo_list a"]
  by (auto simp: cur_ok_def update_category_tabs_def Let_def)

lemma redraw_ok:
  "wf_store (todo_list a) \<Longrightarrow> 0 \<le> current_category_idx a \<Longrightarrow> 0 \<le> selected_idx a \<Longrightarrow>
   ok_result (update_todo_list (update_category_tabs a))"
  by (rule update_todo_list_ok, rule update_category_tabs_ok)

lemma ok_result_case:
  "ok_result r \<Longrightarrow> (\<And>x. app_inv x \<Longrightarrow> app_inv (f x)) \<Longrightarrow>
   ok_result (case r of Inl e \<Rightarrow> Inl e | Inr x \<Rightarrow> Inr (f x))"
  by (cases r) auto

lemma app_inv_cur_ok: "app_inv a \<Longrightarrow> cur_ok a"
  by (simp add: app_inv_def)

lemma cur_ok_nonneg: "cur_ok a \<Longrightarrow> wf_store (todo_list a) \<and> 0 \<le> current_category_idx a \<and> 0 \<le> selected_idx a"
  by (simp add: cur_ok_def)

lemma app_inv_same_items:
  "app_inv a \<Longrightarrow> wf_store st' \<Longrightarrow> todos st' = todos (todo_list a) \<Longrightarrow>
   categories st' = categories (todo_list a) \<Longrightarrow> app_inv (a\<lparr>todo_list := st'\<rparr>)"
  by (simp add: app_inv_def cur_ok_def shown_todos_def get_categories_def get_todos_by_category_def)

lemma save_result:
  "save a = Inr a' \<Longrightarrow>
   \<exists>d. save_writes (disk a) (fst (save_todos (todo_list a))) = Inr d
     \<and> a' = set_footer_text ''Todos saved successfully!'' (a\<lparr>todo_list := snd (save_todos (todo_list a)), disk := d\<rparr>)"
  by (auto simp: save_def split: prod.splits sum.splits)

lemma save_error: "save a = Inl e \<Longrightarrow> \<exists>n. e = WriteError n \<and> \<not> plain_name n"
  by (auto simp: save_def split: prod.splits sum.splits dest: save_writes_error)

lemma save_ok: "app_inv a \<Longrightarrow> ok_result (save a)"
proof (cases "save a")
  case (Inl e)
  then show ?thesis using save_error [OF Inl] by auto
next
  case (Inr a')
  assume a: "app_inv a"
  from a have "wf_store (todo_list a)" by (simp add: app_inv_def cur_ok_def)
  from save_todos_wf [OF this] a have "app_inv (a\<lparr>todo_list := snd (save_todos (todo_list a))\<rparr>)"
    by (intro app_inv_same_items) auto
  with save_result [OF Inr] Inr show ?thesis by auto
qed

lemma reload_ok: "app_inv a \<Longrightarrow> ok_result (reload a)"
proof (cases "load_todos (todo_list a) (disk a)")
  case (Inl e)
  then obtain n where "e = ReadError n"
    using load_files_error_read unfolding load_todos_def by blast
  with Inl show ?thesis by (simp add: reload_def)
next
  case (Inr st)
  assume a: "app_inv a"
  with Inr have "wf_store st" using load_todos_wf by (auto simp: app_inv_def cur_ok_def)
  with a have "ok_result (update_todo_list (update_category_tabs (a\<lparr>todo_list := st\<rparr>)))"
    by (intro redraw_ok) (simp_all add: app_inv_def cur_ok_def)
  with Inr show ?thesis
    by (simp add: reload_def ok_result_case)
qed

lemma switch_category_ok: "app_inv a \<Longrightarrow> ok_result (switch_category delta a)"
  using wf_categories_nonempty [of "todo_list a"]
  by (auto simp: switch_category_def Let_def app_inv_def cur_ok_def intro!: redraw_ok)

lemma move_down_ok: "app_inv a \<Longrightarrow> ok_result (move_down a)"
proof -
  assume a: "app_inv a"
  then have c: "cur_ok a" by (rule app_inv_cur_ok)
  then have "cur_ok (a\<lparr>selected_idx := selected_idx a + 1\<rparr>)" by (simp add: cur_ok_def)
  with a c show ?thesis by (simp add: move_down_def current_todos_eq update_todo_list_ok)
qed

lemma shown_todos_update_item:
  "(\<And>it. category (f it) = category it) \<Longrightarrow>
   map fst (shown_todos (a\<lparr>todo_list := update_item i f (todo_list a)\<rparr>)) = map fst (shown_todos a)"
  by (simp add: shown_todos_def get_categories_def update_item_by_category)

lemma toggle_selected_eq:
  assumes a: "app_inv a" and ne: "shown_todos a \<noteq> []"
  shows "toggle_selected a =
           Inr (set_footer_text (''Toggled: '' @ todo_text (snd (shown_todos a ! nat (selected_idx a))))
                  (let a1 = a\<lparr>todo_list := update_item (fst (shown_todos a ! nat (selected_idx a))) toggle (todo_list a)\<rparr>
                   in a1\<lparr>todo_walker := walker_view a1\<rparr>))
         \<and> app_inv (a\<lparr>todo_list := update_item (fst (shown_todos a ! nat (selected_idx a))) toggle (todo_list a)\<rparr>)"
proof -
  have c: "cur_ok a" using a by (rule app_inv_cur_ok)
  define ts where "ts = shown_todos a"
  have rng: "0 \<le> selected_idx a \<and> selected_idx a < int (length ts)"
    using a ne by (auto simp: app_inv_def cur_ok_def ts_def)
  define a1 where "a1 = a\<lparr>todo_list := update_item (fst (ts ! nat (selected_idx a))) toggle (todo_list a)\<rparr>"
  have len: "length (shown_todos a1) = length ts"
    using shown_todos_update_item [where f = toggle and a = a and i = "fst (ts ! nat (selected_idx a))"]
    unfolding a1_def ts_def by (metis length_map toggle_fields(3))
  have "wf_store (todo_list a1)"
    using c by (simp add: a1_def cur_ok_def update_item_wf)
  with c have c1: "cur_ok a1"
    by (simp add: cur_ok_def a1_def get_categories_def)
  have sel1: "selected_idx a1 = selected_idx a" by (simp add: a1_def)
  with rng len c1 have upd: "update_todo_list a1 = Inr (a1\<lparr>todo_walker := walker_view a1\<rparr>)" and inv1: "app_inv a1"
    by (simp_all add: update_todo_list_keep app_inv_def)
  have nc: "get_categories (todo_list a) \<noteq> []"
    using c by (simp add: cur_ok_def wf_categories_nonempty)
  from ne nc rng c upd have "toggle_selected a = Inr (set_footer_text (''Toggled: '' @ todo_text (snd (ts ! nat (selected_idx a))))
                                                     (a1\<lparr>todo_walker := walker_view a1\<rparr>))"
    by (simp add: toggle_selected_def current_todos_eq ts_def [symmetric] a1_def [symmetric])
       (simp add: a1_def ts_def)
  with inv1 show ?thesis by (simp add: a1_def ts_def Let_def)
qed

lemma toggle_selected_ok: "app_inv a \<Longrightarrow> ok_result (toggle_selected a)"
proof (cases "shown_todos a = []")
  case True
  assume a: "app_inv a"
  with True show ?thesis
    by (auto simp: toggle_selected_def current_todos_eq app_inv_cur_ok)
qed (simp add: toggle_selected_eq Let_def)

lemma show_add_dialog_ok: "app_inv a \<Longrightarrow> ok_result (show_add_dialog a)"
  by (auto simp: show_add_dialog_def app_inv_def cur_ok_def shown_todos_def)

lemma selected_item_Inr: "cur_ok a \<Longrightarrow> \<exists>x. selected_item a = Inr x"
  by (simp add: selected_item_def current_todos_eq)

lemma target_dialog_ok: "app_inv a \<Longrightarrow> ok_result (target_dialog mk a)"
proof -
  assume a: "app_inv a"
  then obtain x where "selected_item a = Inr x"
    using selected_item_Inr [OF app_inv_cur_ok] by blast
  with a show ?thesis by (cases x) (simp_all add: target_dialog_def)
qed

lemma do_action_ok: "app_inv a \<Longrightarrow> ok_result (do_action act a)"
proof (cases act)
  case Move_up
  assume a: "app_inv a"
  then have "selected_idx a > 0 \<Longrightarrow> cur_ok (a\<lparr>selected_idx := selected_idx a - 1\<rparr>)"
    by (simp add: app_inv_def cur_ok_def)
  with a Move_up show ?thesis by (auto intro: update_todo_list_ok)
qed (simp_all add: save_ok reload_ok show_add_dialog_ok switch_category_ok move_down_ok
                   toggle_selected_ok target_dialog_ok)

lemma select_category_ok:
  "0 \<le> current_category_idx a \<Longrightarrow> \<exists>j. 0 \<le> j \<and> select_category c a = Inr (a\<lparr>current_category_idx := j\<rparr>)"
proof (cases "c \<in> set (get_categories (todo_list a))")
  case True
  with py_index_of_found obtain i where i: "py_index_of (get_categories (todo_list a)) c = Inr i" "0 \<le> i"
    by metis
  show ?thesis
    by (rule exI [of _ i]) (simp add: select_category_def True i)
next
  case False
  assume "0 \<le> current_category_idx a"
  then show ?thesis
    by (intro exI [of _ "current_category_idx a"]) (simp add: select_category_def False)
qed

lemma finish_dialog_ok:
  "wf_store (todo_list a) \<Longrightarrow> 0 \<le> current_category_idx a \<Longrightarrow> 0 \<le> selected_idx a \<Longrightarrow>
   ok_result (finish_dialog msg a)"
  unfolding finish_dialog_def by (rule ok_result_case) (simp_all add: redraw_ok)

lemma field_category_nonempty: "field_category c \<noteq> []"
  by (simp add: field_category_def)

lemma add_on_save_ok: "app_inv a \<Longrightarrow> ok_result (add_on_save t c a)"
proof -
  assume a: "app_inv a"
  define a1 where "a1 = a\<lparr>todo_list := snd (add_todo (py_strip t) (field_category c) (todo_list a))\<rparr>"
  have w: "wf_store (todo_list a1)" and n: "0 \<le> current_category_idx a1" "0 \<le> selected_idx a1"
    using a by (simp_all add: a1_def app_inv_def cur_ok_def add_todo_wf)
  then obtain j where "0 \<le> j" "select_category (field_category c) a1 = Inr (a1\<lparr>current_category_idx := j\<rparr>)"
    using select_category_ok [OF n(1), of "field_category c"] by metis
  with w n a show ?thesis
    by (simp add: add_on_save_def Let_def a1_def [symmetric] finish_dialog_ok)
qed

lemma edit_on_save_ok: "app_inv a \<Longrightarrow> ok_result (edit_on_save i t c a)"
proof -
  assume a: "app_inv a"
  define a1 where "a1 = a\<lparr>todo_list := update_item i (\<lambda>it. it\<lparr>todo_text := py_strip t, category := field_category c\<rparr>) (todo_list a)\<rparr>"
  have w: "wf_store (todo_list a1)" and n: "0 \<le> current_category_idx a1" "0 \<le> selected_idx a1"
    using a by (simp_all add: a1_def app_inv_def cur_ok_def update_item_wf field_category_nonempty)
  then obtain j where "0 \<le> j" "select_category (field_category c) a1 = Inr (a1\<lparr>current_category_idx := j\<rparr>)"
    using select_category_ok [OF n(1), of "field_category c"] by metis
  with w n show ?thesis
    by (simp add: edit_on_save_def Let_def a1_def [symmetric] finish_dialog_ok)
qed

lemma delete_on_yes_ok: "app_inv a \<Longrightarrow> ok_result (delete_on_yes i a)"
proof -
  assume a: "app_inv a"
  then have "cur_ok (a\<lparr>todo_list := delete_todo i (todo_list a)\<rparr>)"
    by (simp add: app_inv_def cur_ok_def delete_todo_wf get_categories_def)
  then show ?thesis
    unfolding delete_on_yes_def by (rule ok_result_case [OF update_todo_list_ok]) simp
qed

lemma dialog_event_ok: "app_inv a \<Longrightarrow> ok_result (dialog_event m e a)"
  by (induction m e a rule: dialog_event.induct)
     (simp_all add: add_on_save_ok edit_on_save_ok delete_on_yes_ok)

lemma step_ok: "app_inv a \<Longrightarrow> ok_result (step a e)"
  by (cases e) (auto simp: handle_input_def do_action_ok dialog_event_ok split: option.splits)

lemma run_ok: "app_inv a \<Longrightarrow> ok_result (run a es)"
proof (induction es arbitrary: a)
  case (Cons e es)
  from step_ok [OF Cons.prems, of e] Cons.IH show ?case
    by (cases "step a e") auto
qed simp

lemma init_app_ok: "ok_result (init_app d cfg)"
proof (cases "init_store d")
  case (Inl e)
  then obtain n where "e = ReadError n"
    using load_files_error_read unfolding init_store_def load_todos_def by blast
  with Inl show ?thesis by (simp add: init_app_def)
next
  case (Inr st)
  have "wf_store \<lparr>todos = [], todo_files = Map.empty, categories = {uncategorized}, next_oid = 0\<rparr>"
    by (simp add: wf_store_def)
  with Inr have "wf_store st"
    unfolding init_store_def using load_todos_wf by blast
  with Inr show ?thesis
    by (auto simp: init_app_def Let_def intro!: redraw_ok split: prod.splits)
qed

section \<open>Helper equations for the claims\<close>

lemma update_category_tabs_keep: "cur_ok a \<Longrightarrow> update_category_tabs a = a\<lparr>category_tabs := tabs_view a\<rparr>"
  by (simp add: update_category_tabs_def cur_ok_def tabs_view_def Let_def)

lemma finish_dialog_eq:
  "cur_ok a \<Longrightarrow> finish_dialog msg a =
     Inr ((set_footer_text msg
            (let a1 = a\<lparr>category_tabs := tabs_view a,
                         selected_idx := (if selected_idx a \<ge> int (length (shown_todos a))
                             then max 0 (int (length (shown_todos a)) - 1) else selected_idx a)\<rparr>
             in a1\<lparr>todo_walker := walker_view a1\<rparr>))\<lparr>modal := NoDialog\<rparr>)"
  by (simp add: finish_dialog_def update_category_tabs_keep update_todo_list_eq Let_def)

lemma update_todo_list_Inr:
  "update_todo_list a = Inr a' \<Longrightarrow> todo_list a' = todo_list a \<and> current_category_idx a' = current_category_idx a"
  by (auto simp: update_todo_list_def Let_def split: if_splits sum.splits)

lemma select_category_Inr: "select_category c a = Inr a' \<Longrightarrow> todo_list a' = todo_list a"
  by (auto simp: select_category_def Let_def split: if_splits sum.splits)

lemma finish_dialog_Inr: "finish_dialog msg a = Inr a' \<Longrightarrow> todo_list a' = todo_list a"
proof -
  assume f: "finish_dialog msg a = Inr a'"
  then obtain a2 where "update_todo_list (update_category_tabs a) = Inr a2"
    and "a' = (set_footer_text msg a2)\<lparr>modal := NoDialog\<rparr>"
    by (auto simp: finish_dialog_def split: sum.splits)
  then show ?thesis
    by (auto dest!: update_todo_list_Inr simp: set_footer_text_def update_category_tabs_def Let_def)
qed

lemma select_category_found:
  "c \<in> set (get_categories (todo_list a)) \<Longrightarrow>
   \<exists>j. select_category c a = Inr (a\<lparr>current_category_idx := j\<rparr>) \<and> 0 \<le> j
       \<and> j < int (length (get_categories (todo_list a))) \<and> get_categories (todo_list a) ! nat j = c"
proof -
  assume c: "c \<in> set (get_categories (todo_list a))"
  with py_index_of_found obtain j where j: "py_index_of (get_categories (todo_list a)) c = Inr j" "0 \<le> j"
    "j < int (length (get_categories (todo_list a)))" "get_categories (todo_list a) ! nat j = c"
    by metis
  show ?thesis by (rule exI [of _ j]) (simp add: select_category_def c j)
qed

lemma edit_on_save_store:
  "edit_on_save i t c a = Inr a' \<Longrightarrow>
   todo_list a' = update_item i (\<lambda>it. it\<lparr>todo_text := py_strip t, category := field_category c\<rparr>) (todo_list a)"
  by (auto simp: edit_on_save_def Let_def split: sum.splits dest!: finish_dialog_Inr select_category_Inr)

lemma switch_category_eq:
  "app_inv a \<Longrightarrow> switch_category delta a =
     Inr (let a1 = a\<lparr>current_category_idx := (current_category_idx a + delta) mod int (length (get_categories (todo_list a))),
                       selected_idx := 0\<rparr>
          in a1\<lparr>category_tabs := tabs_view a1, todo_walker := walker_view a1\<rparr>)"
proof -
  assume a: "app_inv a"
  let ?n = "int (length (get_categories (todo_list a)))"
  let ?a1 = "a\<lparr>current_category_idx := (current_category_idx a + delta) mod ?n, selected_idx := 0\<rparr>"
  have ne: "get_categories (todo_list a) \<noteq> []"
    using a by (simp add: app_inv_def cur_ok_def wf_categories_nonempty)
  then have "cur_ok ?a1" using a by (simp add: app_inv_def cur_ok_def)
  with ne show ?thesis
    by (simp add: switch_category_def Let_def update_category_tabs_keep update_todo_list_eq)
       (simp add: walker_view_def shown_todos_def)
qed

lemma select_category_cur_ok: "cur_ok a \<Longrightarrow> select_category c a = Inr a' \<Longrightarrow> cur_ok a'"
  by (auto simp: select_category_def cur_ok_def Let_def split: if_splits sum.splits dest: py_index_of_Inr_bound)

lemma edit_on_save_Inr: "app_inv a \<Longrightarrow> \<exists>a'. edit_on_save i t c a = Inr a'"
proof -
  assume a: "app_inv a"
  define a1 where "a1 = a\<lparr>todo_list := update_item i (\<lambda>it. it\<lparr>todo_text := py_strip t, category := field_category c\<rparr>) (todo_list a)\<rparr>"
  have c1: "cur_ok a1"
    using a by (simp add: a1_def app_inv_def cur_ok_def update_item_wf field_category_nonempty get_categories_def)
  obtain j where sel: "select_category (field_category c) a1 = Inr (a1\<lparr>current_category_idx := j\<rparr>)"
    using select_category_ok [of a1 "field_category c"] c1 by (auto simp: cur_ok_def)
  from select_category_cur_ok [OF c1 sel] show ?thesis
    by (simp add: edit_on_save_def Let_def a1_def [symmetric] sel finish_dialog_eq)
qed

lemma example_app_inv: "app_inv example_app"
  by (simp add: app_inv_def cur_ok_def wf_store_def shown_todos_def get_categories_def get_todos_by_category_def)

lemma update_todo_list_store: "update_todo_list a = Inr a' \<Longrightarrow> todo_list a' = todo_list a"
  by (simp add: update_todo_list_Inr)

lemma view_store [simp]:
  "todo_list (update_category_tabs a) = todo_list a"
  "todo_list (set_footer_text m a) = todo_list a"
  "todo_list (tick a) = todo_list a"
  by (simp_all add: update_category_tabs_def set_footer_text_def tick_def Let_def)

lemma do_action_grows:
  "do_action act a = Inr a' \<Longrightarrow> categories (todo_list a) \<subseteq> categories (todo_list a')"
proof (cases act)
  case Save
  assume "do_action act a = Inr a'"
  with Save save_result [of a a'] save_todos_categories [of "todo_list a"] show ?thesis
    by (auto simp: set_footer_text_def)
next
  case Reload
  moreover assume "do_action act a = Inr a'"
  ultimately show ?thesis
    by (auto simp: reload_def split: sum.splits dest!: update_todo_list_store load_todos_categories)
qed (auto simp: show_add_dialog_def switch_category_def move_down_def toggle_selected_def
                target_dialog_def Let_def
          split: sum.splits option.splits if_splits dest!: update_todo_list_store)

lemma dialog_event_grows:
  "dialog_event m e a = Inr a' \<Longrightarrow> categories (todo_list a) \<subseteq> categories (todo_list a')"
  by (induction m e a rule: dialog_event.induct)
     (auto simp: add_on_save_def edit_on_save_def delete_on_yes_def Let_def add_todo_eq delete_todo_wf(3)
           split: sum.splits if_splits dest!: finish_dialog_Inr select_category_Inr update_todo_list_store)

lemma reachable_app_inv: "reachable a \<Longrightarrow> app_inv a"
proof (induction rule: reachable.induct)
  case (init d cfg a)
  from init_app_ok [of d cfg] init show ?case by simp
next
  case (step a e a')
  from step_ok [OF step.IH, of e] step.hyps(2) show ?case by simp
qed

text \<open>The example state of \<open>App\<close> is the state \<open>main\<close> starts in on its disk.\<close>

lemma reachable_example_app: "reachable example_app"
proof -
  have "init_app example_disk NoConfig = Inr example_app"
    by (simp add: init_app_def init_store_def load_todos_def glob_md_def py_splitlines_def
       tag_suffix_def match_body_def py_isspace_def py_isword_def is_linebreak_def mk_todo_item_def append_new_def
       update_todo_list_def update_category_tabs_def get_categories_def get_todos_by_category_def Let_def
       tab_markup_def todo_widgets_def todo_row_def)
  then show ?thesis by (rule reachable.init)
qed

lemma shown_todos_example_app:
  "shown_todos example_app = [(0, \<lparr>todo_text = ''a'', todo_done = False, category = uncategorized\<rparr>)]"
  by (simp add: shown_todos_def get_categories_def get_todos_by_category_def)

lemma update_todo_list_frame:
  "update_todo_list a = Inr a' \<Longrightarrow> modal a' = modal a \<and> running a' = running a \<and> keys a' = keys a"
  by (auto simp: update_todo_list_def Let_def split: if_splits sum.splits)

lemma reload_parts:
  assumes a: "app_inv a" and r: "reload a = Inr a1"
  shows "load_todos (todo_list a) (disk a) = Inr (todo_list a1) \<and> modal a1 = modal a \<and> running a1 = running a
         \<and> app_inv a1"
proof -
  from r obtain st a2 where l: "load_todos (todo_list a) (disk a) = Inr st"
    and u: "update_todo_list (update_category_tabs (a\<lparr>todo_list := st\<rparr>)) = Inr a2"
    and e: "a1 = set_footer_text ''Reloaded todos from files'' a2"
    by (auto simp: reload_def split: sum.splits)
  have "todo_list a2 = st" using update_todo_list_Inr [OF u] by simp
  moreover have "modal a2 = modal a \<and> running a2 = running a"
    using update_todo_list_frame [OF u] by (simp add: update_category_tabs_def Let_def)
  moreover have "app_inv a1" using reload_ok [OF a] r by simp
  ultimately show ?thesis using l e by (simp add: set_footer_text_def)
qed

lemma reload_loaded:
  assumes a: "app_inv a" and l: "load_todos (todo_list a) (disk a) = Inr st"
  shows "\<exists>a'. reload a = Inr a' \<and> todo_list a' = st \<and> running a' = running a"
proof -
  have w: "wf_store st" using load_todos_wf [OF _ l] a by (simp add: app_inv_def cur_ok_def)
  let ?b = "update_category_tabs (a\<lparr>todo_list := st\<rparr>)"
  have "cur_ok ?b" using w a by (intro update_category_tabs_ok) (simp_all add: app_inv_def cur_ok_def)
  then obtain a2 where u: "update_todo_list ?b = Inr a2" by (simp add: update_todo_list_eq Let_def)
  have "todo_list a2 = st" "running a2 = running a"
    using update_todo_list_Inr [OF u] update_todo_list_frame [OF u] by (simp_all add: update_category_tabs_def Let_def)
  with l u show ?thesis by (simp add: reload_def set_footer_text_def)
qed

section \<open>Claims\<close>

text \<open>
  C3. In every state the program can reach, the store is well formed, the active tab is
  a position of the sorted category list, and the selection is 0 or a position of the
  list on that tab: the indexing in \<open>handle_input\<close> never goes out of range.
\<close>

theorem reachable_invariant:
  "reachable a \<Longrightarrow>
   wf_store (todo_list a) \<and> 0 \<le> current_category_idx a
   \<and> current_category_idx a < int (length (get_categories (todo_list a)))
   \<and> 0 \<le> selected_idx a \<and> (selected_idx a = 0 \<or> selected_idx a < int (length (shown_todos a)))"
  using reachable_app_inv [of a] by (simp add: app_inv_def cur_ok_def)

text \<open>
  C1. The program raises no IndexError or ValueError: on every configuration, every
  directory and every sequence of events, the only exceptions that can end it are a
  file of the directory that cannot be read (at start-up or on reload), a save that
  opens a file name that is not an entry of \<open>todo/\<close> (a category with a
  \<open>/\<close>), and the NameError of \<open>connect_signal\<close> on the help key.
\<close>

theorem run_app_errors:
  "run_app d cfg es = Inl err \<Longrightarrow>
   (\<exists>n. err = ReadError n) \<or> (\<exists>n. err = WriteError n \<and> \<not> plain_name n) \<or> err = NameError ''key_press''"
proof -
  assume r: "run_app d cfg es = Inl err"
  have "ok_result (run_app d cfg es)"
  proof (cases "init_app d cfg")
    case (Inl e)
    with init_app_ok [of d cfg] show ?thesis by (simp add: run_app_def)
  next
    case (Inr a)
    with init_app_ok [of d cfg] have "app_inv a" by simp
    with Inr show ?thesis by (simp add: run_app_def run_ok)
  qed
  with r show ?thesis by (cases err) auto
qed

text \<open>
  C13. No event removes a category: \<open>categories\<close> grows on load and on add, and is kept
  by every other operation, also when the last item of a category is deleted and on
  reload.
\<close>

theorem step_categories_grow:
  "step a e = Inr a' \<Longrightarrow> categories (todo_list a) \<subseteq> categories (todo_list a')"
  by (cases e) (auto simp: handle_input_def split: if_splits option.splits
                     dest!: do_action_grows dialog_event_grows)

theorem reachable_invariant_witness:
  "\<exists>a. init_app [] NoConfig = Inr a \<and> current_category_idx a < int (length (get_categories (todo_list a)))"
proof -
  have "\<exists>a. init_app [] NoConfig = Inr a"
    by (simp add: init_app_def init_store_def load_todos_def update_todo_list_def update_category_tabs_def
                  get_categories_def get_todos_by_category_def Let_def)
  then obtain a where i: "init_app [] NoConfig = Inr a" ..
  from reachable_invariant [OF reachable.init [OF i]] i show ?thesis by blast
qed

theorem run_app_errors_witness:
  "run_app [] NoConfig [Key ''?''] = Inl (NameError ''key_press'')
   \<and> ((\<exists>n. NameError ''key_press'' = ReadError n) \<or> (\<exists>n. NameError ''key_press'' = WriteError n \<and> \<not> plain_name n)
      \<or> NameError ''key_press'' = NameError ''key_press'')"
proof -
  have r: "run_app [] NoConfig [Key ''?''] = Inl (NameError ''key_press'')"
    by (simp add: run_app_def init_app_def init_store_def load_todos_def update_todo_list_def update_category_tabs_def
                  get_categories_def get_todos_by_category_def Let_def handle_input_def dispatch_def dispatch_order_def
                  default_keymap_def)
  from run_app_errors [OF r] r show ?thesis by simp
qed

theorem step_categories_grow_witness:
  "\<exists>a'. step (example_app\<lparr>modal := AddDialog ''b'' ''home''\<rparr>) ClickSave = Inr a'
     \<and> {uncategorized} \<subseteq> categories (todo_list a')"
proof -
  have "\<exists>a'. step (example_app\<lparr>modal := AddDialog ''b'' ''home''\<rparr>) ClickSave = Inr a'"
    by (simp add: add_on_save_def Let_def py_strip_def py_isspace_def field_category_def select_category_def
                  add_todo_eq get_categories_def finish_dialog_def update_category_tabs_def update_todo_list_def
                  get_todos_by_category_def set_footer_text_def mk_todo_item_def)
  then obtain a' where s: "step (example_app\<lparr>modal := AddDialog ''b'' ''home''\<rparr>) ClickSave = Inr a'" ..
  from step_categories_grow [OF s] s show ?thesis by auto
qed

end
