(* ===== verification/AppBehaviour.thy ===== *)
theory AppBehaviour
  imports AppInv
begin

text \<open>
  The behaviour of the key actions and dialog callbacks of \<open>TodoApp\<close>
  (\<open>src/mdtodo/mdtodo.py\<close>) from states that satisfy the invariant of \<open>AppInv\<close>:
  what add, toggle, the tab and move keys, delete and quit do, and the defects the model
  shows (an edit that leaves an item on no tab, a deleted item that comes back, a blank
  edit that loses the item, footer alarms that are not cancelled, the lost keymap error).
\<close>

lemma run_stopped: "\<not> running a \<Longrightarrow> run a es = Inr a"
  by (induction es) auto

text \<open>
  C12. The tab keys: \<open>category_next\<close> and \<open>category_prev\<close> move the active tab one step
  with wrap-around (Python's \<open>%\<close>) and reset the selection to the first item; the
  store is untouched.
\<close>

theorem category_switch:
  "app_inv a \<Longrightarrow>
   do_action Category_next a =
     Inr (redraw (a\<lparr>current_category_idx := (current_category_idx a + 1) mod int (length (get_categories (todo_list a))),
                    selected_idx := 0\<rparr>))
   \<and> do_action Category_prev a =
     Inr (redraw (a\<lparr>current_category_idx := (current_category_idx a - 1) mod int (length (get_categories (todo_list a))),
                    selected_idx := 0\<rparr>))"
  by (simp add: switch_category_eq redraw_def Let_def)

text \<open>
  C11. The toggle key flips the done mark of the selected item (of every list position of
  that object) and names its text in the footer; pressing it again restores the items.
\<close>

theorem toggle_key:
  "app_inv a \<Longrightarrow> dispatch (keys a) k = Some Toggle \<Longrightarrow> shown_todos a \<noteq> [] \<Longrightarrow>
   p = shown_todos a ! nat (selected_idx a) \<Longrightarrow>
   \<exists>a1 a2. handle_input k a = Inr a1 \<and> todo_list a1 = update_item (fst p) toggle (todo_list a)
     \<and> footer a1 = '' Toggled: '' @ todo_text (snd p) @ '' ''
     \<and> handle_input k a1 = Inr a2 \<and> todos (todo_list a2) = todos (todo_list a)"
proof -
  assume a: "app_inv a" and k: "dispatch (keys a) k = Some Toggle" and ne: "shown_todos a \<noteq> []"
    and p: "p = shown_todos a ! nat (selected_idx a)"
  define b where "b = a\<lparr>todo_list := update_item (fst p) toggle (todo_list a)\<rparr>"
  define a1 where "a1 = set_footer_text (''Toggled: '' @ todo_text (snd p)) (redraw_list b)"
  from toggle_selected_eq [OF a ne] have t1: "handle_input k a = Inr a1" and ib: "app_inv b"
    using k p by (simp_all add: handle_input_def a1_def b_def redraw_list_def Let_def)
  have i1: "app_inv a1" using ib by (simp add: a1_def redraw_list_def)
  have fst_eq: "map fst (shown_todos a1) = map fst (shown_todos a)"
    using shown_todos_update_item [where f = toggle and a = a and i = "fst p"]
    by (simp add: a1_def b_def set_footer_text_def shown_todos_def redraw_list_def)
  have sel: "selected_idx a1 = selected_idx a" by (simp add: a1_def b_def set_footer_text_def redraw_list_def)
  have rng: "nat (selected_idx a) < length (shown_todos a)"
    using a ne by (auto simp: app_inv_def cur_ok_def)
  have ne1: "shown_todos a1 \<noteq> []" using fst_eq ne by (metis map_is_Nil_conv)
  have same: "fst (shown_todos a1 ! nat (selected_idx a1)) = fst p"
    using fst_eq rng sel p by (metis length_map nth_map)
  have k1: "dispatch (keys a1) k = Some Toggle"
    using k by (simp add: a1_def b_def set_footer_text_def redraw_list_def)
  have tl1: "todo_list a1 = update_item (fst p) toggle (todo_list a)"
    by (simp add: a1_def b_def set_footer_text_def redraw_list_def)
  define a2 where "a2 = set_footer_text (''Toggled: '' @ todo_text (snd (shown_todos a1 ! nat (selected_idx a1))))
                          (redraw_list (a1\<lparr>todo_list := update_item (fst p) toggle (todo_list a1)\<rparr>))"
  from toggle_selected_eq [OF i1 ne1] k1 have t2: "handle_input k a1 = Inr a2"
    by (simp add: handle_input_def a2_def same redraw_list_def Let_def)
  have "todos (todo_list a2) = todos (todo_list a)"
    by (simp add: a2_def tl1 set_footer_text_def update_item_twice comp_def update_item_id [unfolded id_def] redraw_list_def)
  moreover have "footer a1 = '' Toggled: '' @ todo_text (snd p) @ '' ''"
    by (simp add: a1_def set_footer_text_def redraw_list_def)
  ultimately show ?thesis using t1 t2 tl1 by blast
qed

text \<open>
  C10. Saving the add dialog with a non-blank task appends one open item with the
  stripped text and the dialog's category (blank meaning \<open>"uncategorized"\<close>), registers
  the category, moves the active tab to it and closes the dialog.
\<close>

theorem add_on_save_selects:
  "app_inv a \<Longrightarrow> py_strip t \<noteq> [] \<Longrightarrow>
   \<exists>a'. add_on_save t c a = Inr a' \<and> modal a' = NoDialog
     \<and> todos (todo_list a') = todos (todo_list a) @
          [(next_oid (todo_list a), \<lparr>todo_text = py_strip t, todo_done = False, category = field_category c\<rparr>)]
     \<and> field_category c \<in> categories (todo_list a')
     \<and> get_categories (todo_list a') ! nat (current_category_idx a') = field_category c"
proof -
  assume a: "app_inv a" and t: "py_strip t \<noteq> []"
  define st1 where "st1 = snd (add_todo (py_strip t) (field_category c) (todo_list a))"
  define a1 where "a1 = a\<lparr>todo_list := st1\<rparr>"
  have w1: "wf_store st1" using a by (simp add: st1_def app_inv_def cur_ok_def add_todo_wf)
  have todos1: "todos st1 = todos (todo_list a) @
          [(next_oid (todo_list a), \<lparr>todo_text = py_strip t, todo_done = False, category = field_category c\<rparr>)]"
    and cats1: "field_category c \<in> categories st1"
    by (simp_all add: st1_def add_todo_eq mk_todo_item_def field_category_nonempty)
  with w1 have "field_category c \<in> set (get_categories (todo_list a1))"
    by (simp add: a1_def get_categories_set wf_store_def)
  then obtain j where sel: "select_category (field_category c) a1 = Inr (a1\<lparr>current_category_idx := j\<rparr>)"
    and j: "0 \<le> j" "j < int (length (get_categories (todo_list a1)))"
           "get_categories (todo_list a1) ! nat j = field_category c"
    by (blast dest: select_category_found)
  have "cur_ok (a1\<lparr>current_category_idx := j\<rparr>)"
    using a w1 j by (simp add: a1_def app_inv_def cur_ok_def)
  with sel t j todos1 cats1 show ?thesis
    by (simp add: add_on_save_def Let_def st1_def [symmetric] a1_def [symmetric] finish_dialog_eq
                  set_footer_text_def) (simp add: a1_def)
qed

text \<open>
  C27. The edit dialog may give an item a category that is not registered: the
  category invariant of the store (every item's category is in \<open>categories\<close>) is
  broken, and the item is on no tab, so it cannot be selected, toggled, edited or
  deleted until the files are reloaded.
\<close>

theorem edit_unregistered_category:
  "app_inv a \<Longrightarrow> i \<in> fst ` set (todos (todo_list a)) \<Longrightarrow> field_category c \<notin> categories (todo_list a) \<Longrightarrow>
   edit_on_save i t c a = Inr a' \<Longrightarrow>
   \<not> cats_ok (todo_list a')
   \<and> (\<forall>k \<in> set (get_categories (todo_list a')). i \<notin> fst ` set (get_todos_by_category k (todo_list a')))"
proof -
  assume a: "app_inv a" and i: "i \<in> fst ` set (todos (todo_list a))"
    and c: "field_category c \<notin> categories (todo_list a)" and e: "edit_on_save i t c a = Inr a'"
  let ?f = "\<lambda>it. it\<lparr>todo_text := py_strip t, category := field_category c\<rparr>"
  have st: "todo_list a' = update_item i ?f (todo_list a)" by (rule edit_on_save_store [OF e])
  have fin: "finite (categories (todo_list a))"
    using a by (simp add: app_inv_def cur_ok_def wf_store_def)
  from i obtain y where "(i, y) \<in> set (todos (todo_list a))" by force
  then have "(i, ?f y) \<in> set (todos (todo_list a'))"
    unfolding st by (rule update_item_member_of)
  with c st have "\<not> cats_ok (todo_list a')" by (force simp: cats_ok_def)
  moreover have "i \<notin> fst ` set (get_todos_by_category k (todo_list a'))"
    if "k \<in> set (get_categories (todo_list a'))" for k
  proof
    assume "i \<in> fst ` set (get_todos_by_category k (todo_list a'))"
    then obtain x where "(i, x) \<in> set (todos (todo_list a'))" "category x = k"
      by (auto simp: get_todos_by_category_def)
    with update_item_member [of i x i ?f] st have "k = field_category c" by force
    with that c fin st show False by (simp add: get_categories_set)
  qed
  ultimately show ?thesis by blast
qed

text \<open>
  C29. Saving the edit dialog with a blank task field empties the text of the item, and
  no line of any file can hold an item with an empty text: after the next save and
  reload the item is gone.
\<close>

theorem blank_edit_lost:
  "edit_on_save i t c a = Inr a' \<Longrightarrow> py_strip t = [] \<Longrightarrow> (i, it) \<in> set (todos (todo_list a')) \<Longrightarrow>
   todo_text it = [] \<and> (\<forall>s. it \<notin> set (parse_content s))"
proof -
  assume e: "edit_on_save i t c a = Inr a'" and t: "py_strip t = []" and m: "(i, it) \<in> set (todos (todo_list a'))"
  then obtain y where "it = y\<lparr>todo_text := py_strip t, category := field_category c\<rparr>"
    using update_item_member edit_on_save_store [OF e] by metis
  with t have "todo_text it = []" by simp
  then show ?thesis using parse_content_text_nonempty by blast
qed

text \<open>
  C32. The footer alarms of \<open>set_footer_text\<close>: a message with no other message
  pending is shown for two ticks and replaced by the default text at the third, which
  also drops its alarm. An earlier alarm is not cancelled by a later message: a message
  set two ticks after another is replaced by the default text one tick later, not three.
\<close>

theorem footer_alarm_early:
  "(alarms a = [] \<longrightarrow>
      footer ((tick ^^ 2) (set_footer_text m a)) = '' '' @ m @ '' ''
      \<and> footer ((tick ^^ 3) (set_footer_text m a)) = default_footer
      \<and> alarms ((tick ^^ 3) (set_footer_text m a)) = [])
   \<and> footer (set_footer_text m2 (tick (tick (set_footer_text m1 a)))) = '' '' @ m2 @ '' ''
   \<and> footer (tick (set_footer_text m2 (tick (tick (set_footer_text m1 a))))) = default_footer"
  by (simp add: set_footer_text_def tick_def Let_def list_ex_iff numeral_3_eq_3 numeral_2_eq_2)

text \<open>
  C33. The footer after start-up is the default text whatever the configuration: the
  message of a keymap that fails to load is overwritten before it is shown; the keymap
  is the one \<open>load_keymap\<close> returns, on the first tab with the first item selected.
\<close>

theorem init_app_footer:
  "init_app d cfg = Inr a \<Longrightarrow>
   footer a = default_footer \<and> keys a = fst (load_keymap cfg)
   \<and> current_category_idx a = 0 \<and> selected_idx a = 0"
  by (auto simp: init_app_def Let_def update_category_tabs_def update_todo_list_def py_get_def
           split: sum.splits prod.splits if_splits)

text \<open>
  C14. The move keys change the selection by one within the list of the active tab,
  without wrap-around; at either end the key does nothing.
\<close>

theorem move_keys:
  "app_inv a \<Longrightarrow>
   do_action Move_down a =
     Inr (if selected_idx a < int (length (shown_todos a)) - 1
          then redraw_list (a\<lparr>selected_idx := selected_idx a + 1\<rparr>) else a)
   \<and> do_action Move_up a = Inr (if 0 < selected_idx a then redraw_list (a\<lparr>selected_idx := selected_idx a - 1\<rparr>) else a)"
proof -
  assume a: "app_inv a"
  then have c: "cur_ok a" by (rule app_inv_cur_ok)
  have sel: "selected_idx a = 0 \<or> selected_idx a < int (length (shown_todos a))"
    using a by (simp add: app_inv_def)
  have "cur_ok (a\<lparr>selected_idx := selected_idx a + 1\<rparr>)" "cur_ok (a\<lparr>selected_idx := selected_idx a - 1\<rparr>) \<or> selected_idx a \<le> 0"
    using c by (auto simp: cur_ok_def)
  moreover have "get_categories (todo_list a) \<noteq> []"
    using c by (simp add: cur_ok_def wf_categories_nonempty)
  ultimately show ?thesis using sel c
    by (auto simp: move_down_def current_todos_eq update_todo_list_keep shown_todos_def redraw_list_def)
qed

text \<open>
  C15. Confirming the delete dialog removes the object from the items and from the map of
  file names, keeps the categories, and closes the dialog.
\<close>

theorem delete_on_yes_removes:
  "app_inv a \<Longrightarrow>
   \<exists>a'. delete_on_yes i a = Inr a' \<and> modal a' = NoDialog
     \<and> todos (todo_list a') = remove_oid i (todos (todo_list a))
     \<and> i \<notin> fst ` set (todos (todo_list a')) \<and> todo_files (todo_list a') i = None
     \<and> categories (todo_list a') = categories (todo_list a)"
proof -
  assume a: "app_inv a"
  let ?st = "todo_list a"
  have w: "wf_store ?st" using a by (simp add: app_inv_def cur_ok_def)
  have c: "cur_ok (a\<lparr>todo_list := delete_todo i ?st\<rparr>)"
    using a by (simp add: app_inv_def cur_ok_def delete_todo_wf get_categories_def)
  have d: "distinct (map fst (todos ?st))" and dom: "dom (todo_files ?st) \<subseteq> set (map fst (todos ?st))"
    using w by (simp_all add: wf_store_def)
  have t: "todos (delete_todo i ?st) = remove_oid i (todos ?st)"
    by (auto simp: delete_todo_def remove_oid_absent)
  have gone: "i \<notin> fst ` set (remove_oid i (todos ?st))"
    using remove_oid_distinct [OF d, of i] by auto
  have f: "todo_files (delete_todo i ?st) i = None"
    using dom by (auto simp: delete_todo_def)
  from c t gone f show ?thesis
    by (simp add: delete_on_yes_def update_todo_list_eq set_footer_text_def delete_todo_wf(3) Let_def)
qed

text \<open>
  C21. The quit key ends the main loop: the state is left as it was, nothing is saved,
  and no later event has an effect.
\<close>

theorem quit_stops:
  "dispatch (keys a) k = Some Quit \<Longrightarrow> running a \<Longrightarrow> run a (Key k # es) = Inr (a\<lparr>running := False\<rparr>)"
  by (simp add: handle_input_def run_stopped)

text \<open>
  C28. A reload while the delete dialog is open voids the confirmation: the reload key
  reaches \<open>handle_input\<close> under the dialog and replaces every object, so the object
  \<open>on_yes\<close> captured is no longer listed. The dialog stays open; confirming it then
  deletes nothing, yet the footer reports \<open>Deleted todo\<close>.
\<close>

theorem reload_voids_delete:
  assumes a: "app_inv a" and m: "modal a = DeleteDialog i s" and i: "i \<in> fst ` set (todos (todo_list a))"
    and r: "running a" and k: "dispatch (keys a) k = Some Reload" and s1: "step a (Key k) = Inr a1"
  shows "modal a1 = DeleteDialog i s \<and> i \<notin> fst ` set (todos (todo_list a1))
         \<and> (\<exists>a2. step a1 ClickYes = Inr a2 \<and> todos (todo_list a2) = todos (todo_list a1)
                 \<and> footer a2 = '' Deleted todo '' \<and> modal a2 = NoDialog)"
proof -
  have re: "reload a = Inr a1" using s1 r k by (simp add: handle_input_def)
  note p = reload_parts [OF a re]
  have "i < next_oid (todo_list a)"
    using a i by (auto simp: app_inv_def cur_ok_def wf_store_def)
  then have gone: "i \<notin> fst ` set (todos (todo_list a1))"
    using load_todos_fresh [of "todo_list a" "disk a" "todo_list a1" i] p by auto
  have c1: "cur_ok a1" using p by (simp add: app_inv_cur_ok)
  obtain a3 where u: "update_todo_list a1 = Inr a3" and t3: "todo_list a3 = todo_list a1"
    using c1 by (simp add: update_todo_list_eq Let_def)
  have "delete_todo i (todo_list a1) = todo_list a1" using gone by (simp add: delete_todo_def)
  then have "step a1 ClickYes = Inr ((set_footer_text ''Deleted todo'' a3)\<lparr>modal := NoDialog\<rparr>)"
    using p m r u by (simp add: delete_on_yes_def)
  then show ?thesis using p m gone t3 by (simp add: set_footer_text_def)
qed

text \<open>
  C6. Saving then reloading, the two keys in a row, gives back the items (as a multiset),
  composing the handlers with \<open>save_todos\<close>, the file writer and \<open>load_todos\<close>:
  provided every item can be written safely, the file names are \<open>*.md\<close> entries of
  \<open>todo/\<close> (no \<open>/\<close>, no line break), and no other \<open>*.md\<close> file is left in
  the directory.
\<close>

theorem save_reload_keeps_items:
  assumes a: "app_inv a" and r: "running a"
    and ks: "dispatch (keys a) ks = Some Save" and kr: "dispatch (keys a) kr = Some Reload"
    and safe: "\<forall>p \<in> set (todos (todo_list a)). line_safe (snd p)"
    and names: "\<forall>w \<in> set (fst (save_todos (todo_list a))).
                  glob_md (fst w) \<and> CHR ''/'' \<notin> set (fst w) \<and> list_all (\<lambda>x. \<not> is_linebreak x) (fst w)"
    and stale: "\<forall>e \<in> set (disk a). glob_md (fst e) \<longrightarrow> fst e \<in> fst ` set (fst (save_todos (todo_list a)))"
    and dist: "distinct (map fst (disk a))"
  shows "\<exists>a'. run a [Key ks, Key kr] = Inr a'
           \<and> mset (map snd (todos (todo_list a'))) = mset (map snd (todos (todo_list a)))"
proof -
  obtain ws st1 where sv: "save_todos (todo_list a) = (ws, st1)" by fastforce
  define a1 where "a1 = set_footer_text ''Todos saved successfully!'' (a\<lparr>todo_list := st1, disk := apply_writes (disk a) ws\<rparr>)"
  have "save_writes (disk a) ws = Inr (apply_writes (disk a) ws)"
    using names sv by (intro save_writes_plain) (auto intro: glob_md_plain)
  then have sav: "save a = Inr a1" using sv by (simp add: save_def a1_def)
  have s1: "step a (Key ks) = Inr a1" using r ks sav by (simp add: handle_input_def)
  have sa: "todo_list a1 = st1" "disk a1 = apply_writes (disk a) ws" "running a1" "keys a1 = keys a"
    using r by (simp_all add: a1_def set_footer_text_def)
  obtain st2 where l: "load_todos st1 (apply_writes (disk a) ws) = Inr st2"
    and m: "mset (map snd (todos st2)) = mset (map snd (todos (todo_list a)))"
  proof -
    have n': "\<forall>w \<in> set ws. glob_md (fst w) \<and> list_all (\<lambda>x. \<not> is_linebreak x) (fst w)"
      and s': "\<forall>e \<in> set (disk a). glob_md (fst e) \<longrightarrow> fst e \<in> fst ` set ws"
      using names stale sv by simp_all
    from save_load_items [OF sv safe n' s' dist] show ?thesis using that by blast
  qed
  have i1: "app_inv a1" using save_ok [OF a] sav by simp
  obtain a' where re: "reload a1 = Inr a'" and t: "todo_list a' = st2"
    using reload_loaded [OF i1] l sa by auto
  have "step a1 (Key kr) = Inr a'" using sa kr re by (simp add: handle_input_def)
  with s1 have "run a [Key ks, Key kr] = Inr a'" by (simp del: step.simps)
  with t m show ?thesis by blast
qed

theorem category_switch_witness:
  "do_action Category_next example_app = Inr example_app \<and> do_action Category_prev example_app = Inr example_app"
  using category_switch [OF example_app_inv]
  by (simp add: get_categories_def redraw_def tabs_view_def walker_view_def shown_todos_def get_todos_by_category_def
                tab_markup_def todo_widgets_def todo_row_def)

theorem toggle_key_witness:
  "\<exists>a1 a2. handle_input ''space'' example_app = Inr a1 \<and> map (todo_done \<circ> snd) (todos (todo_list a1)) = [True]
     \<and> handle_input ''space'' a1 = Inr a2 \<and> todos (todo_list a2) = todos (todo_list example_app)"
proof -
  have k: "dispatch (keys example_app) ''space'' = Some Toggle"
    by (simp add: dispatch_def dispatch_order_def default_keymap_def)
  have sh: "shown_todos example_app = [(0, \<lparr>todo_text = ''a'', todo_done = False, category = uncategorized\<rparr>)]"
    by (simp add: shown_todos_def get_categories_def get_todos_by_category_def)
  from toggle_key [OF example_app_inv k, of "(0, \<lparr>todo_text = ''a'', todo_done = False, category = uncategorized\<rparr>)"] sh
  show ?thesis by (auto simp: update_item_def toggle_def)
qed

theorem add_on_save_selects_witness:
  "\<exists>a'. add_on_save ''b'' ''home'' example_app = Inr a'
     \<and> get_categories (todo_list a') ! nat (current_category_idx a') = ''home''"
proof -
  have s: "py_strip ''b'' = ''b''" "py_strip ''home'' = ''home''" by (simp_all add: py_strip_def py_isspace_def)
  from add_on_save_selects [OF example_app_inv, of "''b''" "''home''"] s
  show ?thesis by (auto simp: field_category_def)
qed

theorem edit_unregistered_category_witness:
  "\<exists>a'. edit_on_save 0 ''b'' ''work'' example_app = Inr a' \<and> \<not> cats_ok (todo_list a')"
proof -
  obtain a' where e: "edit_on_save 0 ''b'' ''work'' example_app = Inr a'"
    using edit_on_save_Inr [OF example_app_inv] by blast
  have "field_category ''work'' = ''work''" by (simp add: field_category_def py_strip_def py_isspace_def)
  with edit_unregistered_category [OF example_app_inv _ _ e] e show ?thesis by auto
qed

theorem blank_edit_lost_witness:
  "\<exists>a' it. edit_on_save 0 '' '' [] example_app = Inr a' \<and> (0, it) \<in> set (todos (todo_list a'))
     \<and> todo_text it = [] \<and> it \<notin> set (parse_content ''- [ ] '')"
proof -
  obtain a' where e: "edit_on_save 0 '' '' [] example_app = Inr a'"
    using edit_on_save_Inr [OF example_app_inv] by blast
  have t: "py_strip '' '' = []" by (simp add: py_strip_def)
  define it where "it = \<lparr>todo_text = py_strip '' '', todo_done = False, category = field_category []\<rparr>"
  have m: "(0, it) \<in> set (todos (todo_list a'))"
    by (simp add: edit_on_save_store [OF e] update_item_def it_def)
  from blank_edit_lost [OF e t m] e m show ?thesis by blast
qed

theorem init_app_footer_witness:
  "\<exists>a. init_app [] Malformed = Inr a \<and> footer a = default_footer \<and> keys a = default_keymap"
proof -
  have "\<exists>a. init_app [] Malformed = Inr a"
    by (simp add: init_app_def init_store_def load_todos_def update_todo_list_def update_category_tabs_def
                  get_categories_def get_todos_by_category_def Let_def)
  then obtain a where i: "init_app [] Malformed = Inr a" ..
  from init_app_footer [OF i] i show ?thesis by simp
qed

theorem move_keys_witness:
  "do_action Move_down example_app = Inr example_app \<and> do_action Move_up example_app = Inr example_app"
  using move_keys [OF example_app_inv] by (simp add: shown_todos_def get_categories_def get_todos_by_category_def)

theorem delete_on_yes_removes_witness:
  "\<exists>a'. delete_on_yes 0 example_app = Inr a' \<and> todos (todo_list a') = []"
  using delete_on_yes_removes [OF example_app_inv, of 0] by auto

theorem quit_stops_witness: "run example_app [Key ''q'', Key ''a''] = Inr (example_app\<lparr>running := False\<rparr>)"
  using quit_stops [of example_app "''q''" "[Key ''a'']"]
  by (simp add: dispatch_def dispatch_order_def default_keymap_def)

theorem reload_voids_delete_witness:
  "\<exists>a1 a2. step (example_app\<lparr>modal := DeleteDialog 0 ''a''\<rparr>) (Key ''r'') = Inr a1
     \<and> step a1 ClickYes = Inr a2 \<and> footer a2 = '' Deleted todo ''
     \<and> map snd (todos (todo_list a2)) = [\<lparr>todo_text = ''a'', todo_done = False, category = uncategorized\<rparr>]"
proof -
  have "\<exists>a1. step (example_app\<lparr>modal := DeleteDialog 0 ''a''\<rparr>) (Key ''r'') = Inr a1
     \<and> map snd (todos (todo_list a1)) = [\<lparr>todo_text = ''a'', todo_done = False, category = uncategorized\<rparr>]"
    by (simp add: handle_input_def dispatch_def dispatch_order_def default_keymap_def reload_def load_todos_def
       glob_md_def py_splitlines_def tag_suffix_def match_body_def py_isspace_def py_isword_def is_linebreak_def
       mk_todo_item_def append_new_def update_todo_list_def update_category_tabs_def get_categories_def
       get_todos_by_category_def set_footer_text_def Let_def)
  then obtain a1 where s1: "step (example_app\<lparr>modal := DeleteDialog 0 ''a''\<rparr>) (Key ''r'') = Inr a1"
    and t1: "map snd (todos (todo_list a1)) = [\<lparr>todo_text = ''a'', todo_done = False, category = uncategorized\<rparr>]"
    by (elim exE conjE)
  have ia: "app_inv (example_app\<lparr>modal := DeleteDialog 0 ''a''\<rparr>)"
    unfolding app_inv_view(2) by (rule example_app_inv)
  have i0: "(0::nat) \<in> fst ` set (todos (todo_list (example_app\<lparr>modal := DeleteDialog 0 ''a''\<rparr>)))" by simp
  have k0: "dispatch (keys (example_app\<lparr>modal := DeleteDialog 0 ''a''\<rparr>)) ''r'' = Some Reload"
    by (simp add: dispatch_def dispatch_order_def default_keymap_def)
  from reload_voids_delete [OF ia _ i0 _ k0 s1]
  obtain a2 where y: "step a1 ClickYes = Inr a2" and t2: "todos (todo_list a2) = todos (todo_list a1)"
    and f2: "footer a2 = '' Deleted todo ''" by (auto simp del: step.simps)
  from t1 t2 have "map snd (todos (todo_list a2)) = [\<lparr>todo_text = ''a'', todo_done = False, category = uncategorized\<rparr>]"
    by simp
  with s1 y f2 show ?thesis by (intro exI conjI)
qed

theorem footer_alarm_early_witness:
  "footer ((tick ^^ 3) (set_footer_text ''hi'' example_app)) = default_footer"
  using footer_alarm_early [of example_app "''hi''"] by simp

theorem save_reload_keeps_items_witness:
  "\<exists>a'. run example_app [Key ''w'', Key ''r''] = Inr a'
     \<and> mset (map snd (todos (todo_list a'))) = {#\<lparr>todo_text = ''a'', todo_done = False, category = uncategorized\<rparr>#}"
proof -
  have ks: "dispatch (keys example_app) ''w'' = Some Save" and kr: "dispatch (keys example_app) ''r'' = Some Reload"
    by (simp_all add: dispatch_def dispatch_order_def default_keymap_def)
  have safe: "\<forall>p \<in> set (todos (todo_list example_app)). line_safe (snd p)" by code_simp
  have names: "\<forall>w \<in> set (fst (save_todos (todo_list example_app))).
                 glob_md (fst w) \<and> CHR ''/'' \<notin> set (fst w) \<and> list_all (\<lambda>x. \<not> is_linebreak x) (fst w)"
    by code_simp
  have stale: "\<forall>e \<in> set (disk example_app). glob_md (fst e) \<longrightarrow> fst e \<in> fst ` set (fst (save_todos (todo_list example_app)))"
    by code_simp
  have dist: "distinct (map fst (disk example_app))" by simp
  from save_reload_keeps_items [OF example_app_inv _ ks kr safe names stale dist] show ?thesis by simp
qed

end
