(* ===== verification/MainLoop.thy ===== *)
theory MainLoop
  imports AppInv "HOL-Library.Stream"
begin

text \<open>
  The urwid main loop of \<open>TodoApp.run\<close> and the \<open>try\<close>/\<open>except\<close> of \<open>main\<close>
  (\<open>src/mdtodo/mdtodo.py\<close>, lines 563 to 585). The loop takes events from an unbounded
  input stream until \<open>handle_input\<close> raises \<open>ExitMainLoop\<close> (the quit key) or an
  exception escapes; Ctrl-C raises \<open>KeyboardInterrupt\<close> out of \<open>app.run()\<close>, and
  \<open>main\<close> then saves the store. Without a quit key or Ctrl-C the loop does not return:
  it is a \<open>partial_function (option)\<close>, \<open>None\<close> meaning that it runs forever.
\<close>

datatype input = Ev event | Interrupt

text \<open>\<open>except KeyboardInterrupt: app.todo_list.save_todos()\<close>, after which the program
  ends; an error of the writes escapes \<open>main\<close>.\<close>

definition exit_save :: "app \<Rightarrow> py_error + app" where
  "exit_save a =
     (let (ws, st) = save_todos (todo_list a)
      in case save_writes (disk a) ws of
           Inl e \<Rightarrow> Inl e
         | Inr d \<Rightarrow> Inr (a\<lparr>todo_list := st, disk := d, running := False\<rparr>))"

partial_function (option) main_loop :: "app \<Rightarrow> input stream \<Rightarrow> (py_error + app) option" where
  "main_loop a ins =
     (if \<not> running a then Some (Inr a)
      else (case shd ins of
              Interrupt \<Rightarrow> Some (exit_save a)
            | Ev e \<Rightarrow> (case step a e of
                         Inl err \<Rightarrow> Some (Inl err)
                       | Inr a' \<Rightarrow> main_loop a' (stl ins))))"

definition main_prog :: "disk \<Rightarrow> config \<Rightarrow> input stream \<Rightarrow> (py_error + app) option" where
  "main_prog d cfg ins = (case init_app d cfg of Inl e \<Rightarrow> Some (Inl e) | Inr a \<Rightarrow> main_loop a ins)"

text \<open>An input that ends the loop: Ctrl-C, or a key bound to the quit action.\<close>

fun stops :: "keymap \<Rightarrow> input \<Rightarrow> bool" where
  "stops km Interrupt = True"
| "stops km (Ev (Key k)) = (dispatch km k = Some Quit)"
| "stops km (Ev _) = False"

lemma update_category_tabs_frame [simp]:
  "keys (update_category_tabs a) = keys a" "running (update_category_tabs a) = running a"
  by (simp_all add: update_category_tabs_def Let_def)

lemma keys_helpers:
  "update_todo_list a = Inr a' \<Longrightarrow> keys a' = keys a"
  "select_category c a = Inr a' \<Longrightarrow> keys a' = keys a"
  "finish_dialog msg a = Inr a' \<Longrightarrow> keys a' = keys a"
  by (auto simp: update_todo_list_def select_category_def finish_dialog_def Let_def set_footer_text_def
                 update_category_tabs_def split: if_splits sum.splits)

lemma keys_dialog_event: "dialog_event m e a = Inr a' \<Longrightarrow> keys a' = keys a"
  by (induction m e a rule: dialog_event.induct)
     (auto simp: add_on_save_def edit_on_save_def delete_on_yes_def Let_def set_footer_text_def
           split: sum.splits if_splits dest!: keys_helpers)

lemma keys_do_action: "do_action act a = Inr a' \<Longrightarrow> keys a' = keys a"
  by (cases act)
     (auto simp: save_def reload_def show_add_dialog_def switch_category_def move_down_def toggle_selected_def
                 target_dialog_def Let_def set_footer_text_def
           split: sum.splits option.splits if_splits prod.splits dest!: keys_helpers)

lemma keys_step: "step a e = Inr a' \<Longrightarrow> keys a' = keys a"
  by (cases e) (auto simp: handle_input_def tick_def Let_def split: if_splits option.splits
                     dest!: keys_do_action keys_dialog_event)

lemma running_helpers:
  "update_todo_list a = Inr a' \<Longrightarrow> running a' = running a"
  "select_category c a = Inr a' \<Longrightarrow> running a' = running a"
  "finish_dialog msg a = Inr a' \<Longrightarrow> running a' = running a"
  by (auto simp: update_todo_list_def select_category_def finish_dialog_def Let_def set_footer_text_def
                 update_category_tabs_def split: if_splits sum.splits)

lemma running_dialog_event: "dialog_event m e a = Inr a' \<Longrightarrow> running a' = running a"
  by (induction m e a rule: dialog_event.induct)
     (auto simp: add_on_save_def edit_on_save_def delete_on_yes_def Let_def set_footer_text_def
           split: sum.splits if_splits dest!: running_helpers)

lemma running_do_action: "do_action act a = Inr a' \<Longrightarrow> act \<noteq> Quit \<Longrightarrow> running a' = running a"
  by (cases act)
     (auto simp: save_def reload_def show_add_dialog_def switch_category_def move_down_def toggle_selected_def
                 target_dialog_def Let_def set_footer_text_def
           split: sum.splits option.splits if_splits prod.splits dest!: running_helpers)

lemma running_step: "step a e = Inr a' \<Longrightarrow> \<not> stops (keys a) (Ev e) \<Longrightarrow> running a' = running a"
  by (cases e) (auto simp: handle_input_def tick_def Let_def split: if_splits option.splits
                     dest!: running_do_action running_dialog_event)

lemma main_loop_quit:
  "running a \<Longrightarrow> dispatch (keys a) k = Some Quit \<Longrightarrow> main_loop a (Ev (Key k) ## ins) = Some (Inr (a\<lparr>running := False\<rparr>))"
  by (simp add: main_loop.simps [of a] main_loop.simps [of "a\<lparr>running := False\<rparr>"] handle_input_def)

text \<open>
  C17. The main loop returns once the input reaches Ctrl-C or a key bound to the quit
  action (earlier, if an exception escapes): the keymap does not change while the loop
  runs, so a quit key stays one.
\<close>

theorem main_loop_returns: "stops (keys a) (ins !! n) \<Longrightarrow> \<exists>r. main_loop a ins = Some r"
proof (induction n arbitrary: a ins)
  case 0
  show ?case
  proof (cases "running a")
    case True
    show ?thesis
    proof (cases "shd ins")
      case (Ev e)
      with 0 obtain k where k: "shd ins = Ev (Key k)" "dispatch (keys a) k = Some Quit"
        by (cases e) auto
      have "ins = Ev (Key k) ## stl ins" using k(1) by (metis stream.collapse)
      with main_loop_quit [OF True k(2), of "stl ins"] show ?thesis by metis
    next
      case Interrupt
      with True show ?thesis by (simp add: main_loop.simps [of a] del: step.simps)
    qed
  qed (simp add: main_loop.simps [of a] del: step.simps)
next
  case (Suc n)
  show ?case
  proof (cases "running a")
    case True
    show ?thesis
    proof (cases "shd ins")
      case (Ev e)
      show ?thesis
      proof (cases "step a e")
        case (Inr a')
        with keys_step have "stops (keys a') (stl ins !! n)" using Suc.prems by (simp del: step.simps)
        then obtain r where "main_loop a' (stl ins) = Some r" using Suc.IH by blast
        with True Ev Inr show ?thesis by (simp add: main_loop.simps [of a] del: step.simps)
      qed (simp add: main_loop.simps [of a] True Ev del: step.simps)
    next
      case Interrupt
      with True show ?thesis by (simp add: main_loop.simps [of a] del: step.simps)
    qed
  qed (simp add: main_loop.simps [of a] del: step.simps)
qed

lemma main_loop_run_exit:
  "running a \<Longrightarrow> list_all (\<lambda>e. \<not> stops (keys a) (Ev e)) es \<Longrightarrow>
   main_loop a (map Ev es @- Interrupt ## rest)
     = (case run a es of Inl err \<Rightarrow> Some (Inl err) | Inr a' \<Rightarrow> Some (exit_save a'))"
proof (induction es arbitrary: a)
  case Nil
  then show ?case by (simp add: main_loop.simps)
next
  case (Cons e es)
  show ?case
  proof (cases "step a e")
    case (Inr a')
    have "running a'" using running_step [OF Inr] Cons.prems by simp
    moreover have "list_all (\<lambda>e. \<not> stops (keys a') (Ev e)) es"
      using keys_step [OF Inr] Cons.prems(2) by simp
    ultimately show ?thesis
      using Cons.IH Inr Cons.prems(1) by (simp add: main_loop.simps [of a] del: step.simps)
  qed (simp add: main_loop.simps [of a] Cons.prems(1) del: step.simps)
qed

text \<open>
  C18. Ctrl-C after a sequence of events that contains no quit key ends the program in
  the state that \<open>run\<close> reaches on those events, saved by the handler of
  \<open>main\<close>: the store gets the file names \<open>save_todos\<close> records, the disk the
  files it writes (or the program ends with the error of a write), and the loop is
  stopped.
\<close>

theorem main_loop_interrupt:
  "running a \<Longrightarrow> list_all (\<lambda>e. \<not> stops (keys a) (Ev e)) es \<Longrightarrow>
   main_loop a (map Ev es @- Interrupt ## rest)
     = (case run a es of
          Inl err \<Rightarrow> Some (Inl err)
        | Inr a' \<Rightarrow> Some (case save_writes (disk a') (fst (save_todos (todo_list a'))) of
                     Inl e \<Rightarrow> Inl e
                   | Inr d \<Rightarrow> Inr (a'\<lparr>todo_list := snd (save_todos (todo_list a')), disk := d, running := False\<rparr>)))"
  by (simp add: main_loop_run_exit exit_save_def split: prod.split sum.split)

lemma exit_save_ok:
  "app_inv a \<Longrightarrow> ok_result (exit_save a) \<and> (case exit_save a of Inl _ \<Rightarrow> True | Inr a' \<Rightarrow> \<not> running a')"
proof (cases "save_writes (disk a) (fst (save_todos (todo_list a)))")
  case (Inl e)
  then show ?thesis using save_writes_error [OF Inl] by (auto simp: exit_save_def case_prod_unfold)
next
  case (Inr d)
  assume a: "app_inv a"
  from a have "wf_store (todo_list a)" by (simp add: app_inv_def cur_ok_def)
  from save_todos_wf [OF this] a have "app_inv (a\<lparr>todo_list := snd (save_todos (todo_list a))\<rparr>)"
    by (intro app_inv_same_items) auto
  with Inr show ?thesis by (simp add: exit_save_def case_prod_unfold)
qed

lemma main_loop_ok:
  assumes ret: "main_loop a ins = Some r"
  shows "app_inv a \<longrightarrow> ok_result r \<and> (case r of Inl _ \<Rightarrow> True | Inr a' \<Rightarrow> \<not> running a')"
proof (rule main_loop.raw_induct [where P = "\<lambda>a ins r. app_inv a \<longrightarrow>
          ok_result r \<and> (case r of Inl _ \<Rightarrow> True | Inr a' \<Rightarrow> \<not> running a')", OF _ ret])
  fix f a ins r
  assume IH: "\<And>a ins r. f a ins = Some r \<Longrightarrow> app_inv a \<longrightarrow>
                 ok_result r \<and> (case r of Inl _ \<Rightarrow> True | Inr a' \<Rightarrow> \<not> running a')"
    and eq: "(if \<not> running a then Some (Inr a)
           else (case shd ins of
                   Interrupt \<Rightarrow> Some (exit_save a)
                 | Ev e \<Rightarrow> (case step a e of Inl err \<Rightarrow> Some (Inl err) | Inr a' \<Rightarrow> f a' (stl ins)))) = Some r"
  show "app_inv a \<longrightarrow> ok_result r \<and> (case r of Inl _ \<Rightarrow> True | Inr a' \<Rightarrow> \<not> running a')"
  proof
    assume inv: "app_inv a"
    show "ok_result r \<and> (case r of Inl _ \<Rightarrow> True | Inr a' \<Rightarrow> \<not> running a')"
    proof (cases "running a")
      case False
      with eq inv have "r = Inr a" by simp
      with inv False show ?thesis by simp
    next
      case True
      show ?thesis
      proof (cases "shd ins")
        case Interrupt
        with True eq exit_save_ok [OF inv] show ?thesis by auto
      next
        case (Ev e)
        show ?thesis
        proof (cases "step a e")
          case (Inl err)
          with True Ev eq have "r = Inl err" by (simp del: step.simps)
          with Inl step_ok [OF inv, of e] show ?thesis by (simp del: step.simps)
        next
          case (Inr a')
          with step_ok [OF inv, of e] have "app_inv a'" by (simp del: step.simps)
          moreover from Inr True Ev eq have "f a' (stl ins) = Some r" by (simp del: step.simps)
          ultimately show ?thesis using IH by blast
        qed
      qed
    qed
  qed
qed

text \<open>
  C2. Whenever the whole program ends, it ends either with one of the exceptions of C1
  (a file that cannot be read, a write to a name that is not an entry of
  \<open>todo/\<close>, also in the save of the Ctrl-C handler, or the help key's NameError) or
  normally with the loop stopped and the invariant of \<open>AppInv\<close> holding; no other
  exception escapes \<open>main\<close>.
\<close>

theorem main_prog_safe:
  "main_prog d cfg ins = Some r \<Longrightarrow>
   (case r of
      Inl err \<Rightarrow> (\<exists>n. err = ReadError n) \<or> (\<exists>n. err = WriteError n \<and> \<not> plain_name n) \<or> err = NameError ''key_press''
    | Inr a' \<Rightarrow> \<not> running a' \<and> app_inv a')"
proof -
  assume m: "main_prog d cfg ins = Some r"
  have "ok_result r \<and> (case r of Inl _ \<Rightarrow> True | Inr a' \<Rightarrow> \<not> running a')"
  proof (cases "init_app d cfg")
    case (Inl e)
    with init_app_ok [of d cfg] m show ?thesis by (auto simp: main_prog_def)
  next
    case (Inr a)
    with init_app_ok [of d cfg] have "app_inv a" by simp
    with Inr m main_loop_ok [of a ins r] show ?thesis by (simp add: main_prog_def)
  qed
  then show ?thesis by (cases r rule: ok_result.cases) auto
qed

lemma dispatch_not_unbound: "km a = None \<Longrightarrow> dispatch km k \<noteq> Some a"
  using dispatch_bound [of km k a] by auto

lemma main_loop_unbound:
  assumes ret: "main_loop a ins = Some r" and unb: "km Quit = None"
  shows "keys a = km \<longrightarrow> running a \<longrightarrow> (\<forall>b. r = Inr b \<longrightarrow> (\<exists>n. ins !! n = Interrupt))"
proof (rule main_loop.raw_induct [where P = "\<lambda>a ins r. keys a = km \<longrightarrow> running a \<longrightarrow>
          (\<forall>b. r = Inr b \<longrightarrow> (\<exists>n. ins !! n = Interrupt))", OF _ ret])
  have nq: "\<not> stops km (Ev e)" for e
    using dispatch_not_unbound [of km Quit, OF unb] by (cases e) auto
  fix f a ins r
  assume IH: "\<And>a ins r. f a ins = Some r \<Longrightarrow> keys a = km \<longrightarrow> running a \<longrightarrow>
                (\<forall>b. r = Inr b \<longrightarrow> (\<exists>n. ins !! n = Interrupt))"
    and eq: "(if \<not> running a then Some (Inr a)
           else (case shd ins of
                   Interrupt \<Rightarrow> Some (exit_save a)
                 | Ev e \<Rightarrow> (case step a e of Inl err \<Rightarrow> Some (Inl err) | Inr a' \<Rightarrow> f a' (stl ins)))) = Some r"
  show "keys a = km \<longrightarrow> running a \<longrightarrow> (\<forall>b. r = Inr b \<longrightarrow> (\<exists>n. ins !! n = Interrupt))"
  proof (intro impI allI)
    fix b assume k: "keys a = km" and run: "running a" and r: "r = Inr b"
    show "\<exists>n. ins !! n = Interrupt"
    proof (cases "shd ins")
      case Interrupt
      then show ?thesis by (metis snth.simps(1))
    next
      case (Ev e)
      then obtain a'' where st: "step a e = Inr a''" and f: "f a'' (stl ins) = Some r"
        using eq run r by (auto simp del: step.simps split: sum.splits)
      have "keys a'' = km" using keys_step [OF st] k by simp
      moreover have "running a''" using running_step [OF st] nq k run by simp
      ultimately obtain n where "stl ins !! n = Interrupt"
        using IH [OF f] r by blast
      then show ?thesis by (metis snth.simps(2))
    qed
  qed
qed

text \<open>
  C35. A configuration that binds \<open>quit\<close> to a JSON value that is not a string is
  accepted by \<open>load_keymap\<close>, and no key can then quit: a loop that returns normally
  has met Ctrl-C.
\<close>

theorem quit_unbound_only_interrupt:
  "map_of (rev kvs) ''quit'' = Some JOther \<Longrightarrow> keys a = fst (load_keymap (ConfigObject kvs)) \<Longrightarrow>
   running a \<Longrightarrow> main_loop a ins = Some (Inr a') \<Longrightarrow> \<exists>n. ins !! n = Interrupt"
proof -
  assume q: "map_of (rev kvs) ''quit'' = Some JOther" and k: "keys a = fst (load_keymap (ConfigObject kvs))"
    and r: "running a" and ret: "main_loop a ins = Some (Inr a')"
  have "fst (load_keymap (ConfigObject kvs)) Quit = None" using q by simp
  from main_loop_unbound [where km = "fst (load_keymap (ConfigObject kvs))", OF ret this] k r show ?thesis by blast
qed

theorem main_loop_returns_witness:
  "\<exists>r. main_loop example_app (Ev Tick ## Ev (Key ''q'') ## sconst Interrupt) = Some r"
  using main_loop_returns [of example_app "Ev Tick ## Ev (Key ''q'') ## sconst Interrupt" 1]
  by (simp add: dispatch_def dispatch_order_def default_keymap_def)

theorem main_loop_interrupt_witness:
  "\<exists>a'. main_loop example_app (map Ev [Tick] @- Interrupt ## sconst Interrupt) = Some (Inr a')
     \<and> \<not> running a' \<and> disk a' = [(''work.md'', Some (file_text ''work.md'' [\<lparr>todo_text = ''a'', todo_done = False, category = uncategorized\<rparr>]))]"
  using main_loop_interrupt [of example_app "[Tick]" "sconst Interrupt"]
  by (simp add: save_todos_def write_place_def rel_place.simps tick_def)

theorem main_prog_safe_witness:
  "main_prog [] NoConfig (Ev (Key ''?'') ## sconst Interrupt) = Some (Inl (NameError ''key_press''))
   \<and> ((\<exists>n. NameError ''key_press'' = ReadError n) \<or> (\<exists>n. NameError ''key_press'' = WriteError n \<and> \<not> plain_name n)
      \<or> NameError ''key_press'' = NameError ''key_press'')"
proof -
  have m: "main_prog [] NoConfig (Ev (Key ''?'') ## sconst Interrupt) = Some (Inl (NameError ''key_press''))"
    by (simp add: main_prog_def main_loop.simps init_app_def init_store_def load_todos_def update_todo_list_def
                  update_category_tabs_def get_categories_def get_todos_by_category_def Let_def handle_input_def
                  dispatch_def dispatch_order_def default_keymap_def)
  from main_prog_safe [OF m] m show ?thesis by simp
qed

theorem quit_unbound_only_interrupt_witness:
  "\<exists>a'. main_loop (example_app\<lparr>keys := fst (load_keymap (ConfigObject [(''quit'', JOther)]))\<rparr>) (sconst Interrupt)
          = Some (Inr a') \<and> (\<exists>n. sconst Interrupt !! n = Interrupt)"
proof -
  have "\<exists>a'. main_loop (example_app\<lparr>keys := fst (load_keymap (ConfigObject [(''quit'', JOther)]))\<rparr>) (sconst Interrupt)
          = Some (Inr a')"
    by (simp add: main_loop.simps exit_save_def save_todos_def write_place_def rel_place.simps)
  then obtain a' where m: "main_loop (example_app\<lparr>keys := fst (load_keymap (ConfigObject [(''quit'', JOther)]))\<rparr>)
                              (sconst Interrupt) = Some (Inr a')" ..
  from quit_unbound_only_interrupt [OF _ _ _ m, of "[(''quit'', JOther)]"] m show ?thesis by auto
qed

end
