(* ===== verification/Render.thy ===== *)
theory Render
  imports AppInv
begin

text \<open>
  What \<open>TodoApp\<close> (\<open>src/mdtodo/mdtodo.py\<close>) puts on the terminal. \<open>init_ui\<close>
  builds a frame with the header, the category tabs and the footer around the list box;
  \<open>show_dialog\<close> overlays a dialog on it (\<open>show_add_dialog\<close>,
  \<open>show_edit_dialog\<close>, \<open>show_delete_dialog\<close>; the help dialog raises before
  it is shown). The
  contents of the tab text and of the list walker are fields of \<open>app\<close>, set by
  \<open>update_category_tabs\<close> and \<open>update_todo_list\<close>; \<open>display_ok\<close> says that
  they are what the store and the indices determine, and every event keeps it. The
  claims are about the screen of every reachable state and the dialogs the keys open.
\<close>

text \<open>The dialog on screen, as \<open>show_dialog\<close> overlays it: the header of its frame,
  the width and height of the overlay, and its body (the edit fields with their caption
  and text and the buttons of the add and edit dialogs, the question of the delete
  dialog).\<close>

datatype dialog_body =
    Form "(string \<times> string) list" "string list"
  | Confirm string "string list"

record overlay =
  title :: string
  width :: nat
  height :: nat
  body :: dialog_body

definition form_buttons :: "string list" where
  "form_buttons = [''Save'', ''Cancel'']"

definition add_view :: "string \<Rightarrow> string \<Rightarrow> overlay" where
  "add_view t c = \<lparr>title = '' Add New Todo '', width = 60, height = 10,
                   body = Form [(''Task: '', t), (''Category: '', c)] form_buttons\<rparr>"

definition edit_view :: "string \<Rightarrow> string \<Rightarrow> overlay" where
  "edit_view t c = \<lparr>title = '' Edit Todo '', width = 60, height = 10,
                    body = Form [(''Task: '', t), (''Category: '', c)] form_buttons\<rparr>"

definition delete_view :: "string \<Rightarrow> overlay" where
  "delete_view s = \<lparr>title = '' Confirm Delete '', width = 50, height = 10,
                    body = Confirm (''Delete todo: '' @ s @ ''?'') [''Yes'', ''No'']\<rparr>"

text \<open>The fields of an open add or edit dialog hold what was typed into them.\<close>

definition dialog_view :: "app \<Rightarrow> overlay option" where
  "dialog_view a =
     (case modal a of
        NoDialog \<Rightarrow> None
      | AddDialog t c \<Rightarrow> Some (add_view t c)
      | EditDialog i t c \<Rightarrow> Some (edit_view t c)
      | DeleteDialog i s \<Rightarrow> Some (delete_view s))"

text \<open>The widgets show the state: the tab text and the rows of the list are those the
  current store and indices determine.\<close>

definition display_ok :: "app \<Rightarrow> bool" where
  "display_ok a \<longleftrightarrow> category_tabs a = tabs_view a \<and> todo_walker a = walker_view a"

text \<open>The screen: \<open>self.layout\<close> (header and tabs in a \<open>Pile\<close>, the list box,
  the footer) and the dialog \<open>loop.widget\<close> overlays on it, if any.\<close>

record screen =
  header_text :: "style \<times> string"
  tabs_text :: "(style \<times> string) list"
  list_rows :: "row list"
  footer_text :: "style \<times> string"
  overlay_shown :: "overlay option"

definition screen_of :: "app \<Rightarrow> screen" where
  "screen_of a =
     \<lparr>header_text = (Header, '' Markdown Todo Manager ''), tabs_text = category_tabs a,
      list_rows = todo_walker a, footer_text = (Footer, footer a),
      overlay_shown = dialog_view a\<rparr>"

lemma display_frame [simp]:
  "display_ok (set_footer_text t a) = display_ok a"
  "display_ok (a\<lparr>modal := m\<rparr>) = display_ok a"
  "display_ok (tick a) = display_ok a"
  "display_ok (a\<lparr>disk := d\<rparr>) = display_ok a"
  "display_ok (a\<lparr>running := b\<rparr>) = display_ok a"
  by (simp_all add: display_ok_def tabs_view_def walker_view_def shown_todos_def set_footer_text_def tick_def Let_def)

lemma display_same_items:
  "todos st' = todos (todo_list a) \<Longrightarrow> categories st' = categories (todo_list a) \<Longrightarrow>
   display_ok (a\<lparr>todo_list := st'\<rparr>) = display_ok a"
  by (simp add: display_ok_def tabs_view_def walker_view_def shown_todos_def get_categories_def
                get_todos_by_category_def)

lemma display_redraw [simp]: "display_ok (redraw a)"
  by (simp add: display_ok_def redraw_def)

lemma tabs_view_update_category_tabs: "category_tabs (update_category_tabs a) = tabs_view (update_category_tabs a)"
  by (simp add: update_category_tabs_def tabs_view_def Let_def)

lemma tabs_view_frame [simp]:
  "tabs_view (a\<lparr>selected_idx := s\<rparr>) = tabs_view a"
  "categories st = categories (todo_list a) \<Longrightarrow> tabs_view (a\<lparr>todo_list := st\<rparr>) = tabs_view a"
  by (simp_all add: tabs_view_def get_categories_def)

lemma list_redraw:
  "cur_ok b \<Longrightarrow> category_tabs b = tabs_view b \<Longrightarrow> update_todo_list b = Inr b' \<Longrightarrow> display_ok b'"
  by (auto simp: update_todo_list_eq display_ok_def Let_def tabs_view_def)

lemma redraw_result:
  "wf_store (todo_list b) \<Longrightarrow> 0 \<le> current_category_idx b \<Longrightarrow> 0 \<le> selected_idx b \<Longrightarrow>
   update_todo_list (update_category_tabs b) = Inr a2 \<Longrightarrow> display_ok a2"
  by (rule list_redraw [OF update_category_tabs_ok tabs_view_update_category_tabs])

lemma finish_dialog_display:
  "wf_store (todo_list a) \<Longrightarrow> 0 \<le> current_category_idx a \<Longrightarrow> 0 \<le> selected_idx a \<Longrightarrow>
   finish_dialog msg a = Inr a' \<Longrightarrow> display_ok a'"
proof -
  assume w: "wf_store (todo_list a)" "0 \<le> current_category_idx a" "0 \<le> selected_idx a"
    and f: "finish_dialog msg a = Inr a'"
  then obtain a2 where u: "update_todo_list (update_category_tabs a) = Inr a2"
    and e: "a' = (set_footer_text msg a2)\<lparr>modal := NoDialog\<rparr>"
    by (auto simp: finish_dialog_def split: sum.splits)
  from redraw_result [OF w u] e show ?thesis by simp
qed

lemma reload_display: "app_inv a \<Longrightarrow> reload a = Inr a' \<Longrightarrow> display_ok a'"
proof -
  assume a: "app_inv a" and r: "reload a = Inr a'"
  then obtain st a2 where l: "load_todos (todo_list a) (disk a) = Inr st"
    and u: "update_todo_list (update_category_tabs (a\<lparr>todo_list := st\<rparr>)) = Inr a2"
    and e: "a' = set_footer_text ''Reloaded todos from files'' a2"
    by (auto simp: reload_def split: sum.splits)
  have "wf_store st" using load_todos_wf [OF _ l] a by (simp add: app_inv_def cur_ok_def)
  with a have "display_ok a2" by (intro redraw_result [OF _ _ _ u]) (simp_all add: app_inv_def cur_ok_def)
  with e show ?thesis by simp
qed

lemma toggle_display:
  assumes a: "app_inv a" and d: "display_ok a" and r: "toggle_selected a = Inr a'"
  shows "display_ok a'"
proof (cases "shown_todos a = []")
  case True
  have "get_categories (todo_list a) \<noteq> []"
    using a by (simp add: app_inv_def cur_ok_def wf_categories_nonempty)
  with True r d a show ?thesis
    by (simp add: toggle_selected_def current_todos_eq app_inv_cur_ok)
next
  case False
  let ?a1 = "a\<lparr>todo_list := update_item (fst (shown_todos a ! nat (selected_idx a))) toggle (todo_list a)\<rparr>"
  from toggle_selected_eq [OF a False] r have "\<exists>m. a' = set_footer_text m (redraw_list ?a1)"
    by (auto simp: Let_def redraw_list_def)
  moreover have "display_ok (redraw_list ?a1)"
    using d by (simp add: display_ok_def redraw_list_def)
  ultimately show ?thesis by auto
qed

lemma move_display:
  assumes a: "app_inv a" and d: "display_ok a"
  shows "move_down a = Inr a' \<Longrightarrow> display_ok a'"
    and "0 < selected_idx a \<Longrightarrow> update_todo_list (a\<lparr>selected_idx := selected_idx a - 1\<rparr>) = Inr a' \<Longrightarrow> display_ok a'"
proof -
  have c: "cur_ok a" using a by (rule app_inv_cur_ok)
  have ne: "get_categories (todo_list a) \<noteq> []"
    using c by (simp add: cur_ok_def wf_categories_nonempty)
  have t: "category_tabs a = tabs_view a" using d by (simp add: display_ok_def)
  show "move_down a = Inr a' \<Longrightarrow> display_ok a'"
  proof -
    assume m: "move_down a = Inr a'"
    have "cur_ok (a\<lparr>selected_idx := selected_idx a + 1\<rparr>)" using c by (auto simp: cur_ok_def)
    with m ne t d show ?thesis
      by (auto simp: move_down_def current_todos_eq [OF c] split: if_splits intro: list_redraw)
  qed
  show "0 < selected_idx a \<Longrightarrow> update_todo_list (a\<lparr>selected_idx := selected_idx a - 1\<rparr>) = Inr a' \<Longrightarrow> display_ok a'"
  proof -
    assume "0 < selected_idx a" and u: "update_todo_list (a\<lparr>selected_idx := selected_idx a - 1\<rparr>) = Inr a'"
    then have "cur_ok (a\<lparr>selected_idx := selected_idx a - 1\<rparr>)" using c by (auto simp: cur_ok_def)
    from list_redraw [OF this _ u] t show ?thesis by simp
  qed
qed

lemma target_dialog_display: "display_ok a \<Longrightarrow> target_dialog mk a = Inr a' \<Longrightarrow> display_ok a'"
  by (auto simp: target_dialog_def split: sum.splits option.splits)

lemma do_action_display:
  assumes a: "app_inv a" and d: "display_ok a" and r: "do_action act a = Inr a'"
  shows "display_ok a'"
proof (cases act)
  case Save
  define st where "st = snd (save_todos (todo_list a))"
  from Save r save_result [of a a'] obtain dk where
    a': "a' = set_footer_text ''Todos saved successfully!'' (a\<lparr>todo_list := st, disk := dk\<rparr>)"
    by (auto simp: st_def)
  have "todos st = todos (todo_list a)" "categories st = categories (todo_list a)"
    by (auto simp: st_def save_todos_def split: prod.splits)
  then show ?thesis using a' d by (simp add: display_same_items)
next
  case Add
  with r d show ?thesis by (auto simp: show_add_dialog_def split: sum.splits)
next
  case Category_prev
  with r a show ?thesis by (auto simp add: switch_category_eq Let_def simp flip: redraw_def)
next
  case Category_next
  with r a show ?thesis by (auto simp add: switch_category_eq Let_def simp flip: redraw_def)
next
  case Move_up
  with r d move_display(2) [OF a d] show ?thesis by (auto split: if_splits)
next
  case Reload
  with r a show ?thesis by (simp add: reload_display)
next
  case Toggle
  with r a d show ?thesis by (simp add: toggle_display)
next
  case Move_down
  with r move_display(1) [OF a d] show ?thesis by simp
next
  case Delete
  with r d show ?thesis by (simp add: target_dialog_display)
next
  case Edit
  with r d show ?thesis by (simp add: target_dialog_display)
qed (use r d in auto)

lemma add_on_save_display:
  assumes a: "app_inv a" and d: "display_ok a" and r: "add_on_save t c a = Inr a'"
  shows "display_ok a'"
proof (cases "py_strip t = []")
  case True
  with r d show ?thesis by (auto simp: add_on_save_def)
next
  case False
  define a1 where "a1 = a\<lparr>todo_list := snd (add_todo (py_strip t) (field_category c) (todo_list a))\<rparr>"
  have w: "wf_store (todo_list a1)" and n: "0 \<le> current_category_idx a1" "0 \<le> selected_idx a1"
    using a by (simp_all add: a1_def app_inv_def cur_ok_def add_todo_wf)
  then obtain j where "0 \<le> j" and s: "select_category (field_category c) a1 = Inr (a1\<lparr>current_category_idx := j\<rparr>)"
    using select_category_ok [OF n(1), of "field_category c"] by metis
  with r False have "finish_dialog (''Added: '' @ py_strip t) (a1\<lparr>current_category_idx := j\<rparr>) = Inr a'"
    by (simp add: add_on_save_def Let_def a1_def [symmetric])
  with w n \<open>0 \<le> j\<close> show ?thesis by (intro finish_dialog_display) simp_all
qed

lemma edit_on_save_display:
  assumes a: "app_inv a" and r: "edit_on_save i t c a = Inr a'"
  shows "display_ok a'"
proof -
  define a1 where "a1 = a\<lparr>todo_list := update_item i (\<lambda>it. it\<lparr>todo_text := py_strip t, category := field_category c\<rparr>) (todo_list a)\<rparr>"
  have w: "wf_store (todo_list a1)" and n: "0 \<le> current_category_idx a1" "0 \<le> selected_idx a1"
    using a by (simp_all add: a1_def app_inv_def cur_ok_def update_item_wf field_category_nonempty)
  then obtain j where "0 \<le> j" and s: "select_category (field_category c) a1 = Inr (a1\<lparr>current_category_idx := j\<rparr>)"
    using select_category_ok [OF n(1), of "field_category c"] by metis
  with r have "finish_dialog (''Updated: '' @ py_strip t) (a1\<lparr>current_category_idx := j\<rparr>) = Inr a'"
    by (simp add: edit_on_save_def Let_def a1_def [symmetric])
  with w n \<open>0 \<le> j\<close> show ?thesis by (intro finish_dialog_display) simp_all
qed

lemma delete_on_yes_display:
  assumes a: "app_inv a" and d: "display_ok a" and r: "delete_on_yes i a = Inr a'"
  shows "display_ok a'"
proof -
  let ?b = "a\<lparr>todo_list := delete_todo i (todo_list a)\<rparr>"
  have c: "cur_ok ?b"
    using a by (simp add: app_inv_def cur_ok_def delete_todo_wf get_categories_def)
  have t: "category_tabs ?b = tabs_view ?b"
    using d by (simp add: display_ok_def delete_todo_wf(3))
  from r obtain a2 where u: "update_todo_list ?b = Inr a2" and e: "a' = (set_footer_text ''Deleted todo'' a2)\<lparr>modal := NoDialog\<rparr>"
    by (auto simp: delete_on_yes_def split: sum.splits)
  from list_redraw [OF c t u] e show ?thesis by simp
qed

lemma dialog_event_display:
  "app_inv a \<Longrightarrow> display_ok a \<Longrightarrow> dialog_event m e a = Inr a' \<Longrightarrow> display_ok a'"
  by (induction m e a rule: dialog_event.induct)
     (auto intro: add_on_save_display edit_on_save_display delete_on_yes_display)

lemma step_display: "app_inv a \<Longrightarrow> display_ok a \<Longrightarrow> step a e = Inr a' \<Longrightarrow> display_ok a'"
  by (cases e) (auto simp: handle_input_def split: if_splits option.splits
                     intro: do_action_display dialog_event_display)

lemma init_app_display: "init_app d cfg = Inr a \<Longrightarrow> display_ok a"
proof -
  assume i: "init_app d cfg = Inr a"
  then obtain st where s: "init_store d = Inr st" by (cases "init_store d") (auto simp: init_app_def)
  have "wf_store \<lparr>todos = [], todo_files = Map.empty, categories = {uncategorized}, next_oid = 0\<rparr>"
    by (simp add: wf_store_def)
  with s have w: "wf_store st" using load_todos_wf by (auto simp: init_store_def)
  obtain km failed x where k: "load_keymap cfg = (km, failed, x)" by (cases "load_keymap cfg") auto
  from i s k have "update_todo_list (update_category_tabs
         \<lparr>todo_list = st, disk = d, keys = km, current_category_idx = 0, selected_idx = 0, footer = default_footer,
          category_tabs = [], todo_walker = [], alarms = [], clock = 0, modal = NoDialog, running = True\<rparr>) = Inr a"
    by (simp add: init_app_def)
  from redraw_result [OF _ _ _ this] w show ?thesis by simp
qed

lemma reachable_display: "reachable a \<Longrightarrow> display_ok a"
proof (induction rule: reachable.induct)
  case (init d cfg a)
  then show ?case by (rule init_app_display)
next
  case (step a e a')
  from step_display [OF reachable_app_inv [OF step.hyps(1)] step.IH step.hyps(2)] show ?case .
qed

lemma target_dialog_shown:
  "cur_ok a \<Longrightarrow> shown_todos a \<noteq> [] \<Longrightarrow> 0 \<le> selected_idx a \<Longrightarrow> selected_idx a < int (length (shown_todos a)) \<Longrightarrow>
   target_dialog mk a = Inr (a\<lparr>modal := mk (shown_todos a ! nat (selected_idx a))\<rparr>)"
  by (auto simp: target_dialog_def selected_item_def current_todos_eq cur_ok_def)

text \<open>
  C4. The screen of every reachable state shows the state: the tab text and the rows are
  those of the current store, tab and selection (every handler that changes them redraws
  them); exactly one tab is highlighted, and the rows have exactly one highlighted row,
  the one at \<open>selected_idx\<close>, when the tab lists items, and none otherwise.
\<close>

theorem screen_render:
  "reachable a \<Longrightarrow>
   tabs_text (screen_of a) = tabs_view a \<and> list_rows (screen_of a) = walker_view a
   \<and> length (filter (\<lambda>t. fst t = Selected_category) (tabs_text (screen_of a))) = 1
   \<and> length (filter (\<lambda>r. fst r = Selected) (list_rows (screen_of a))) = (if shown_todos a = [] then 0 else 1)
   \<and> (shown_todos a \<noteq> [] \<longrightarrow> fst (list_rows (screen_of a) ! nat (selected_idx a)) = Selected)"
proof -
  assume r: "reachable a"
  have d: "display_ok a" using r by (rule reachable_display)
  have i: "app_inv a" using r by (rule reachable_app_inv)
  then have c: "cur_ok a" by (rule app_inv_cur_ok)
  have s: "0 \<le> selected_idx a" "shown_todos a \<noteq> [] \<Longrightarrow> selected_idx a < int (length (shown_todos a))"
    using i by (auto simp: app_inv_def cur_ok_def)
  have "length (filter (\<lambda>t. fst t = Selected_category) (tabs_view a)) = 1"
    using c by (simp add: tabs_view_def tabs_selected_count cur_ok_def)
  moreover have "length (filter (\<lambda>r. fst r = Selected) (walker_view a)) = (if shown_todos a = [] then 0 else 1)
                 \<and> (shown_todos a \<noteq> [] \<longrightarrow> fst (walker_view a ! nat (selected_idx a)) = Selected)"
    using s todo_widgets_selected [of "shown_todos a" "selected_idx a"] by (auto simp: walker_view_def todo_widgets_empty)
  ultimately show ?thesis using d by (simp add: screen_of_def display_ok_def)
qed

text \<open>
  C16. The dialogs the keys open: from a reachable state whose tab lists items, the edit
  key opens a form whose fields hold the selected item's text and category, and the
  delete key opens a confirmation that names the selected item.
\<close>

theorem key_dialog_views:
  assumes r: "reachable a" and ne: "shown_todos a \<noteq> []"
  shows "(dispatch (keys a) k = Some Edit \<longrightarrow>
            (\<exists>a'. handle_input k a = Inr a'
               \<and> dialog_view a' = Some (edit_view (todo_text (snd (shown_todos a ! nat (selected_idx a))))
                                                   (category (snd (shown_todos a ! nat (selected_idx a)))))))
         \<and> (dispatch (keys a) k = Some Delete \<longrightarrow>
            (\<exists>a'. handle_input k a = Inr a'
               \<and> dialog_view a' = Some (delete_view (todo_text (snd (shown_todos a ! nat (selected_idx a)))))))"
proof -
  have i: "app_inv a" using r by (rule reachable_app_inv)
  then have c: "cur_ok a" by (rule app_inv_cur_ok)
  have s: "0 \<le> selected_idx a" "selected_idx a < int (length (shown_todos a))"
    using i ne by (auto simp: app_inv_def cur_ok_def)
  note t = target_dialog_shown [OF c ne s]
  show ?thesis by (simp add: handle_input_def t dialog_view_def)
qed

theorem screen_render_witness:
  "length (filter (\<lambda>r. fst r = Selected) (list_rows (screen_of example_app))) = 1
   \<and> fst (list_rows (screen_of example_app) ! nat (selected_idx example_app)) = Selected
   \<and> tabs_text (screen_of example_app) = tabs_view example_app"
proof -
  have ne: "(shown_todos example_app = []) = False"
    by (simp add: shown_todos_def get_categories_def get_todos_by_category_def)
  from screen_render [OF reachable_example_app]
  show ?thesis unfolding ne if_False by blast
qed

theorem key_dialog_views_witness:
  "\<exists>a'. handle_input ''d'' example_app = Inr a'
     \<and> dialog_view a' = Some (delete_view ''a'')"
proof -
  have d: "dispatch default_keymap ''d'' = Some Delete"
    by (simp add: dispatch_def dispatch_order_def default_keymap_def)
  from key_dialog_views [OF reachable_example_app, of "''d''"] shown_todos_example_app d show ?thesis by simp
qed

end
