(* ===== verification/Jwt.thy ===== *)
theory Jwt
  imports PyStr "HOL-Library.Word"
begin

text \<open>
  \<open>src/key_generator/jtw_secrets_generate.py\<close>: two random secrets written as hex
  strings to two files, read back by \<open>get_jwt_secret\<close>, and the module-level script
  that runs both. The random source of \<open>secrets.token_hex\<close> is a parameter (the
  stream of bytes \<open>os.urandom\<close> returns), one per secret. The
  files are a map from paths to contents, with the paths that can be opened for writing
  and for reading; a message that prints an exception is a constructor without its text.
\<close>

unbundle bit_operations_syntax

section \<open>secrets.token_hex\<close>

text \<open>\<open>bytes.hex()\<close>: two lower-case digits per byte, high nibble first.\<close>

definition hex_digits :: string where
  "hex_digits = ''0123456789abcdef''"

definition bytes_hex :: "8 word list \<Rightarrow> string" where
  "bytes_hex bs = concat (map (\<lambda>b. [hex_digits ! unat (drop_bit 4 b), hex_digits ! unat (b AND 15)]) bs)"

text \<open>\<open>secrets.token_hex(nbytes)\<close> is \<open>os.urandom(nbytes).hex()\<close>: the first
  \<open>nbytes\<close> bytes of the random source.\<close>

definition token_hex :: "nat \<Rightarrow> (nat \<Rightarrow> 8 word) \<Rightarrow> string" where
  "token_hex nbytes rnd = bytes_hex (map rnd [0..<nbytes])"

text \<open>Reading a hex string back, the inverse the secrets are checked against.\<close>

definition hex_value :: "char \<Rightarrow> nat" where
  "hex_value c = length (takeWhile (\<lambda>d. d \<noteq> c) hex_digits)"

fun unhex :: "string \<Rightarrow> 8 word list option" where
  "unhex [] = Some []"
| "unhex [c] = None"
| "unhex (h # l # cs) = map_option (\<lambda>bs. of_nat (16 * hex_value h + hex_value l) # bs) (unhex cs)"

section \<open>The files\<close>

record jwt_fs =
  files :: "string \<rightharpoonup> string"
  writable :: "string set"
  readable :: "string set"

datatype jwt_msg =
    Local_written string    \<comment> \<open>\<open>Local JWT secret written to: <path>\<close>\<close>
  | Deploy_written string   \<comment> \<open>\<open>Deployment JWT secret written to: <path>\<close>\<close>
  | Write_error             \<comment> \<open>\<open>Error writing JWT secrets: <e>\<close>\<close>
  | Not_found string        \<comment> \<open>\<open>JWT secret file not found: <path>\<close>\<close>
  | Read_error              \<comment> \<open>\<open>Error reading JWT secret: <e>\<close>\<close>

text \<open>\<open>generate_jwt_secrets\<close>: both secrets are drawn first; an OSError on either
  \<open>open(..., "w")\<close> is caught and printed, so a failure on the first file skips the
  second.\<close>

definition generate_jwt_secrets ::
  "string \<Rightarrow> string \<Rightarrow> (nat \<Rightarrow> 8 word) \<Rightarrow> (nat \<Rightarrow> 8 word) \<Rightarrow> jwt_fs \<Rightarrow> jwt_fs \<times> jwt_msg list" where
  "generate_jwt_secrets local_path deploy_path r1 r2 fs =
     (let local_secret = token_hex 32 r1; deploy_secret = token_hex 32 r2 in
      if local_path \<notin> writable fs then (fs, [Write_error])
      else
        (let fs1 = fs\<lparr>files := (files fs)(local_path \<mapsto> local_secret)\<rparr> in
         if deploy_path \<notin> writable fs1 then (fs1, [Local_written local_path, Write_error])
         else (fs1\<lparr>files := (files fs1)(deploy_path \<mapsto> deploy_secret)\<rparr>,
               [Local_written local_path, Deploy_written deploy_path])))"

text \<open>\<open>get_jwt_secret\<close>: FileNotFoundError and any other OSError give \<open>None\<close>.\<close>

definition get_jwt_secret :: "bool \<Rightarrow> string \<Rightarrow> string \<Rightarrow> jwt_fs \<Rightarrow> string option \<times> jwt_msg list" where
  "get_jwt_secret is_local local_path deploy_path fs =
     (let secret_path = (if is_local then local_path else deploy_path) in
      case files fs secret_path of
        None \<Rightarrow> (None, [Not_found secret_path])
      | Some content \<Rightarrow>
          if secret_path \<in> readable fs then (Some (py_strip content), []) else (None, [Read_error]))"

abbreviation local_default :: string where "local_default \<equiv> ''local_jwt_secret.txt''"
abbreviation deploy_default :: string where "deploy_default \<equiv> ''deploy_jwt_secret.txt''"

text \<open>The module body (lines 54 to 63): generate with the default paths, read both
  secrets back, and print the first eight characters of each non-empty one.\<close>

definition shown_prefix :: "string option \<Rightarrow> string list" where
  "shown_prefix s = (case s of Some x \<Rightarrow> if x \<noteq> [] then [take 8 x] else [] | None \<Rightarrow> [])"

definition jwt_script :: "(nat \<Rightarrow> 8 word) \<Rightarrow> (nat \<Rightarrow> 8 word) \<Rightarrow> jwt_fs \<Rightarrow> jwt_fs \<times> jwt_msg list \<times> string list" where
  "jwt_script r1 r2 fs =
     (let (fs1, m1) = generate_jwt_secrets local_default deploy_default r1 r2 fs;
          (local_secret, m2) = get_jwt_secret True local_default deploy_default fs1;
          (deploy_secret, m3) = get_jwt_secret False local_default deploy_default fs1
      in (fs1, m1 @ m2 @ m3, shown_prefix local_secret @ shown_prefix deploy_secret))"

section \<open>Lemmas\<close>

lemma nibble_bounds: "unat (drop_bit 4 (b :: 8 word)) < 16" "unat (b AND 15) < 16"
proof -
  have u: "unat b < 256" using unsigned_less [of b] by simp
  show "unat (drop_bit 4 (b :: 8 word)) < 16"
    unfolding unat_drop_bit_eq using u by (simp add: drop_bit_eq_div)
  show "unat (b AND 15) < 16"
    using word_and_le1 [of b "15 :: 8 word"] by (simp add: word_le_nat_alt)
qed

lemma byte_nibbles: "16 * drop_bit 4 b + (b AND 15) = (b :: 8 word)"
  using bits_ident [of 4 b] by (simp add: push_bit_eq_mult take_bit_eq_mask mask_eq_exp_minus_1 mult.commute)

lemma takeWhile_distinct_nth:
  "distinct xs \<Longrightarrow> i < length xs \<Longrightarrow> length (takeWhile (\<lambda>d. d \<noteq> xs ! i) xs) = i"
proof (induction xs arbitrary: i)
  case (Cons x xs)
  then show ?case by (cases i) (auto simp: nth_mem)
qed simp

lemma hex_value_digit: "n < 16 \<Longrightarrow> hex_value (hex_digits ! n) = n"
  unfolding hex_value_def by (rule takeWhile_distinct_nth) (simp_all add: hex_digits_def)

lemma hex_digits_not_space: "c \<in> set hex_digits \<Longrightarrow> \<not> py_isspace c"
  by (auto simp: hex_digits_def py_isspace_def)

lemma hex_digits_length: "length hex_digits = 16"
  by (simp add: hex_digits_def)

lemma bytes_hex_digits: "set (bytes_hex bs) \<subseteq> set hex_digits"
  using nibble_bounds by (auto simp: bytes_hex_def hex_digits_length intro!: nth_mem)

lemma dropWhile_none: "\<forall>c \<in> set xs. \<not> P c \<Longrightarrow> dropWhile P xs = xs"
  by (induction xs) auto

lemma py_strip_bytes_hex: "py_strip (bytes_hex bs) = bytes_hex bs"
proof -
  have "\<forall>c \<in> set (bytes_hex bs). \<not> py_isspace c"
    using bytes_hex_digits hex_digits_not_space by blast
  then show ?thesis
    by (simp add: py_strip_def dropWhile_none)
qed

lemma bytes_hex_take: "take (2 * n) (bytes_hex bs) = bytes_hex (take n bs)"
proof (induction bs arbitrary: n)
  case (Cons b bs)
  then show ?case by (cases n) (simp_all add: bytes_hex_def)
qed (simp add: bytes_hex_def)

lemma bytes_hex_length: "length (bytes_hex bs) = 2 * length bs"
  by (induction bs) (simp_all add: bytes_hex_def)

lemma unhex_bytes_hex: "unhex (bytes_hex bs) = Some bs"
  by (induction bs) (simp_all add: bytes_hex_def nibble_bounds hex_value_digit byte_nibbles)

lemma bytes_hex_Nil: "(bytes_hex bs = []) = (bs = [])"
  using bytes_hex_length [of bs] by auto

lemma shown_prefix_bounds: "s \<in> set (shown_prefix x) \<Longrightarrow> 0 < length s \<and> length s \<le> 8"
  by (auto simp: shown_prefix_def split: option.splits if_splits)

lemma jwt_script_shown: "snd (snd (jwt_script r1 r2 fs)) =
   shown_prefix (fst (get_jwt_secret True local_default deploy_default (fst (generate_jwt_secrets local_default deploy_default r1 r2 fs))))
   @ shown_prefix (fst (get_jwt_secret False local_default deploy_default (fst (generate_jwt_secrets local_default deploy_default r1 r2 fs))))"
  by (simp add: jwt_script_def split: prod.splits)

lemma token_hex_facts:
  "length (token_hex n r) = 2 * n" "set (token_hex n r) \<subseteq> set hex_digits"
  "unhex (token_hex n r) = Some (map r [0..<n])" "py_strip (token_hex n r) = token_hex n r"
  "take 8 (token_hex 32 r) = token_hex 4 r"
proof -
  have "take 4 (map r [0..<32]) = map r [0..<4]" by (simp add: take_map upt_conv_Cons)
  then have "take 8 (bytes_hex (map r [0..<32])) = bytes_hex (map r [0..<4])"
    using bytes_hex_take [of 4 "map r [0..<32]"] by simp
  then show "take 8 (token_hex 32 r) = token_hex 4 r" by (simp add: token_hex_def)
qed (simp_all add: token_hex_def bytes_hex_length bytes_hex_digits unhex_bytes_hex py_strip_bytes_hex)

text \<open>
  C24. The secrets the script writes are \<open>secrets.token_hex(32)\<close>: when both files
  can be written, each holds 64 lower-case hex digits that decode to the first 32 bytes
  of its own random source, so each key carries 256 random bits.
\<close>

theorem jwt_secret_format:
  "local_default \<in> writable fs \<Longrightarrow> deploy_default \<in> writable fs \<Longrightarrow>
   \<exists>s1 s2. files (fst (jwt_script r1 r2 fs)) local_default = Some s1
     \<and> files (fst (jwt_script r1 r2 fs)) deploy_default = Some s2
     \<and> length s1 = 64 \<and> length s2 = 64 \<and> set s1 \<union> set s2 \<subseteq> set hex_digits
     \<and> unhex s1 = Some (map r1 [0..<32]) \<and> unhex s2 = Some (map r2 [0..<32])"
  by (simp add: jwt_script_def generate_jwt_secrets_def Let_def token_hex_facts split: prod.splits)

text \<open>
  C25. Every branch of \<open>generate_jwt_secrets\<close>. When the first file cannot be opened
  nothing is written, not even the second file; when only the second fails, the first
  secret is on disk and the second file keeps its old content; the error is printed,
  never raised. When both files can be written and read and the paths differ,
  \<open>get_jwt_secret\<close> returns the local secret for \<open>is_local=True\<close> and the
  deployment secret otherwise, unchanged by \<open>strip()\<close>.
\<close>

theorem generate_jwt_secrets_branches:
  "(lp \<notin> writable fs \<longrightarrow> generate_jwt_secrets lp dp r1 r2 fs = (fs, [Write_error]))
   \<and> (lp \<in> writable fs \<and> dp \<notin> writable fs \<longrightarrow>
        generate_jwt_secrets lp dp r1 r2 fs
          = (fs\<lparr>files := (files fs)(lp \<mapsto> token_hex 32 r1)\<rparr>, [Local_written lp, Write_error]))
   \<and> (lp \<noteq> dp \<and> lp \<in> writable fs \<and> dp \<in> writable fs \<and> lp \<in> readable fs \<and> dp \<in> readable fs \<longrightarrow>
        snd (generate_jwt_secrets lp dp r1 r2 fs) = [Local_written lp, Deploy_written dp]
        \<and> fst (get_jwt_secret True lp dp (fst (generate_jwt_secrets lp dp r1 r2 fs))) = Some (token_hex 32 r1)
        \<and> fst (get_jwt_secret False lp dp (fst (generate_jwt_secrets lp dp r1 r2 fs))) = Some (token_hex 32 r2))"
  by (simp add: generate_jwt_secrets_def get_jwt_secret_def Let_def token_hex_facts(4))

text \<open>
  C36. The script regenerates both secrets on every run: the comment on line 54 says the
  files are created if they do not exist, but existing secrets are overwritten, so every
  token signed with the previous secret becomes invalid.
\<close>

theorem jwt_script_overwrites:
  "local_default \<in> writable fs \<Longrightarrow> deploy_default \<in> writable fs \<Longrightarrow>
   files fs local_default = Some old \<Longrightarrow> old \<noteq> token_hex 32 r1 \<Longrightarrow>
   files (fst (jwt_script r1 r2 fs)) local_default = Some (token_hex 32 r1)
   \<and> files (fst (jwt_script r1 r2 fs)) local_default \<noteq> Some old
   \<and> files (fst (jwt_script r1 r2 fs)) deploy_default = Some (token_hex 32 r2)"
  by (simp add: jwt_script_def generate_jwt_secrets_def Let_def split: prod.splits)

text \<open>
  C37. With the same path for both files, the deployment secret overwrites the local one:
  the local secret that was generated is lost and both reads return the deployment
  secret.
\<close>

theorem same_path_local_lost:
  "p \<in> writable fs \<Longrightarrow> p \<in> readable fs \<Longrightarrow> generate_jwt_secrets p p r1 r2 fs = (fs', msgs) \<Longrightarrow>
   fst (get_jwt_secret True p p fs') = Some (token_hex 32 r2)"
  by (auto simp: generate_jwt_secrets_def get_jwt_secret_def Let_def token_hex_facts(4))

text \<open>
  C26. What the script prints of the secrets: each printed piece has between one and eight
  characters, whatever the files hold. After a successful generation, the two pieces are
  the hex of the first four random bytes of each secret, so 32 of the 256 bits of each key
  are shown on the terminal.
\<close>

theorem jwt_script_shown_bounds:
  "(\<forall>s \<in> set (snd (snd (jwt_script r1 r2 fs))). 0 < length s \<and> length s \<le> 8)
   \<and> (local_default \<in> writable fs \<longrightarrow> deploy_default \<in> writable fs
      \<longrightarrow> local_default \<in> readable fs \<longrightarrow> deploy_default \<in> readable fs
      \<longrightarrow> map unhex (snd (snd (jwt_script r1 r2 fs))) = [Some (map r1 [0..<4]), Some (map r2 [0..<4])])"
proof
  show "\<forall>s \<in> set (snd (snd (jwt_script r1 r2 fs))). 0 < length s \<and> length s \<le> 8"
    unfolding jwt_script_shown using shown_prefix_bounds by auto
next
  have ne: "token_hex 32 r \<noteq> []" for r
    using token_hex_facts(1) [of 32 r] by auto
  show "local_default \<in> writable fs \<longrightarrow> deploy_default \<in> writable fs
      \<longrightarrow> local_default \<in> readable fs \<longrightarrow> deploy_default \<in> readable fs
      \<longrightarrow> map unhex (snd (snd (jwt_script r1 r2 fs))) = [Some (map r1 [0..<4]), Some (map r2 [0..<4])]"
    unfolding jwt_script_shown
    by (auto simp: generate_jwt_secrets_def get_jwt_secret_def Let_def shown_prefix_def token_hex_facts ne)
qed

theorem jwt_secret_format_witness:
  "\<exists>s1. files (fst (jwt_script (\<lambda>_. 1) (\<lambda>_. 2) \<lparr>files = Map.empty, writable = {local_default, deploy_default}, readable = {}\<rparr>))
          local_default = Some s1 \<and> length s1 = 64"
  using jwt_secret_format [of "\<lparr>files = Map.empty, writable = {local_default, deploy_default}, readable = {}\<rparr>"
          "\<lambda>_. 1" "\<lambda>_. 2"]
  by auto

theorem jwt_script_overwrites_witness:
  "files (fst (jwt_script (\<lambda>_. 1) (\<lambda>_. 2) \<lparr>files = [local_default \<mapsto> ''00''], writable = {local_default, deploy_default}, readable = {}\<rparr>))
     local_default = Some (token_hex 32 (\<lambda>_. 1))"
proof -
  have t: "''00'' \<noteq> token_hex 32 (\<lambda>_. 1)"
  proof
    assume "''00'' = token_hex 32 (\<lambda>_. 1)"
    then have "length ''00'' = 64" using token_hex_facts(1) [of 32 "\<lambda>_. 1"] by simp
    then show False by simp
  qed
  show ?thesis
    using jwt_script_overwrites [of "\<lparr>files = [local_default \<mapsto> ''00''], writable = {local_default, deploy_default}, readable = {}\<rparr>"
            "''00''" "\<lambda>_. 1" "\<lambda>_. 2"] t
    by simp
qed

theorem same_path_local_lost_witness:
  "fst (get_jwt_secret True ''a'' ''a''
     (fst (generate_jwt_secrets ''a'' ''a'' (\<lambda>_. 1) (\<lambda>_. 2) \<lparr>files = Map.empty, writable = {''a''}, readable = {''a''}\<rparr>)))
   = Some (token_hex 32 (\<lambda>_. 2))"
  using same_path_local_lost [of "''a''" "\<lparr>files = Map.empty, writable = {''a''}, readable = {''a''}\<rparr>" "\<lambda>_. 1" "\<lambda>_. 2"]
  by (simp add: generate_jwt_secrets_def Let_def)

theorem jwt_script_shown_bounds_witness:
  "map unhex (snd (snd (jwt_script (\<lambda>_. 1) (\<lambda>_. 2)
      \<lparr>files = Map.empty, writable = {local_default, deploy_default}, readable = {local_default, deploy_default}\<rparr>)))
   = [Some (map (\<lambda>_. 1) [0..<4]), Some (map (\<lambda>_. 2) [0..<4])]"
  using jwt_script_shown_bounds [of "\<lambda>_. 1" "\<lambda>_. 2"
          "\<lparr>files = Map.empty, writable = {local_default, deploy_default}, readable = {local_default, deploy_default}\<rparr>"]
  by simp

theorem generate_jwt_secrets_branches_witness:
  "generate_jwt_secrets ''a'' ''b'' (\<lambda>_. 1) (\<lambda>_. 2) \<lparr>files = Map.empty, writable = {''b''}, readable = {}\<rparr>
     = (\<lparr>files = Map.empty, writable = {''b''}, readable = {}\<rparr>, [Write_error])
   \<and> fst (get_jwt_secret True ''a'' ''b''
       (fst (generate_jwt_secrets ''a'' ''b'' (\<lambda>_. 1) (\<lambda>_. 255) \<lparr>files = Map.empty, writable = {''a'', ''b''}, readable = {''a'', ''b''}\<rparr>)))
     = Some (token_hex 32 (\<lambda>_. 1))"
  using generate_jwt_secrets_branches [of "''a''" "\<lparr>files = Map.empty, writable = {''b''}, readable = {}\<rparr>" "''b''" "\<lambda>_. 1" "\<lambda>_. 2"]
        generate_jwt_secrets_branches [of "''a''" "\<lparr>files = Map.empty, writable = {''a'', ''b''}, readable = {''a'', ''b''}\<rparr>"
          "''b''" "\<lambda>_. 1" "\<lambda>_. 255"]
  by simp

end
