(* ===== verification/Spec2Isabelle.thy ===== *)
theory Spec2Isabelle
  imports AppBehaviour MainLoop Render Jwt
begin

text \<open>
  A verification development of the markdown todo manager \<open>src/mdtodo/mdtodo.py\<close>
  and of the helper \<open>src/key_generator/jtw_secrets_generate.py\<close>.

  \<^bold>\<open>The program.\<close> \<open>TodoItem\<close> is one task (text, done flag, category).
  \<open>TodoList\<close> owns the items, the set of categories and the map from each item
  object to the file it was read from. \<open>load_todos\<close> parses every \<open>*.md\<close> file
  of the \<open>todo/\<close> directory with the regular expression \<open>TODO_PATTERN\<close>, and
  \<open>save_todos\<close> groups the items by file and rewrites each file. \<open>TodoApp\<close> is
  an urwid application: \<open>handle_input\<close> maps a key through the keymap to an action
  that moves the category index or the selection, toggles an item, saves, reloads or
  opens a dialog, whose callbacks add, edit or delete an item. \<open>main\<close> builds the
  application and runs the urwid loop. The JWT helper writes two random hex secrets to
  two files and reads them back; its module body does both on every import.

  \<^bold>\<open>Theories and the code they model.\<close>
  \<^item> \<open>Prelude\<close>: the Python exceptions the code can raise (\<open>py_error\<close>),
    \<open>xs[i]\<close> and \<open>list.index\<close> as functions that return them
    (\<open>py_get\<close>, \<open>py_index_of\<close>), and object identities (\<open>oid\<close>).
  \<^item> \<open>PyStr\<close>: the \<open>str\<close> built-ins the code calls (\<open>\s\<close>, \<open>\w\<close>,
    \<open>strip\<close>, \<open>splitlines\<close>, universal newlines, \<open>replace\<close>,
    \<open>capitalize\<close>, \<open>glob('*.md')\<close>), on code points 0 to 255.
  \<^item> \<open>TodoItem\<close>: the record \<open>todo_item\<close>, \<open>mk_todo_item\<close>,
    \<open>toggle\<close> and \<open>to_markdown\<close> (lines 39 to 54).
  \<^item> \<open>Codec\<close>: \<open>TODO_PATTERN\<close> as the executable matcher \<open>parse_line\<close>,
    with the lazy \<open>(.+?)\<close> of Python's engine; the items of a file
    (\<open>parse_content\<close>); the text \<open>save_todos\<close> writes (\<open>file_text\<close>).
  \<^item> \<open>Store\<close>: the record \<open>store\<close> for \<open>TodoList\<close>, and the directory as a
    listing \<open>disk\<close> of names and contents (\<open>None\<close> when a file cannot be read).
    It holds \<open>load_todos\<close>, \<open>save_todos\<close> (which returns the files it writes)
    and the writer \<open>save_writes\<close>: \<open>os.path.join(todo_dir, name)\<close> resolved by
    \<open>write_place\<close>, so that a plain name is an entry of \<open>todo/\<close>, an absolute
    name or one through \<open>..\<close> is written outside it, and a name under a missing
    subdirectory makes \<open>open\<close> raise. It also holds \<open>add_todo\<close>,
    \<open>delete_todo\<close>, the queries, and \<open>update_item\<close> for the in-place mutation of
    an object. \<open>disk_items\<close> is the abstract reader, and \<open>wf_store\<close> and
    \<open>cats_ok\<close> are the invariants.
  \<^item> \<open>Keymap\<close>: the actions, \<open>DEFAULT_KEYMAP\<close>, \<open>load_keymap\<close> over the
    state of the config file, and \<open>handle_input\<close>'s \<open>elif\<close> chain as the
    first bound action in the order of the chain (\<open>dispatch\<close>).
  \<^item> \<open>Widgets\<close>: the markup \<open>update_category_tabs\<close> and \<open>update_todo_list\<close>
    put into the widgets: the palette entries (\<open>style\<close>), the tab text
    (\<open>tab_markup\<close>), one row per item (\<open>todo_row\<close>) and the rows of a tab
    (\<open>todo_widgets\<close>).
  \<^item> \<open>App\<close>: \<open>TodoApp\<close> as a state machine. The record \<open>app\<close> holds its
    attributes, the contents of the tab text and of the list walker, the dialog on screen
    (\<open>modal\<close>, with the fields and the target object its callbacks capture), the
    pending footer alarms with a clock, and the directory. \<open>update_category_tabs\<close> and
    \<open>update_todo_list\<close> clamp the indices and redraw their widget.
    \<open>do_action\<close> and \<open>handle_input\<close> cover every branch of the key handler
    (the help key raises the NameError of \<open>connect_signal\<close>, see
    \<open>show_help_dialog\<close>; the save key can raise the error of a write), and \<open>add_on_save\<close>, \<open>edit_on_save\<close> and \<open>delete_on_yes\<close> are the
    dialog callbacks. \<open>step\<close> handles one event (a key no widget consumed, a mouse
    event, an edit of a dialog field, a button, a clock tick, an external change of the
    directory). \<open>run\<close> handles a sequence of events, \<open>init_app\<close> is
    \<open>TodoApp.__init__\<close>, \<open>run_app\<close> is \<open>main\<close> on a finite list of
    events, and \<open>reachable\<close> holds the states that some run reaches.
  \<^item> \<open>AppInv\<close>: the invariant \<open>app_inv\<close> (the store is well formed, the
    indices are in range), its preservation by every operation of \<open>App\<close>, and the
    views \<open>tabs_view\<close> and \<open>walker_view\<close> the widgets should show.
  \<^item> \<open>AppBehaviour\<close>: what each key and callback does from such a state, and key
    sequences across components (save then reload, reload under the delete dialog).
  \<^item> \<open>MainLoop\<close>: \<open>urwid.MainLoop.run\<close> over an unbounded stream of inputs
    (\<open>main_loop\<close>, a \<open>partial_function (option)\<close>: \<open>None\<close> is a loop
    that never returns), Ctrl-C as an input that raises \<open>KeyboardInterrupt\<close>, the
    save of \<open>main\<close>'s handler (\<open>exit_save\<close>), and \<open>main\<close> itself
    (\<open>main_prog\<close>).
  \<^item> \<open>Render\<close>: the screen of \<open>init_ui\<close> (\<open>screen_of\<close>: header, tabs, list,
    footer), the overlay of the add, edit and delete dialogs (\<open>dialog_view\<close>), and the
    invariant \<open>display_ok\<close> that the widgets show the state.
  \<^item> \<open>Jwt\<close>: \<open>secrets.token_hex(n)\<close> as the hex (\<open>bytes_hex\<close>) of the first
    \<open>n\<close> bytes of a random source of \<open>8 word\<close>s (\<open>token_hex\<close>), the files as a map
    with the paths that can be written and read, \<open>generate_jwt_secrets\<close>,
    \<open>get_jwt_secret\<close>, and the module body \<open>jwt_script\<close>.

  \<^bold>\<open>What is proved.\<close>
  \<^item> Codec: the shape of what a line match yields (C9). Reading back a file written by
    \<open>save_todos\<close> gives the items that can be written safely (C7). What is lost:
    a text that ends in a \<open>#word\<close> (C30).
  \<^item> Store: \<open>load_todos\<close> refines \<open>disk_items\<close> (C8), and what it loads does
    not depend on the file names: the category comes from the tag alone (C31). Save,
    the writes and a load give back the items as a multiset when the file names are
    entries of \<open>todo/\<close> (C5). The grouping of \<open>save_todos\<close> equals a reference
    grouping by file in order of first occurrence (C20). A save records a file for every
    item (C19) and writes exactly the files of the remaining items (C22). An unreadable
    file aborts the load with its error (C23). Every operation preserves
    \<open>wf_store\<close>, and \<open>cats_ok\<close> where the code keeps it.
  \<^item> App: no run raises IndexError or ValueError; the only exceptions are the read
    error of a file, the open error of a file name that is not an entry of \<open>todo/\<close>,
    and the help key's NameError (C1). The same holds for \<open>main\<close> on any input
    stream, which otherwise ends with the loop stopped (C2). From every reachable state
    the indices used by the handlers are in range (C3). No event removes a category
    (C13). The functional behaviour of add (C10), toggle (C11), the tab keys (C12), the
    move keys (C14), the delete dialog (C15), quit (C21) and the footer alarms (C32).
    The save key then the reload key give back the items (C6). The defects: an edit can
    leave an item on no tab (C27); a reload under the delete dialog voids the
    confirmation, which still reports a deletion (C28); a blank edit loses the item
    (C29); an earlier footer alarm clears a later message (C32); the keymap error message
    is never shown (C33).
  \<^item> MainLoop: the loop returns once an input stops it, the quit key or Ctrl-C
    (C17); events followed by Ctrl-C equal the finite run followed by the handler's save,
    whose store, disk and stopped loop are spelled out (C18); with a quit binding that is
    no string only Ctrl-C ends the program (C35).
  \<^item> Render: in every reachable state the widgets show the state, one tab and at most
    one row, the selected one, are highlighted (C4); the edit and delete keys open
    dialogs that show the selected item (C16).
  \<^item> Keymap: whatever the configuration, the space bar toggles only when the config
    binds \<open>toggle\<close> to \<open>" "\<close> itself; the default binding \<open>"space"\<close> is
    not the token urwid sends (C34).
  \<^item> Jwt: the two secrets are \<open>token_hex(32)\<close>: 64 hex digits that decode to 32
    random bytes each (C24). Every branch of \<open>generate_jwt_secrets\<close>, errors
    included, and the read back of the secrets (C25). The script prints at most eight
    characters, the first four bytes, of each secret (C26). It overwrites existing
    secrets (C36), and equal paths lose the local secret (C37).

  \<^bold>\<open>Bounds and choices.\<close> Only the main loop may run forever; it is a
  \<open>partial_function (option)\<close> over an input stream, and C17 proves that it
  returns as soon as the stream holds a stopping input. Every other loop of the code runs
  over a finite list (lines, files, items, events) and is a structural recursion or a
  \<open>fun\<close>/\<open>function\<close> with a length measure (\<open>split_aux\<close>,
  \<open>rel_place\<close>). Characters are Latin-1 code points, the range on which the
  character classes and \<open>capitalize\<close> are written out (ASCII case mapping only;
  \<open>capitalize\<close> only builds the heading line of a file, which the parser skips).
  A file the code creates is listed last on the disk. Time is a counter of ticks; an
  alarm set with \<open>set_alarm_in(3, ...)\<close> fires at the third tick. The random
  source of each secret is a function from positions to bytes.

  \<^bold>\<open>Not modelled.\<close> The drawing urwid does itself (layout into character cells,
  colours, focus): the model stops at the markup, rows, footer and overlays the program
  hands to urwid. The help text, which is built and then dropped when
  \<open>connect_signal\<close> raises. \<open>argparse\<close> and \<open>os.path.expanduser\<close>
  (the directory is the disk given to \<open>main_prog\<close>). The file system outside
  \<open>todo/\<close>: a file written there is not listed, and \<open>todo/\<close> is taken to
  have no subdirectories and to be the target of no absolute path or \<open>..\<close>
  path. Failures of \<open>open(..., 'w')\<close> on a plain name in \<open>todo/\<close>
  (permissions, a full disk). The printed text of caught exceptions. The contents of the
  config file written on first run. A key binding that is not a string is shown as the
  empty text.
\<close>

end
